(* ===== verification/Gateway_Prelude.thy ===== *)
theory Gateway_Prelude
  imports Main "HOL-Library.Sublist"
begin

text \<open>
  What every component of the gateway shares: the part of the Go standard library's string
  handling that the sources use, and a few facts on maps, lists and optional values.

  A Go string is a sequence of bytes, here a \<open>string\<close> whose characters are bytes. White space
  is Go's \<open>unicode.IsSpace\<close>, written out as the UTF-8 encodings of its code points, so that
  \<open>TrimSpace\<close> and \<open>Fields\<close> agree with Go on every byte string. Case mapping (\<open>ToLower\<close>,
  \<open>EqualFold\<close>) is that of the ASCII letters; a byte outside ASCII is kept as it is.
\<close>

section \<open>Collections of facts\<close>

named_theorems gostr "facts on the Go string functions"

section \<open>White space\<close>

definition space_runes :: "string list" where
  "space_runes =
     [[CHR 0x20], [CHR 0x09], [CHR 0x0A], [CHR 0x0B], [CHR 0x0C], [CHR 0x0D],
      [CHR 0xC2, CHR 0x85], [CHR 0xC2, CHR 0xA0],
      [CHR 0xE1, CHR 0x9A, CHR 0x80],
      [CHR 0xE2, CHR 0x80, CHR 0x80], [CHR 0xE2, CHR 0x80, CHR 0x81],
      [CHR 0xE2, CHR 0x80, CHR 0x82], [CHR 0xE2, CHR 0x80, CHR 0x83],
      [CHR 0xE2, CHR 0x80, CHR 0x84], [CHR 0xE2, CHR 0x80, CHR 0x85],
      [CHR 0xE2, CHR 0x80, CHR 0x86], [CHR 0xE2, CHR 0x80, CHR 0x87],
      [CHR 0xE2, CHR 0x80, CHR 0x88], [CHR 0xE2, CHR 0x80, CHR 0x89],
      [CHR 0xE2, CHR 0x80, CHR 0x8A], [CHR 0xE2, CHR 0x80, CHR 0xA8],
      [CHR 0xE2, CHR 0x80, CHR 0xA9], [CHR 0xE2, CHR 0x80, CHR 0xAF],
      [CHR 0xE2, CHR 0x81, CHR 0x9F], [CHR 0xE3, CHR 0x80, CHR 0x80]]"

fun strip_one :: "string list \<Rightarrow> string \<Rightarrow> string option" where
  "strip_one [] s = None"
| "strip_one (p # ps) s =
     (if p \<noteq> [] \<and> prefix p s then Some (drop (length p) s) else strip_one ps s)"

lemma strip_one_shorter: "strip_one ps s = Some r \<Longrightarrow> length r < length s"
  by (induction ps s rule: strip_one.induct) (auto split: if_splits simp: prefix_def)

lemma strip_one_None_iff:
  "strip_one ps s = None \<longleftrightarrow> (\<forall>p \<in> set ps. p \<noteq> [] \<longrightarrow> \<not> prefix p s)"
  by (induction ps s rule: strip_one.induct) auto

lemma strip_one_Nil [simp]: "strip_one ps [] = None"
  by (induction ps) auto

lemma strip_one_suffix: "strip_one ps s = Some r \<Longrightarrow> suffix r s"
  by (induction ps s rule: strip_one.induct) (auto split: if_splits simp: suffix_drop)

function trim_left_runes :: "string list \<Rightarrow> string \<Rightarrow> string" where
  "trim_left_runes ps s =
     (case strip_one ps s of None \<Rightarrow> s | Some r \<Rightarrow> trim_left_runes ps r)"
  by pat_completeness auto
termination
  by (relation "measure (\<lambda>(ps, s). length s)") (auto dest: strip_one_shorter)

declare trim_left_runes.simps [simp del]

lemma trim_left_runes_None: "strip_one ps s = None \<Longrightarrow> trim_left_runes ps s = s"
  by (simp add: trim_left_runes.simps)

lemma trim_left_runes_stuck: "strip_one ps (trim_left_runes ps s) = None"
proof (induction ps s rule: trim_left_runes.induct)
  case (1 ps s)
  then show ?case
    by (cases "strip_one ps s") (simp_all add: trim_left_runes.simps [of ps s])
qed

lemma trim_left_runes_suffix: "suffix (trim_left_runes ps s) s"
proof (induction ps s rule: trim_left_runes.induct)
  case (1 ps s)
  show ?case
  proof (cases "strip_one ps s")
    case None
    then show ?thesis by (simp add: trim_left_runes.simps [of ps s])
  next
    case (Some r)
    with 1 have "suffix (trim_left_runes ps r) r" by simp
    moreover have "suffix r s" using Some by (rule strip_one_suffix)
    ultimately have "suffix (trim_left_runes ps r) s" by (rule suffix_order.trans)
    with Some show ?thesis by (simp add: trim_left_runes.simps [of ps s])
  qed
qed

definition TrimLeftSpace :: "string \<Rightarrow> string" where
  "TrimLeftSpace s = trim_left_runes space_runes s"

definition TrimRightSpace :: "string \<Rightarrow> string" where
  "TrimRightSpace s = rev (trim_left_runes (map rev space_runes) (rev s))"

definition TrimSpace :: "string \<Rightarrow> string" where
  "TrimSpace s = TrimRightSpace (TrimLeftSpace s)"

definition trimmed :: "string \<Rightarrow> bool" where
  "trimmed s \<longleftrightarrow> strip_one space_runes s = None
     \<and> strip_one (map rev space_runes) (rev s) = None"

lemma TrimSpace_trimmed [gostr]: "trimmed s \<Longrightarrow> TrimSpace s = s"
  by (simp add: trimmed_def TrimSpace_def TrimLeftSpace_def TrimRightSpace_def
      trim_left_runes_None)

lemma TrimRightSpace_prefix: "prefix (TrimRightSpace s) s"
  using trim_left_runes_suffix [of "map rev space_runes" "rev s"]
  by (simp add: TrimRightSpace_def suffix_to_prefix)

lemma trimmed_TrimSpace [simp, gostr]: "trimmed (TrimSpace s)"
proof -
  let ?l = "TrimLeftSpace s"
  have l: "strip_one space_runes ?l = None"
    by (simp add: TrimLeftSpace_def trim_left_runes_stuck)
  have "strip_one space_runes (TrimRightSpace ?l) = None"
    using l TrimRightSpace_prefix [of ?l]
    by (auto simp: strip_one_None_iff intro: prefix_order.trans)
  moreover have "strip_one (map rev space_runes) (rev (TrimRightSpace ?l)) = None"
    by (simp add: TrimRightSpace_def trim_left_runes_stuck)
  ultimately show ?thesis by (simp add: trimmed_def TrimSpace_def)
qed

lemma TrimSpace_idem [simp, gostr]: "TrimSpace (TrimSpace s) = TrimSpace s"
  by (simp add: TrimSpace_trimmed)

lemma TrimSpace_Nil [simp, gostr]: "TrimSpace [] = []"
  by (simp add: TrimSpace_trimmed trimmed_def)

lemma sublist_TrimSpace: "sublist (TrimSpace s) s"
proof -
  have "sublist (TrimSpace s) (TrimLeftSpace s)"
    using TrimRightSpace_prefix [of "TrimLeftSpace s"]
    by (auto simp: TrimSpace_def)
  moreover have "sublist (TrimLeftSpace s) s"
    using trim_left_runes_suffix [of space_runes s]
    by (auto simp: TrimLeftSpace_def)
  ultimately show ?thesis by (rule sublist_order.order_trans)
qed

lemma set_TrimSpace: "set (TrimSpace s) \<subseteq> set s"
  using sublist_TrimSpace by (rule set_mono_sublist)

lemma strip_one_hd: "\<forall>p \<in> set ps. hd p \<noteq> c \<Longrightarrow> strip_one ps (c # cs) = None"
  by (auto simp: strip_one_None_iff prefix_Cons)

text \<open>A string between two bytes that are not part of white space is trimmed.\<close>

lemma trimmedI [gostr]:
  assumes "s \<noteq> []" and "hd s \<notin> hd ` set space_runes" and "last s \<notin> last ` set space_runes"
  shows "trimmed s"
proof -
  obtain c cs where c: "s = c # cs" using assms(1) by (cases s) auto
  obtain d ds where d: "rev s = d # ds" using assms(1) by (cases "rev s") auto
  then have "d = last s" using assms(1) by (metis hd_rev list.sel(1))
  have "p \<noteq> []" if "p \<in> set space_runes" for p
    using that by (auto simp: space_runes_def)
  then have "\<forall>p \<in> set (map rev space_runes). hd p \<noteq> d"
    using assms(3) \<open>d = last s\<close> by (auto simp: hd_rev) (metis imageI)
  then have "strip_one (map rev space_runes) (rev s) = None"
    unfolding d by (rule strip_one_hd)
  moreover have "strip_one space_runes s = None"
    unfolding c using assms(2) c by (intro strip_one_hd) auto
  ultimately show ?thesis by (simp add: trimmed_def)
qed

lemma TrimSpace_space [simp, gostr]: "TrimSpace (CHR '' '' # s) = TrimSpace s"
  by (simp add: TrimSpace_def TrimLeftSpace_def trim_left_runes.simps [of _ "CHR '' '' # s"]
      space_runes_def)

section \<open>Case\<close>

definition ascii_lower :: "char \<Rightarrow> char" where
  "ascii_lower c =
     (if 65 \<le> (of_char c :: nat) \<and> (of_char c :: nat) \<le> 90
      then char_of ((of_char c :: nat) + 32) else c)"

text \<open>Evaluating the case functions on literals.\<close>

lemmas ascii_eval = ascii_lower_def char_of_def bit_0

definition ToLower :: "string \<Rightarrow> string" where
  "ToLower s = map ascii_lower s"

definition EqualFold :: "string \<Rightarrow> string \<Rightarrow> bool" where
  "EqualFold s t \<longleftrightarrow> ToLower s = ToLower t"

lemma of_char_ascii_lower:
  "65 \<le> (of_char c :: nat) \<Longrightarrow> (of_char c :: nat) \<le> 90 \<Longrightarrow>
     (of_char (ascii_lower c) :: nat) = of_char c + 32"
  by (simp add: ascii_lower_def)

lemma ascii_lower_idem [simp]: "ascii_lower (ascii_lower c) = ascii_lower c"
  by (cases "65 \<le> (of_char c :: nat) \<and> (of_char c :: nat) \<le> 90")
    (auto simp: of_char_ascii_lower ascii_lower_def [of "ascii_lower c"], simp_all add: ascii_lower_def)

lemma ToLower_idem [simp, gostr]: "ToLower (ToLower s) = ToLower s"
  by (simp add: ToLower_def)

lemma ToLower_Nil [simp]: "ToLower s = [] \<longleftrightarrow> s = []" "ToLower [] = []"
  by (simp_all add: ToLower_def)

lemma length_ToLower [simp]: "length (ToLower s) = length s"
  by (simp add: ToLower_def)

lemma EqualFold_refl [simp]: "EqualFold s s"
  by (simp add: EqualFold_def)

lemma EqualFold_sym: "EqualFold s t \<Longrightarrow> EqualFold t s"
  by (simp add: EqualFold_def)

lemma EqualFold_ToLower [simp]: "EqualFold (ToLower s) t = EqualFold s t"
  by (simp add: EqualFold_def)

section \<open>Searching, cutting and splitting\<close>

fun Contains :: "string \<Rightarrow> string \<Rightarrow> bool" where
  "Contains [] sub \<longleftrightarrow> sub = []"
| "Contains (c # cs) sub \<longleftrightarrow> prefix sub (c # cs) \<or> Contains cs sub"

lemma Contains_sublist: "Contains s sub \<longleftrightarrow> sublist sub s"
  by (induction s) (auto simp: sublist_Cons_right)

lemma Contains_TrimSpace: "Contains (TrimSpace s) sub \<Longrightarrow> Contains s sub"
  using sublist_TrimSpace [of s] by (auto simp: Contains_sublist intro: sublist_order.order_trans)

text \<open>\<open>strings.Cut\<close> at the first occurrence of a separator of one byte.\<close>

fun Cut :: "string \<Rightarrow> char \<Rightarrow> (string \<times> string) option" where
  "Cut [] sep = None"
| "Cut (c # cs) sep =
     (if c = sep then Some ([], cs)
      else (case Cut cs sep of None \<Rightarrow> None | Some (a, b) \<Rightarrow> Some (c # a, b)))"

lemma Cut_Some_iff: "Cut s sep = Some (a, b) \<longleftrightarrow> s = a @ sep # b \<and> sep \<notin> set a"
proof (induction s arbitrary: a)
  case Nil
  then show ?case by simp
next
  case (Cons c cs)
  show ?case
  proof (cases a)
    case Nil
    then show ?thesis by (simp split: option.splits)
  next
    case (Cons x xs)
    with Cons.IH [of xs] show ?thesis by (auto split: option.splits)
  qed
qed

lemma Cut_None_iff: "Cut s sep = None \<longleftrightarrow> sep \<notin> set s"
  by (induction s) (auto split: option.splits)

text \<open>\<open>strings.Split\<close> at a separator of one byte: always at least one part.\<close>

fun Split :: "string \<Rightarrow> char \<Rightarrow> string list" where
  "Split [] sep = [[]]"
| "Split (c # cs) sep =
     (if c = sep then [] # Split cs sep
      else (case Split cs sep of [] \<Rightarrow> [[c]] | p # ps \<Rightarrow> (c # p) # ps))"

lemma Split_nonempty [simp]: "Split s sep \<noteq> []"
  by (induction s) (auto split: list.splits)

lemma Split_no_sep: "sep \<notin> set s \<Longrightarrow> Split s sep = [s]"
  by (induction s) auto

lemma length_Split: "length (Split s sep) = Suc (count_list s sep)"
  by (induction s) (auto split: list.splits)

lemma Split_single_iff: "length (Split s sep) = 1 \<longleftrightarrow> sep \<notin> set s"
  by (simp add: length_Split count_list_0_iff)

text \<open>\<open>strings.Fields\<close>: the maximal runs of bytes that are not white space.\<close>

function fields_from :: "string \<Rightarrow> string \<Rightarrow> string list" where
  "fields_from cur [] = (if cur = [] then [] else [rev cur])"
| "fields_from cur (c # cs) =
     (case strip_one space_runes (c # cs) of
        Some r \<Rightarrow> (if cur = [] then fields_from [] r else rev cur # fields_from [] r)
      | None \<Rightarrow> fields_from (c # cur) cs)"
  by pat_completeness auto
termination
  by (relation "measure (\<lambda>(cur, s). length s)")
    (auto dest: strip_one_shorter)

definition Fields :: "string \<Rightarrow> string list" where
  "Fields s = fields_from [] s"

lemma fields_from_nonempty: "f \<in> set (fields_from cur s) \<Longrightarrow> f \<noteq> []"
  by (induction cur s rule: fields_from.induct) (auto split: option.splits if_splits)

lemma Fields_nonempty: "f \<in> set (Fields s) \<Longrightarrow> f \<noteq> []"
  by (simp add: Fields_def fields_from_nonempty)

text \<open>\<open>strings.Trim\<close> with a cutset of one byte, \<open>strings.TrimPrefix\<close>, \<open>strings.ReplaceAll\<close>
  of one byte, \<open>strings.ContainsAny\<close>.\<close>

definition TrimChar :: "string \<Rightarrow> char \<Rightarrow> string" where
  "TrimChar s c = rev (dropWhile (\<lambda>x. x = c) (rev (dropWhile (\<lambda>x. x = c) s)))"

definition TrimPrefix :: "string \<Rightarrow> string \<Rightarrow> string" where
  "TrimPrefix s p = (if prefix p s then drop (length p) s else s)"

definition ReplaceByte :: "string \<Rightarrow> char \<Rightarrow> string \<Rightarrow> string" where
  "ReplaceByte s c r = concat (map (\<lambda>x. if x = c then r else [x]) s)"

definition ContainsAny :: "string \<Rightarrow> string \<Rightarrow> bool" where
  "ContainsAny s cs \<longleftrightarrow> list_ex (\<lambda>c. c \<in> set cs) s"

section \<open>Decimal and boolean texts\<close>

definition digit_char :: "nat \<Rightarrow> char" where
  "digit_char d = char_of (48 + d)"

fun nat_text :: "nat \<Rightarrow> string" where
  "nat_text n = (if n < 10 then [digit_char n] else nat_text (n div 10) @ [digit_char (n mod 10)])"

declare nat_text.simps [simp del]

definition Itoa :: "int \<Rightarrow> string" where
  "Itoa i = (if i < 0 then CHR ''-'' # nat_text (nat (- i)) else nat_text (nat i))"

definition FormatBool :: "bool \<Rightarrow> string" where
  "FormatBool b = (if b then ''true'' else ''false'')"

lemma nat_text_nonempty [simp]: "nat_text n \<noteq> []"
  by (subst nat_text.simps) simp

lemma nat_text_digits: "c \<in> set (nat_text n) \<Longrightarrow> c \<in> digit_char ` {0..<10}"
proof (induction n rule: nat_text.induct)
  case (1 n)
  show ?case
  proof (cases "n < 10")
    case True
    with "1.prems" show ?thesis by (simp add: nat_text.simps [of n])
  next
    case False
    with "1.prems" have "c = digit_char (n mod 10) \<or> c \<in> set (nat_text (n div 10))"
      by (simp add: nat_text.simps [of n])
    then show ?thesis
    proof
      assume "c \<in> set (nat_text (n div 10))"
      with False "1.IH" show ?thesis by simp
    next
      assume "c = digit_char (n mod 10)"
      then show ?thesis by simp
    qed
  qed
qed

section \<open>Errors and maps\<close>

text \<open>
  The Go idiom \<open>if err != nil { return err }\<close> with the error as an optional value, and its
  two readings.
\<close>

lemma first_error_None_iff [simp]:
  "(case x of None \<Rightarrow> y | Some e \<Rightarrow> Some e) = None \<longleftrightarrow> x = None \<and> y = None"
  by (cases x) auto

lemma first_error_Some_iff:
  "(case x of None \<Rightarrow> y | Some e \<Rightarrow> Some e) = Some err \<longleftrightarrow>
     x = Some err \<or> x = None \<and> y = Some err"
  by (cases x) auto

lemma none_or_mapped_iff [simp]:
  "(case x of None \<Rightarrow> y | Some v \<Rightarrow> Some (f v)) = None \<longleftrightarrow> x = None \<and> y = None"
  by (cases x) auto

section \<open>Counted loops\<close>

text \<open>
  A loop \<open>for i := i0; i < i0 + n; i++\<close>: the body either returns from the function or goes on
  with a new state, and \<open>after\<close> is what follows the loop.
\<close>

datatype ('s, 'r) flow = Continue 's | Return 'r

primrec for_loop ::
  "nat \<Rightarrow> nat \<Rightarrow> (nat \<Rightarrow> 's \<Rightarrow> ('s, 'r) flow) \<Rightarrow> ('s \<Rightarrow> 'r) \<Rightarrow> 's \<Rightarrow> 'r" where
  "for_loop 0 i body after s = after s"
| "for_loop (Suc n) i body after s =
     (case body i s of
        Return r \<Rightarrow> r
      | Continue s' \<Rightarrow> for_loop n (Suc i) body after s')"

lemma for_loop_rule:
  assumes "I i s"
    and "\<And>j s s'. I j s \<Longrightarrow> j < i + n \<Longrightarrow> body j s = Continue s' \<Longrightarrow> I (Suc j) s'"
    and "\<And>j s r. I j s \<Longrightarrow> j < i + n \<Longrightarrow> body j s = Return r \<Longrightarrow> Q r"
    and "\<And>s. I (i + n) s \<Longrightarrow> Q (after s)"
  shows "Q (for_loop n i body after s)"
  using assms
proof (induction n arbitrary: i s)
  case 0
  then show ?case by simp
next
  case (Suc n)
  show ?case
  proof (cases "body i s")
    case (Return r)
    with Suc.prems show ?thesis by simp
  next
    case (Continue s')
    have "Q (for_loop n (Suc i) body after s')"
    proof (rule Suc.IH)
      show "I (Suc i) s'" using Suc.prems Continue by simp
    qed (use Suc.prems in simp_all)
    with Continue show ?thesis by simp
  qed
qed

end
