(* ===== verification/Shelly_Errors.thy ===== *)
theory Shelly_Errors
  imports Gateway_Prelude
begin

text \<open>
  Errors of the Shelly client (internal/shelly/error.go) and the part of Go's error values the
  client inspects. A Go error is a chain built by wrapping; \<open>errors.Is\<close> and \<open>errors.As\<close> walk the
  chain. The constructors are the errors the client makes or looks for: its own sentinel and
  HTTPError, the two context errors, the TLS and X.509 verification failures, \<open>net.Error\<close>
  values (\<open>NetErr\<close> with its text and Timeout(); \<open>OpErr\<close> for the wrapping ones, url.Error and
  net.OpError, whose Timeout() is that of what they wrap), system call numbers, the two end of
  file errors, \<open>Plain\<close> for errors.New and \<open>Wrapf\<close> for fmt.Errorf with \<open>%w\<close>.
\<close>

section \<open>Error values\<close>

record http_error =
  he_operation :: string
  he_status_code :: int
  he_status :: string
  he_body :: string

datatype errno = ECONNRESET | ECONNREFUSED | EPIPE | ETIMEDOUT | EOther string

datatype go_error =
    ErrAdminStatusDeferred
  | HTTPErr http_error
  | Canceled
  | DeadlineExceeded
  | CertificateVerification go_error
  | UnknownAuthority string
  | HostnameError string
  | NetErr string bool
  | OpErr string go_error
  | Errno errno
  | EOF
  | UnexpectedEOF
  | Plain string
  | Wrapf string go_error

fun unwrap :: "go_error \<Rightarrow> go_error option" where
  "unwrap (CertificateVerification e) = Some e"
| "unwrap (OpErr p e) = Some e"
| "unwrap (Wrapf p e) = Some e"
| "unwrap _ = None"

fun error_chain :: "go_error \<Rightarrow> go_error list" where
  "error_chain (CertificateVerification e) = CertificateVerification e # error_chain e"
| "error_chain (OpErr p e) = OpErr p e # error_chain e"
| "error_chain (Wrapf p e) = Wrapf p e # error_chain e"
| "error_chain e = [e]"

definition errors_Is :: "go_error option \<Rightarrow> go_error \<Rightarrow> bool" where
  "errors_Is err target = (case err of None \<Rightarrow> False | Some e \<Rightarrow> target \<in> set (error_chain e))"

text \<open>\<open>errors.As\<close>: the first error of the chain that is of the wanted type.\<close>

definition errors_As :: "(go_error \<Rightarrow> 'a option) \<Rightarrow> go_error option \<Rightarrow> 'a option" where
  "errors_As cast err =
     (case err of
        None \<Rightarrow> None
      | Some e \<Rightarrow> (case find (\<lambda>x. cast x \<noteq> None) (error_chain e) of
                     None \<Rightarrow> None | Some x \<Rightarrow> cast x))"

definition as_http_error :: "go_error \<Rightarrow> http_error option" where
  "as_http_error e = (case e of HTTPErr h \<Rightarrow> Some h | _ \<Rightarrow> None)"

text \<open>The value of Timeout() of an error that is a \<open>net.Error\<close>.\<close>

fun as_net_error :: "go_error \<Rightarrow> bool option" where
  "as_net_error DeadlineExceeded = Some True"
| "as_net_error (NetErr msg timeout) = Some timeout"
| "as_net_error (OpErr p e) = Some (as_net_error e = Some True)"
| "as_net_error (Errno n) = Some (n = ETIMEDOUT)"
| "as_net_error _ = None"

section \<open>Texts\<close>

definition status_texts :: "(int \<times> string) list" where
  "status_texts =
    [(100, ''Continue''), (101, ''Switching Protocols''), (102, ''Processing''),
     (103, ''Early Hints''), (200, ''OK''), (201, ''Created''), (202, ''Accepted''),
     (203, ''Non-Authoritative Information''), (204, ''No Content''), (205, ''Reset Content''),
     (206, ''Partial Content''), (207, ''Multi-Status''), (208, ''Already Reported''),
     (226, ''IM Used''), (300, ''Multiple Choices''), (301, ''Moved Permanently''),
     (302, ''Found''), (303, ''See Other''), (304, ''Not Modified''), (305, ''Use Proxy''),
     (307, ''Temporary Redirect''), (308, ''Permanent Redirect''), (400, ''Bad Request''),
     (401, ''Unauthorized''), (402, ''Payment Required''), (403, ''Forbidden''),
     (404, ''Not Found''), (405, ''Method Not Allowed''), (406, ''Not Acceptable''),
     (407, ''Proxy Authentication Required''), (408, ''Request Timeout''), (409, ''Conflict''),
     (410, ''Gone''), (411, ''Length Required''), (412, ''Precondition Failed''),
     (413, ''Request Entity Too Large''), (414, ''Request URI Too Long''),
     (415, ''Unsupported Media Type''), (416, ''Requested Range Not Satisfiable''),
     (417, ''Expectation Failed''), (418, ''I'' @ [CHR 0x27] @ ''m a teapot''),
     (421, ''Misdirected Request''), (422, ''Unprocessable Entity''), (423, ''Locked''),
     (424, ''Failed Dependency''), (425, ''Too Early''), (426, ''Upgrade Required''),
     (428, ''Precondition Required''), (429, ''Too Many Requests''),
     (431, ''Request Header Fields Too Large''), (451, ''Unavailable For Legal Reasons''),
     (500, ''Internal Server Error''), (501, ''Not Implemented''), (502, ''Bad Gateway''),
     (503, ''Service Unavailable''), (504, ''Gateway Timeout''),
     (505, ''HTTP Version Not Supported''), (506, ''Variant Also Negotiates''),
     (507, ''Insufficient Storage''), (508, ''Loop Detected''), (510, ''Not Extended''),
     (511, ''Network Authentication Required'')]"

definition StatusText :: "int \<Rightarrow> string" where
  "StatusText code = (case map_of status_texts code of None \<Rightarrow> [] | Some t \<Rightarrow> t)"

definition HTTPError_Error :: "http_error \<Rightarrow> string" where
  "HTTPError_Error e =
     (let op0 = TrimSpace (he_operation e);
          operation = (if op0 = [] then ''request'' else op0);
          message = ''shelly '' @ operation @ '' HTTP '' @ Itoa (he_status_code e);
          status = TrimSpace (he_status e);
          message1 = (if status \<noteq> [] then message @ '': '' @ status else message);
          body = TrimSpace (he_body e);
          statusText = StatusText (he_status_code e)
      in if body \<noteq> [] \<and> \<not> EqualFold body status \<and> \<not> EqualFold body statusText
         then message1 @ '': '' @ body else message1)"

fun errno_text :: "errno \<Rightarrow> string" where
  "errno_text ECONNRESET = ''connection reset by peer''"
| "errno_text ECONNREFUSED = ''connection refused''"
| "errno_text EPIPE = ''broken pipe''"
| "errno_text ETIMEDOUT = ''connection timed out''"
| "errno_text (EOther msg) = msg"

fun error_text :: "go_error \<Rightarrow> string" where
  "error_text ErrAdminStatusDeferred = ''admin status request deferred to FBS activity''"
| "error_text (HTTPErr h) = HTTPError_Error h"
| "error_text Canceled = ''context canceled''"
| "error_text DeadlineExceeded = ''context deadline exceeded''"
| "error_text (CertificateVerification e) = ''tls: failed to verify certificate: '' @ error_text e"
| "error_text (UnknownAuthority msg) = msg"
| "error_text (HostnameError msg) = msg"
| "error_text (NetErr msg timeout) = msg"
| "error_text (OpErr p e) = p @ '': '' @ error_text e"
| "error_text (Errno n) = errno_text n"
| "error_text EOF = ''EOF''"
| "error_text UnexpectedEOF = ''unexpected EOF''"
| "error_text (Plain msg) = msg"
| "error_text (Wrapf p e) = p @ '': '' @ error_text e"

section \<open>Classification\<close>

definition IsHTTPStatus :: "go_error option \<Rightarrow> int list \<Rightarrow> bool" where
  "IsHTTPStatus err statusCodes =
     (case errors_As as_http_error err of
        None \<Rightarrow> False
      | Some h \<Rightarrow> list_ex (\<lambda>c. he_status_code h = c) statusCodes)"

definition StatusLocked :: int where "StatusLocked = 423"
definition StatusTooManyRequests :: int where "StatusTooManyRequests = 429"
definition StatusUnauthorized :: int where "StatusUnauthorized = 401"

definition RequiresReboot :: "go_error option \<Rightarrow> bool" where
  "RequiresReboot err = IsHTTPStatus err [StatusLocked, StatusTooManyRequests]"

definition IsAuthenticationThrottled :: "go_error option \<Rightarrow> bool" where
  "IsAuthenticationThrottled err = IsHTTPStatus err [StatusTooManyRequests]"

lemmas status_codes = StatusLocked_def StatusTooManyRequests_def StatusUnauthorized_def

lemmas error_classes = errors_Is_def errors_As_def as_http_error_def IsHTTPStatus_def
  RequiresReboot_def IsAuthenticationThrottled_def status_codes

lemma error_chain_Cons: "\<exists>es. error_chain e = e # es"
  by (cases e) auto

lemma errors_As_Wrapf [simp]: "cast (Wrapf p e) = None \<Longrightarrow> errors_As cast (Some (Wrapf p e)) = errors_As cast (Some e)"
  by (simp add: errors_As_def)

lemma errors_Is_Wrapf [simp]:
  "target \<noteq> Wrapf p e \<Longrightarrow> errors_Is (Some (Wrapf p e)) target = errors_Is (Some e) target"
  by (simp add: errors_Is_def)

lemma errors_Is_None [simp]: "\<not> errors_Is None target"
  by (simp add: errors_Is_def)

lemma IsHTTPStatus_None [simp]: "\<not> IsHTTPStatus None cs"
  by (simp add: IsHTTPStatus_def errors_As_def)

lemma IsHTTPStatus_HTTPErr [simp]:
  "IsHTTPStatus (Some (HTTPErr h)) cs \<longleftrightarrow> he_status_code h \<in> set cs"
  by (auto simp: IsHTTPStatus_def errors_As_def as_http_error_def list_ex_iff)

lemma IsHTTPStatus_Wrapf [simp]:
  "IsHTTPStatus (Some (Wrapf p e)) cs = IsHTTPStatus (Some e) cs"
  by (simp add: IsHTTPStatus_def as_http_error_def)

lemma IsAuthenticationThrottled_reboot:
  "IsAuthenticationThrottled err \<Longrightarrow> RequiresReboot err"
  by (auto simp: RequiresReboot_def IsAuthenticationThrottled_def IsHTTPStatus_def
      split: option.splits)

lemma RequiresReboot_iff:
  "RequiresReboot (Some e) \<longleftrightarrow>
     (\<exists>h. errors_As as_http_error (Some e) = Some h \<and> he_status_code h \<in> {423, 429})"
  by (auto simp: RequiresReboot_def IsHTTPStatus_def status_codes split: option.splits)

end
