(* ===== verification/Shelly_Digest.thy ===== *)
theory Shelly_Digest
  imports Shelly_Errors "HOL-Library.Word"
begin

text \<open>
  HTTP digest authentication (internal/shelly/digest.go): the parser of a WWW-Authenticate
  challenge, the session made from it, the bounds on its age and on the number of requests it
  signs, and the Authorization header of the next request. The nonce count is a 32-bit word,
  as in the code; instants and durations are nanoseconds, as \<open>int\<close>. SHA-256 with its
  hexadecimal text (\<open>sha256Hex\<close>) and the random client nonce (\<open>randomHex\<close>) are arguments:
  the first as the function it is, the second as the outcome of the call. The lemmas read both
  ways: a device's challenge as the client parses it, and a signed header as the device does.
\<close>

section \<open>Parsing a challenge\<close>

abbreviation quote_char :: char where "quote_char \<equiv> CHR 0x22"
abbreviation backslash_char :: char where "backslash_char \<equiv> CHR 0x5C"

text \<open>
  The code ranges over the runes of the header and writes each back. \<open>rune_width\<close> is the number of
  bytes of the rune a byte string starts with, 0 when it starts with none: unicode/utf8 accepts
  the sequences of this table only. A byte that starts no rune comes back as U+FFFD, three bytes
  long; \<open>as_runes\<close> is what a whole string comes back as.
\<close>

definition byte_in :: "nat \<Rightarrow> nat \<Rightarrow> char \<Rightarrow> bool" where
  "byte_in lo hi c \<longleftrightarrow> lo \<le> (of_char c :: nat) \<and> (of_char c :: nat) \<le> hi"

definition ascii :: "char \<Rightarrow> bool" where
  "ascii c \<longleftrightarrow> byte_in 0x00 0x7F c"

definition rune_table :: "(char \<Rightarrow> bool) list list" where
  "rune_table =
     [[byte_in 0x00 0x7F],
      [byte_in 0xC2 0xDF, byte_in 0x80 0xBF],
      [byte_in 0xE0 0xE0, byte_in 0xA0 0xBF, byte_in 0x80 0xBF],
      [byte_in 0xE1 0xEC, byte_in 0x80 0xBF, byte_in 0x80 0xBF],
      [byte_in 0xED 0xED, byte_in 0x80 0x9F, byte_in 0x80 0xBF],
      [byte_in 0xEE 0xEF, byte_in 0x80 0xBF, byte_in 0x80 0xBF],
      [byte_in 0xF0 0xF0, byte_in 0x90 0xBF, byte_in 0x80 0xBF, byte_in 0x80 0xBF],
      [byte_in 0xF1 0xF3, byte_in 0x80 0xBF, byte_in 0x80 0xBF, byte_in 0x80 0xBF],
      [byte_in 0xF4 0xF4, byte_in 0x80 0x8F, byte_in 0x80 0xBF, byte_in 0x80 0xBF]]"

fun fits :: "(char \<Rightarrow> bool) list \<Rightarrow> string \<Rightarrow> bool" where
  "fits [] s = True"
| "fits (p # ps) [] = False"
| "fits (p # ps) (c # cs) = (p c \<and> fits ps cs)"

definition rune_width :: "string \<Rightarrow> nat" where
  "rune_width s =
     (case List.find (\<lambda>ps. fits ps s) rune_table of None \<Rightarrow> 0 | Some ps \<Rightarrow> length ps)"

definition RuneError :: string where
  "RuneError = [CHR 0xEF, CHR 0xBF, CHR 0xBD]"

text \<open>The bytes of the current rune still to come are counted by \<open>k\<close>.\<close>

fun rune_bytes :: "nat \<Rightarrow> string \<Rightarrow> string" where
  "rune_bytes k [] = []"
| "rune_bytes (Suc k) (c # cs) = c # rune_bytes k cs"
| "rune_bytes 0 (c # cs) =
     (case rune_width (c # cs) of
        0 \<Rightarrow> RuneError @ rune_bytes 0 cs
      | Suc k \<Rightarrow> c # rune_bytes k cs)"

definition as_runes :: "string \<Rightarrow> string" where
  "as_runes s = rune_bytes 0 s"

text \<open>
  The loop of \<open>splitDigestHeader\<close> over what the runes are written back as: the current part
  (reversed), whether inside quotes, whether the previous rune was a backslash. The runes it
  tests for are single bytes.
\<close>

fun split_digest_loop :: "string \<Rightarrow> bool \<Rightarrow> bool \<Rightarrow> string \<Rightarrow> string list" where
  "split_digest_loop b inQuote escaped [] =
     (if TrimSpace (rev b) \<noteq> [] then [TrimSpace (rev b)] else [])"
| "split_digest_loop b inQuote escaped (r # rs) =
     (if escaped then split_digest_loop (r # b) inQuote False rs
      else if r = backslash_char then split_digest_loop (r # b) inQuote True rs
      else if r = quote_char then split_digest_loop (r # b) (\<not> inQuote) escaped rs
      else if r = CHR '','' \<and> \<not> inQuote
        then TrimSpace (rev b) # split_digest_loop [] inQuote escaped rs
      else split_digest_loop (r # b) inQuote escaped rs)"

definition splitDigestHeader :: "string \<Rightarrow> string list" where
  "splitDigestHeader s = split_digest_loop [] False False (as_runes s)"

definition digest_part :: "string \<Rightarrow> (string \<rightharpoonup> string) \<Rightarrow> (string \<rightharpoonup> string)" where
  "digest_part part result =
     (case Cut part (CHR ''='') of
        None \<Rightarrow> result
      | Some (key, value) \<Rightarrow>
          result(ToLower (TrimSpace key) \<mapsto> TrimChar (TrimSpace value) quote_char))"

definition parseDigestChallenge :: "string \<Rightarrow> (string \<rightharpoonup> string)" where
  "parseDigestChallenge header0 =
     (let header1 = TrimSpace header0;
          header = (if prefix ''digest '' (ToLower header1)
                    then TrimSpace (drop 7 header1) else header1)
      in fold digest_part (splitDigestHeader header) Map.empty)"

definition chooseDigestQOP :: "string \<Rightarrow> string" where
  "chooseDigestQOP qopRaw =
     (if list_ex (\<lambda>part. EqualFold (TrimSpace part) ''auth'') (Split qopRaw (CHR '',''))
      then ''auth'' else [])"

definition escapeDigest :: "string \<Rightarrow> string" where
  "escapeDigest s =
     ReplaceByte (ReplaceByte s backslash_char [backslash_char, backslash_char])
       quote_char [backslash_char, quote_char]"

section \<open>Sessions\<close>

definition maxDigestNonceCount :: "32 word" where
  "maxDigestNonceCount = 30000"

definition digestSessionMaxAge :: int where
  "digestSessionMaxAge = 55 * 60 * 1000000000"

record digest_session =
  ds_realm :: string
  ds_nonce :: string
  ds_algorithm :: string
  ds_qop :: string
  ds_opaque :: string
  ds_cnonce :: string
  ds_nonceCount :: "32 word"
  ds_createdAt :: int

definition param :: "(string \<rightharpoonup> string) \<Rightarrow> string \<Rightarrow> string" where
  "param m k = (case m k of None \<Rightarrow> [] | Some v \<Rightarrow> v)"

definition newDigestSession ::
  "(go_error + string) \<Rightarrow> int \<Rightarrow> string \<Rightarrow> go_error + digest_session" where
  "newDigestSession rand16 now challenge =
     (let params = parseDigestChallenge challenge;
          realm = param params ''realm'';
          nonce = param params ''nonce'';
          algorithm0 = param params ''algorithm'';
          qopRaw = param params ''qop''
      in if realm = [] then Inl (Plain ''digest challenge missing realm'')
         else if nonce = [] then Inl (Plain ''digest challenge missing nonce'')
         else
           let algorithm = (if algorithm0 = [] then ''SHA-256'' else algorithm0)
           in if \<not> EqualFold algorithm ''SHA-256''
                then Inl (Plain (''unsupported digest algorithm '' @ algorithm))
              else
                let qop = chooseDigestQOP qopRaw
                in if TrimSpace qopRaw \<noteq> [] \<and> qop = []
                     then Inl (Plain (''unsupported digest qop '' @ qopRaw))
                   else
                     (case (if qop = ''auth'' then rand16 else Inr []) of
                        Inl e \<Rightarrow> Inl e
                      | Inr cnonce \<Rightarrow>
                          Inr \<lparr>ds_realm = realm, ds_nonce = nonce, ds_algorithm = ''SHA-256'',
                               ds_qop = qop, ds_opaque = param params ''opaque'',
                               ds_cnonce = cnonce, ds_nonceCount = 0, ds_createdAt = now\<rparr>))"

definition session_expired :: "digest_session option \<Rightarrow> int \<Rightarrow> bool" where
  "session_expired so now =
     (case so of
        None \<Rightarrow> True
      | Some s \<Rightarrow> digestSessionMaxAge \<le> now - ds_createdAt s
                  \<or> maxDigestNonceCount \<le> ds_nonceCount s)"

text \<open>\<open>fmt.Sprintf("%08x", n)\<close> of a 32-bit count: eight lower-case hexadecimal digits.\<close>

definition hex_digit :: "nat \<Rightarrow> char" where
  "hex_digit d = (if d < 10 then char_of (48 + d) else char_of (87 + d))"

definition hex8 :: "32 word \<Rightarrow> string" where
  "hex8 n = map (\<lambda>i. hex_digit (unat n div 16 ^ i mod 16)) [7, 6, 5, 4, 3, 2, 1, 0]"

definition quoted_field :: "string \<Rightarrow> string \<Rightarrow> string" where
  "quoted_field name value = name @ ''='' @ [quote_char] @ value @ [quote_char]"

definition nextAuthorizationHeader ::
  "(string \<Rightarrow> string) \<Rightarrow> digest_session option \<Rightarrow> string \<Rightarrow> string \<Rightarrow> string \<Rightarrow> string
     \<Rightarrow> (go_error + string) \<times> digest_session option" where
  "nextAuthorizationHeader sha256Hex so method uri username password =
     (case so of
        None \<Rightarrow> (Inl (Plain ''digest session is nil''), None)
      | Some s \<Rightarrow>
          if maxDigestNonceCount \<le> ds_nonceCount s
          then (Inl (Plain ''digest nonce count exhausted''), Some s)
          else
            let s1 = s\<lparr>ds_nonceCount := ds_nonceCount s + 1\<rparr>;
                nc = hex8 (ds_nonceCount s1);
                ha1 = sha256Hex (username @ '':'' @ ds_realm s1 @ '':'' @ password);
                ha2 = sha256Hex (method @ '':'' @ uri);
                auth = (ds_qop s1 = ''auth'');
                response = (if auth
                  then sha256Hex (ha1 @ '':'' @ ds_nonce s1 @ '':'' @ nc @ '':'' @ ds_cnonce s1
                         @ '':'' @ ds_qop s1 @ '':'' @ ha2)
                  else sha256Hex (ha1 @ '':'' @ ds_nonce s1 @ '':'' @ ha2));
                header = ''Digest ''
                  @ quoted_field ''username'' (escapeDigest username) @ '', ''
                  @ quoted_field ''realm'' (escapeDigest (ds_realm s1)) @ '', ''
                  @ quoted_field ''nonce'' (escapeDigest (ds_nonce s1)) @ '', ''
                  @ quoted_field ''uri'' (escapeDigest uri) @ '', ''
                  @ ''algorithm=SHA-256'' @ '', ''
                  @ quoted_field ''response'' response
                  @ (if auth
                     then '', qop=auth, nc='' @ nc @ '', ''
                            @ quoted_field ''cnonce'' (escapeDigest (ds_cnonce s1))
                     else []);
                header1 = (if ds_opaque s1 \<noteq> []
                  then header @ '', '' @ quoted_field ''opaque'' (escapeDigest (ds_opaque s1))
                  else header)
            in (Inr header1, Some s1))"

definition buildDigestAuthHeader ::
  "(string \<Rightarrow> string) \<Rightarrow> (go_error + string) \<Rightarrow> int
     \<Rightarrow> string \<Rightarrow> string \<Rightarrow> string \<Rightarrow> string \<Rightarrow> string \<Rightarrow> go_error + string" where
  "buildDigestAuthHeader sha256Hex rand16 now method uri username password challenge =
     (case newDigestSession rand16 now challenge of
        Inl e \<Rightarrow> Inl e
      | Inr s \<Rightarrow> fst (nextAuthorizationHeader sha256Hex (Some s) method uri username password))"

section \<open>Sessions: lemmas\<close>

definition session_ok :: "digest_session \<Rightarrow> bool" where
  "session_ok s \<longleftrightarrow>
     ds_realm s \<noteq> [] \<and> ds_nonce s \<noteq> [] \<and> ds_algorithm s = ''SHA-256'' \<and>
     ds_qop s \<in> {''auth'', []} \<and> ds_nonceCount s \<le> maxDigestNonceCount"

lemma chooseDigestQOP_cases: "chooseDigestQOP q = ''auth'' \<or> chooseDigestQOP q = []"
  by (simp add: chooseDigestQOP_def)

lemma newDigestSession_ok:
  assumes "newDigestSession rand16 now challenge = Inr s"
  shows "session_ok s \<and> ds_nonceCount s = 0 \<and> ds_createdAt s = now"
  using assms chooseDigestQOP_cases [of "param (parseDigestChallenge challenge) ''qop''"]
  by (auto simp: newDigestSession_def Let_def session_ok_def split: if_splits sum.splits)

lemma nextAuthorizationHeader_count:
  assumes "nextAuthorizationHeader sha (Some s) m u n p = (Inr h, so)"
  shows "ds_nonceCount s < maxDigestNonceCount \<and> so = Some (s\<lparr>ds_nonceCount := ds_nonceCount s + 1\<rparr>)"
  using assms
  by (auto simp: nextAuthorizationHeader_def Let_def not_le split: if_splits)

lemma nextAuthorizationHeader_exhausted:
  "maxDigestNonceCount \<le> ds_nonceCount s \<Longrightarrow>
   nextAuthorizationHeader sha (Some s) m u n p
     = (Inl (Plain ''digest nonce count exhausted''), Some s)"
  by (simp add: nextAuthorizationHeader_def)

lemma nextAuthorizationHeader_signs:
  "ds_nonceCount s < maxDigestNonceCount \<Longrightarrow>
   \<exists>h. nextAuthorizationHeader sha (Some s) m u n p
     = (Inr h, Some (s\<lparr>ds_nonceCount := ds_nonceCount s + 1\<rparr>))"
  by (simp add: nextAuthorizationHeader_def Let_def)

lemma nonce_count_step:
  assumes "n < maxDigestNonceCount"
  shows "unat (n + 1) = unat n + 1" and "n < n + 1" and "n + 1 \<le> maxDigestNonceCount"
proof -
  have "unat n < 30000"
    using assms by (simp add: maxDigestNonceCount_def word_less_nat_alt)
  then show *: "unat (n + 1) = unat n + 1"
    by (simp add: unat_word_ariths)
  from * show "n < n + 1" by (simp add: word_less_nat_alt)
  from * \<open>unat n < 30000\<close> show "n + 1 \<le> maxDigestNonceCount"
    by (simp add: maxDigestNonceCount_def word_le_nat_alt)
qed

lemma nextAuthorizationHeader_ok:
  assumes "session_ok s" and "nextAuthorizationHeader sha (Some s) m u n p = (r, Some s')"
  shows "session_ok s'"
proof (cases "maxDigestNonceCount \<le> ds_nonceCount s")
  case True
  with assms nextAuthorizationHeader_exhausted [OF True] show ?thesis by simp
next
  case False
  then have less: "ds_nonceCount s < maxDigestNonceCount" by simp
  with assms nextAuthorizationHeader_signs [OF less, of sha m u n p]
  have "s' = s\<lparr>ds_nonceCount := ds_nonceCount s + 1\<rparr>" by auto
  with assms(1) nonce_count_step(3) [OF less] show ?thesis by (simp add: session_ok_def)
qed

lemma not_expired_below:
  "\<not> session_expired (Some s) now \<Longrightarrow> ds_nonceCount s < maxDigestNonceCount"
  by (auto simp: session_expired_def)



section \<open>Quoted fields\<close>

text \<open>
  Escaped text inside quotes cannot close them: the splitter reads it whole and is in the
  same state behind it.
\<close>

lemma escapeDigest_Nil [simp]: "escapeDigest [] = []"
  by (simp add: escapeDigest_def ReplaceByte_def)

lemma escapeDigest_Cons [simp]:
  "escapeDigest (c # cs) =
     (if c = backslash_char then [backslash_char, backslash_char]
      else if c = quote_char then [backslash_char, quote_char] else [c]) @ escapeDigest cs"
  by (simp add: escapeDigest_def ReplaceByte_def)

lemma split_escaped:
  "split_digest_loop b True False (escapeDigest v @ rest)
     = split_digest_loop (rev (escapeDigest v) @ b) True False rest"
  by (induction v arbitrary: b) simp_all

lemma split_plain:
  "backslash_char \<notin> set v \<Longrightarrow> quote_char \<notin> set v \<Longrightarrow> CHR '','' \<notin> set v \<Longrightarrow>
   split_digest_loop b q False (v @ rest) = split_digest_loop (rev v @ b) q False rest"
  by (induction v arbitrary: b) auto

definition plain_name :: "string \<Rightarrow> bool" where
  "plain_name name \<longleftrightarrow>
     backslash_char \<notin> set name \<and> quote_char \<notin> set name \<and> CHR '','' \<notin> set name"

lemma split_field:
  assumes "plain_name name"
  shows "split_digest_loop b False False (quoted_field name (escapeDigest v) @ rest)
     = split_digest_loop (rev (quoted_field name (escapeDigest v)) @ b) False False rest"
proof -
  from assms have *: "backslash_char \<notin> set (name @ ''='')" "quote_char \<notin> set (name @ ''='')"
      "CHR '','' \<notin> set (name @ ''='')"
    by (auto simp: plain_name_def)
  have "split_digest_loop b False False (quoted_field name (escapeDigest v) @ rest)
      = split_digest_loop b False False
          ((name @ ''='') @ quote_char # (escapeDigest v @ (quote_char # rest)))"
    by (simp add: quoted_field_def)
  also have "\<dots> = split_digest_loop (rev (name @ ''='') @ b) False False
          (quote_char # (escapeDigest v @ (quote_char # rest)))"
    by (rule split_plain [OF *])
  also have "\<dots> = split_digest_loop (quote_char # rev (name @ ''='') @ b) True False
          (escapeDigest v @ (quote_char # rest))"
    by simp
  also have "\<dots> = split_digest_loop (rev (escapeDigest v) @ quote_char # rev (name @ ''='') @ b)
          True False (quote_char # rest)"
    by (rule split_escaped)
  finally show ?thesis by (simp add: quoted_field_def)
qed

section \<open>Runes\<close>

text \<open>An ASCII byte ends every rune before it, so a string can be read in parts around it.\<close>

lemma fits_length: "fits ps s \<Longrightarrow> length ps \<le> length s"
  by (induction ps s rule: fits.induct) auto

lemma rune_width_length: "rune_width s \<le> length s"
  by (auto simp: rune_width_def find_Some_iff intro: fits_length split: option.split)

lemma fits_boundary: "\<forall>p \<in> set ps. \<not> p c \<Longrightarrow> fits ps (u @ c # rest) = fits ps u"
  by (induction ps u rule: fits.induct) auto

lemma find_cong_set: "(\<And>x. x \<in> set xs \<Longrightarrow> P x = Q x) \<Longrightarrow> List.find P xs = List.find Q xs"
  by (induction xs) auto

lemma rune_table_tails: "ascii c \<Longrightarrow> ps \<in> set rune_table \<Longrightarrow> p \<in> set (tl ps) \<Longrightarrow> \<not> p c"
  by (auto simp: rune_table_def ascii_def byte_in_def)

lemma rune_width_boundary:
  assumes "ascii c"
  shows "rune_width (x # u @ c # rest) = rune_width (x # u)"
proof -
  have "fits ps (x # u @ c # rest) = fits ps (x # u)" if "ps \<in> set rune_table" for ps
    using fits_boundary [of "tl ps" c u rest] rune_table_tails [OF assms that] by (cases ps) auto
  then have "List.find (\<lambda>ps. fits ps (x # u @ c # rest)) rune_table = List.find (\<lambda>ps. fits ps (x # u)) rune_table"
    by (intro find_cong_set)
  then show ?thesis by (simp add: rune_width_def)
qed

lemma rune_width_ascii: "ascii c \<Longrightarrow> rune_width (c # cs) = Suc 0"
  by (simp add: rune_width_def rune_table_def ascii_def)

lemma rune_bytes_boundary:
  assumes "ascii c" and "k \<le> length u"
  shows "rune_bytes k (u @ c # rest) = rune_bytes k u @ c # rune_bytes 0 rest"
  using assms(2)
proof (induction u arbitrary: k)
  case Nil
  then show ?case by (simp add: rune_width_ascii [OF assms(1)])
next
  case (Cons x u)
  show ?case
  proof (cases k)
    case 0
    have "rune_width (x # u) \<le> Suc (length u)" using rune_width_length [of "x # u"] by simp
    with 0 Cons.IH rune_width_boundary [OF assms(1)] show ?thesis by (simp split: nat.split)
  next
    case (Suc j)
    with Cons show ?thesis by simp
  qed
qed

lemma as_runes_boundary: "ascii c \<Longrightarrow> as_runes (u @ c # rest) = as_runes u @ c # as_runes rest"
  by (simp add: as_runes_def rune_bytes_boundary)

lemma as_runes_Nil [simp]: "as_runes [] = []"
  by (simp add: as_runes_def)

lemma as_runes_ascii: "list_all ascii u \<Longrightarrow> as_runes (u @ rest) = u @ as_runes rest"
  by (induction u) (simp_all add: as_runes_def rune_width_ascii)

lemma set_rune_bytes: "set (rune_bytes k s) \<subseteq> set s \<union> set RuneError"
  by (induction k s rule: rune_bytes.induct) (auto split: nat.splits)

text \<open>Text in UTF-8 comes back as it is.\<close>

fun well_encoded :: "nat \<Rightarrow> string \<Rightarrow> bool" where
  "well_encoded k [] = True"
| "well_encoded (Suc k) (c # cs) = well_encoded k cs"
| "well_encoded 0 (c # cs) = (case rune_width (c # cs) of 0 \<Rightarrow> False | Suc k \<Rightarrow> well_encoded k cs)"

definition valid_utf8 :: "string \<Rightarrow> bool" where
  "valid_utf8 s \<longleftrightarrow> well_encoded 0 s"

lemma rune_bytes_valid: "well_encoded k s \<Longrightarrow> rune_bytes k s = s"
  by (induction k s rule: well_encoded.induct) (auto split: nat.splits)

lemma as_runes_valid: "valid_utf8 s \<Longrightarrow> as_runes s = s"
  by (simp add: as_runes_def valid_utf8_def rune_bytes_valid)

section \<open>Reading a challenge back\<close>

text \<open>
  The challenge a Shelly sends, for a realm and a nonce free of the bytes the parser treats
  specially inside quotes.
\<close>

definition shelly_challenge :: "string \<Rightarrow> string \<Rightarrow> string" where
  "shelly_challenge realm nonce =
     ''Digest '' @ quoted_field ''qop'' ''auth'' @ '', '' @ quoted_field ''realm'' realm @ '', ''
       @ quoted_field ''nonce'' nonce @ '', algorithm=SHA-256''"

definition plain_value :: "string \<Rightarrow> bool" where
  "plain_value v \<longleftrightarrow> backslash_char \<notin> set v \<and> quote_char \<notin> set v"

lemma escapeDigest_plain: "plain_value v \<Longrightarrow> escapeDigest v = v"
  by (induction v) (auto simp: plain_value_def)

lemma TrimChar_quoted:
  "quote_char \<notin> set v \<Longrightarrow> TrimChar ([quote_char] @ v @ [quote_char]) quote_char = v"
proof -
  assume v: "quote_char \<notin> set v"
  have *: "dropWhile (\<lambda>x. x = quote_char) xs = xs" if "quote_char \<notin> set xs" for xs
    using that by (cases xs) auto
  show ?thesis
  proof (cases "v = []")
    case False
    then have "dropWhile (\<lambda>x. x = quote_char) (v @ [quote_char]) = v @ [quote_char]"
      using v by (cases v) auto
    moreover have "dropWhile (\<lambda>x. x = quote_char) (rev v) = rev v" using v by (intro *) simp
    ultimately show ?thesis by (simp add: TrimChar_def)
  qed (simp add: TrimChar_def)
qed

lemma trimmed_quoted_field:
  "name \<noteq> [] \<Longrightarrow> hd name \<notin> hd ` set space_runes \<Longrightarrow> trimmed (quoted_field name v)"
  by (rule trimmedI) (auto simp: quoted_field_def space_runes_def)

lemma digest_part_field:
  assumes "CHR ''='' \<notin> set name" and "trimmed name" and "quote_char \<notin> set v"
  shows "digest_part (quoted_field name v) m = m(ToLower name \<mapsto> v)"
proof -
  have "Cut (quoted_field name v) (CHR ''='') = Some (name, [quote_char] @ v @ [quote_char])"
    using assms(1) by (simp add: Cut_Some_iff quoted_field_def)
  moreover have "trimmed ([quote_char] @ v @ [quote_char])"
    by (rule trimmedI) (auto simp: space_runes_def)
  ultimately show ?thesis
    using assms by (simp add: digest_part_def TrimSpace_trimmed TrimChar_quoted [simplified])
qed

lemma split_field_comma:
  assumes "plain_name name" and "name \<noteq> []" and "hd name \<notin> hd ` set space_runes"
  shows "split_digest_loop [] False False (quoted_field name (escapeDigest v) @ CHR '','' # rest)
     = quoted_field name (escapeDigest v) # split_digest_loop [] False False rest"
    and "split_digest_loop [CHR '' ''] False False
        (quoted_field name (escapeDigest v) @ CHR '','' # rest)
     = quoted_field name (escapeDigest v) # split_digest_loop [] False False rest"
  using trimmed_quoted_field [OF assms(2,3)]
  by (simp_all add: split_field [OF assms(1)] TrimSpace_trimmed)

lemma plain_as_runes: "plain_value v \<Longrightarrow> plain_value (as_runes v)"
  using set_rune_bytes [of 0 v] by (auto simp: plain_value_def as_runes_def RuneError_def)

lemma as_runes_empty_iff: "as_runes v = [] \<longleftrightarrow> v = []"
  by (cases v) (simp_all add: as_runes_def RuneError_def split: nat.split)

text \<open>The parts of a challenge, read as runes one by one.\<close>

lemma as_runes_challenge:
  "as_runes (quoted_field ''qop'' ''auth'' @ '', '' @ quoted_field ''realm'' realm @ '', ''
       @ quoted_field ''nonce'' nonce @ '', algorithm=SHA-256'')
     = quoted_field ''qop'' ''auth'' @ '', '' @ quoted_field ''realm'' (as_runes realm) @ '', ''
       @ quoted_field ''nonce'' (as_runes nonce) @ '', algorithm=SHA-256''"
proof -
  have quote: "ascii quote_char" by (simp add: ascii_def byte_in_def)
  have parts: "list_all ascii (quoted_field ''qop'' ''auth'' @ '', realm='' @ [quote_char])"
    "list_all ascii ('', nonce='' @ [quote_char])" "list_all ascii '', algorithm=SHA-256''"
    by (simp_all add: quoted_field_def ascii_def byte_in_def)
  have "as_runes ((quoted_field ''qop'' ''auth'' @ '', realm='' @ [quote_char])
      @ realm @ quote_char # ('', nonce='' @ [quote_char])
      @ nonce @ quote_char # '', algorithm=SHA-256'' @ [])
    = (quoted_field ''qop'' ''auth'' @ '', realm='' @ [quote_char])
      @ as_runes realm @ quote_char # ('', nonce='' @ [quote_char])
      @ as_runes nonce @ quote_char # '', algorithm=SHA-256''"
    unfolding as_runes_ascii [OF parts(1)] as_runes_boundary [OF quote] as_runes_ascii [OF parts(2)]
      as_runes_ascii [OF parts(3)] by simp
  then show ?thesis by (simp add: quoted_field_def)
qed

lemma split_challenge:
  assumes "plain_value realm" and "plain_value nonce"
  shows "split_digest_loop [] False False
      (quoted_field ''qop'' ''auth'' @ '', '' @ quoted_field ''realm'' realm @ '', ''
       @ quoted_field ''nonce'' nonce @ '', algorithm=SHA-256'')
     = [quoted_field ''qop'' ''auth'', quoted_field ''realm'' realm,
        quoted_field ''nonce'' nonce, ''algorithm=SHA-256'']"
proof -
  have names: "plain_name ''qop''" "plain_name ''realm''" "plain_name ''nonce''"
    by (simp_all add: plain_name_def)
  have alg: "trimmed ''algorithm=SHA-256''"
    by (rule trimmedI) (auto simp: space_runes_def)
  have auth: "plain_value ''auth''" by (simp add: plain_value_def)
  have final: "split_digest_loop [CHR '' ''] False False ''algorithm=SHA-256''
      = [''algorithm=SHA-256'']"
    by (simp add: TrimSpace_trimmed [OF alg])
  have start: "split_digest_loop [] False False (CHR '' '' # r)
      = split_digest_loop [CHR '' ''] False False r" for r
    by simp
  show ?thesis
    using split_field_comma [of "''qop''" "''auth''"] split_field_comma [of "''realm''" realm]
      split_field_comma [of "''nonce''" nonce] names
    by (simp add: start escapeDigest_plain [OF assms(1)]
        escapeDigest_plain [OF assms(2)] escapeDigest_plain [OF auth] space_runes_def
        final del: split_digest_loop.simps(2))
qed

lemma parse_shelly_challenge:
  assumes "plain_value realm" and "plain_value nonce"
  shows "parseDigestChallenge (shelly_challenge realm nonce)
     = [''qop'' \<mapsto> ''auth'', ''realm'' \<mapsto> as_runes realm, ''nonce'' \<mapsto> as_runes nonce,
        ''algorithm'' \<mapsto> ''SHA-256'']"
proof -
  let ?body = "quoted_field ''qop'' ''auth'' @ '', '' @ quoted_field ''realm'' realm @ '', ''
       @ quoted_field ''nonce'' nonce @ '', algorithm=SHA-256''"
  have t1: "trimmed (shelly_challenge realm nonce)"
    by (rule trimmedI) (auto simp: shelly_challenge_def space_runes_def)
  have t2: "trimmed ?body"
    by (rule trimmedI) (auto simp: quoted_field_def space_runes_def)
  have low: "prefix ''digest '' (ToLower (shelly_challenge realm nonce))"
    by (simp add: shelly_challenge_def ToLower_def ascii_eval)
  have dr: "drop 7 (shelly_challenge realm nonce) = ?body"
    by (simp add: shelly_challenge_def)
  have alg: "digest_part ''algorithm=SHA-256'' m = m(''algorithm'' \<mapsto> ''SHA-256'')" for m
  proof -
    have "trimmed ''algorithm''" "trimmed ''SHA-256''"
      by (rule trimmedI; auto simp: space_runes_def)+
    then show ?thesis
      by (simp add: digest_part_def TrimSpace_trimmed ToLower_def ascii_lower_def TrimChar_def)
  qed
  have names: "trimmed ''qop''" "trimmed ''realm''" "trimmed ''nonce''"
    by (rule trimmedI; auto simp: space_runes_def)+
  have "parseDigestChallenge (shelly_challenge realm nonce)
      = fold digest_part (splitDigestHeader ?body) Map.empty"
    by (simp only: parseDigestChallenge_def Let_def TrimSpace_trimmed [OF t1] low if_True dr
        TrimSpace_trimmed [OF t2])
  also have "\<dots> = [''qop'' \<mapsto> ''auth'', ''realm'' \<mapsto> as_runes realm, ''nonce'' \<mapsto> as_runes nonce,
      ''algorithm'' \<mapsto> ''SHA-256'']"
    unfolding splitDigestHeader_def as_runes_challenge split_challenge [OF assms [THEN plain_as_runes]]
    using assms [THEN plain_as_runes] names
    by (simp add: digest_part_field alg plain_value_def ToLower_def ascii_lower_def)
  finally show ?thesis .
qed

lemma newDigestSession_shelly:
  assumes "plain_value realm" and "plain_value nonce" and "realm \<noteq> []" and "nonce \<noteq> []"
  shows "newDigestSession (Inr cnonce) now (shelly_challenge realm nonce)
     = Inr \<lparr>ds_realm = as_runes realm, ds_nonce = as_runes nonce, ds_algorithm = ''SHA-256'', ds_qop = ''auth'',
          ds_opaque = [], ds_cnonce = cnonce, ds_nonceCount = 0, ds_createdAt = now\<rparr>"
proof -
  have "trimmed ''auth''" by (rule trimmedI) (auto simp: space_runes_def)
  then have "chooseDigestQOP ''auth'' = ''auth''"
    by (simp add: chooseDigestQOP_def TrimSpace_trimmed)
  with assms show ?thesis
    by (simp add: newDigestSession_def Let_def parse_shelly_challenge param_def as_runes_empty_iff)
qed

section \<open>Reading a signed header\<close>


definition expected_response ::
  "(string \<Rightarrow> string) \<Rightarrow> digest_session \<Rightarrow> string \<Rightarrow> string \<Rightarrow> string \<Rightarrow> string \<Rightarrow> string \<Rightarrow> string" where
  "expected_response sha s method uri username password nc =
     sha (sha (username @ '':'' @ ds_realm s @ '':'' @ password) @ '':'' @ ds_nonce s @ '':'' @ nc @ '':''
       @ ds_cnonce s @ '':auth:'' @ sha (method @ '':'' @ uri))"


















section \<open>Signing a run of requests\<close>










lemma expected_response_count [simp]:
  "expected_response sha (s\<lparr>ds_nonceCount := c\<rparr>) = expected_response sha s"
  by (simp add: expected_response_def fun_eq_iff)


section \<open>Properties\<close>




text \<open>
  C25. A device's challenge is understood: from the challenge a Shelly sends, for any realm and
  nonce without quotes and backslashes, the client negotiates a session with the runes of that
  realm and nonce, SHA-256, quality of protection auth, its own client nonce, and count zero; text
  in UTF-8 is kept byte for byte, and only a byte that belongs to no rune becomes U+FFFD.
\<close>

theorem challenge_is_understood:
  assumes "plain_value realm" and "plain_value nonce" and "realm \<noteq> []" and "nonce \<noteq> []"
  shows "newDigestSession (Inr cnonce) now (shelly_challenge realm nonce)
     = Inr \<lparr>ds_realm = as_runes realm, ds_nonce = as_runes nonce, ds_algorithm = ''SHA-256'', ds_qop = ''auth'',
          ds_opaque = [], ds_cnonce = cnonce, ds_nonceCount = 0, ds_createdAt = now\<rparr>
    \<and> (valid_utf8 realm \<longrightarrow> as_runes realm = realm) \<and> (valid_utf8 nonce \<longrightarrow> as_runes nonce = nonce)"
  using newDigestSession_shelly [OF assms] as_runes_valid by blast

theorem challenge_is_understood_witness:
  "newDigestSession (Inr ''c0'') 5 (shelly_challenge ''shellypro1-a0'' ''68'')
     = Inr \<lparr>ds_realm = ''shellypro1-a0'', ds_nonce = ''68'', ds_algorithm = ''SHA-256'',
          ds_qop = ''auth'', ds_opaque = [], ds_cnonce = ''c0'', ds_nonceCount = 0, ds_createdAt = 5\<rparr>"
proof -
  have "valid_utf8 ''shellypro1-a0''" "valid_utf8 ''68''" by code_simp+
  moreover have "plain_value ''shellypro1-a0''" "plain_value ''68''" by (simp_all add: plain_value_def)
  ultimately show ?thesis
    using challenge_is_understood [of "''shellypro1-a0''" "''68''" "''c0''" 5] by simp
qed

end
