(* ===== verification/Config_Model.thy ===== *)
theory Config_Model
  imports Gateway_Prelude
begin

text \<open>
  The configuration of the gateway (internal/config/config.go): its data, the defaults, the
  validation of a complete configuration and of its enabled tools only, and the normalisation
  of a tool's protocol. A Go pointer to a string is a \<open>string option\<close>, a Go \<open>int\<close> an \<open>int\<close>
  (nothing here computes with it), a returned \<open>error\<close> an \<open>config_error option\<close> whose
  constructors carry the values the message is formatted from.

  \<open>config_ok\<close> and \<open>tool_ok\<close> say what a valid configuration is without the order of the
  checks; the validators are proved equivalent to them.
\<close>

section \<open>Data\<close>

definition MinToolPort :: int where
  "MinToolPort = 8081"

definition MaxToolPort :: int where
  "MaxToolPort = 8981"

record tls_config =
  server_ca_file :: string
  client_cert_file :: string
  client_key_file :: string

record defaults =
  timeout_ms :: int
  safe_state_on_error :: string
  shelly_tls :: tls_config

record tool =
  tool_interlock_name :: string
  tool_ip :: string
  tool_protocol :: string
  tool_port :: int
  tool_switch_id :: int
  tool_username :: "string option"
  tool_password :: "string option"
  tool_enabled :: bool

record config =
  cfg_bind :: string
  cfg_defaults :: defaults
  cfg_tools :: "tool list"

datatype config_error =
    MissingInterlockName
  | PortOutOfRange string
  | MissingIP
  | IPHasScheme string
  | InvalidSwitchID int
  | InvalidProtocol string string
  | DuplicatePort int string string
  | DuplicateEnabledPort int string string
  | ServerCARequired
  | ClientCertRequired
  | ClientKeyRequired

section \<open>Operations\<close>

definition cloneString :: "string option \<Rightarrow> string option" where
  "cloneString value = (case value of None \<Rightarrow> None | Some s \<Rightarrow> Some s)"

definition Clone :: "config \<Rightarrow> config" where
  "Clone cfg = cfg\<lparr>cfg_tools :=
     map (\<lambda>t. t\<lparr>tool_username := cloneString (tool_username t),
                tool_password := cloneString (tool_password t)\<rparr>) (cfg_tools cfg)\<rparr>"

definition ApplyDefaults :: "config \<Rightarrow> config" where
  "ApplyDefaults cfg =
     (let cfg1 = (if cfg_bind cfg = [] then cfg\<lparr>cfg_bind := ''0.0.0.0''\<rparr> else cfg);
          d1 = cfg_defaults cfg1;
          d2 = (if timeout_ms d1 \<le> 0 then d1\<lparr>timeout_ms := 3000\<rparr> else d1);
          d3 = (if safe_state_on_error d2 = [] then d2\<lparr>safe_state_on_error := ''off''\<rparr> else d2)
      in cfg1\<lparr>cfg_defaults := d3\<rparr>)"

definition SafeOutput :: "config \<Rightarrow> bool" where
  "SafeOutput cfg = EqualFold (safe_state_on_error (cfg_defaults cfg)) ''on''"

definition ToolProtocol :: "tool \<Rightarrow> string" where
  "ToolProtocol t =
     (let protocol = ToLower (TrimSpace (tool_protocol t))
      in if protocol = [] then ''http'' else protocol)"

definition validateToolProtocol :: "tool \<Rightarrow> config_error option" where
  "validateToolProtocol t =
     (if ToolProtocol t = ''http'' \<or> ToolProtocol t = ''https'' then None
      else Some (InvalidProtocol (tool_interlock_name t) (tool_protocol t)))"

definition ValidateTool :: "tool \<Rightarrow> config_error option" where
  "ValidateTool t =
     (if TrimSpace (tool_interlock_name t) = [] then Some MissingInterlockName
      else if tool_port t < MinToolPort \<or> MaxToolPort < tool_port t
        then Some (PortOutOfRange (tool_interlock_name t))
      else if TrimSpace (tool_ip t) = [] then Some MissingIP
      else if Contains (tool_ip t) ''://'' then Some (IPHasScheme (tool_interlock_name t))
      else if tool_switch_id t < 0 then Some (InvalidSwitchID (tool_switch_id t))
      else validateToolProtocol t)"

text \<open>The loops of the two validators, with the ports seen so far and the tool that has each.\<close>

fun validate_tools :: "(int \<rightharpoonup> string) \<Rightarrow> tool list \<Rightarrow> config_error option" where
  "validate_tools seenPorts [] = None"
| "validate_tools seenPorts (t # ts) =
     (case ValidateTool t of
        Some e \<Rightarrow> Some e
      | None \<Rightarrow>
          (case seenPorts (tool_port t) of
             Some existing \<Rightarrow> Some (DuplicatePort (tool_port t) existing (tool_interlock_name t))
           | None \<Rightarrow> validate_tools (seenPorts(tool_port t \<mapsto> tool_interlock_name t)) ts))"

fun validate_enabled_tools :: "(int \<rightharpoonup> string) \<Rightarrow> tool list \<Rightarrow> config_error option" where
  "validate_enabled_tools seenPorts [] = None"
| "validate_enabled_tools seenPorts (t # ts) =
     (if \<not> tool_enabled t then validate_enabled_tools seenPorts ts
      else
        (case ValidateTool t of
           Some e \<Rightarrow> Some e
         | None \<Rightarrow>
             (case seenPorts (tool_port t) of
                Some existing \<Rightarrow>
                  Some (DuplicateEnabledPort (tool_port t) existing (tool_interlock_name t))
              | None \<Rightarrow>
                  validate_enabled_tools (seenPorts(tool_port t \<mapsto> tool_interlock_name t)) ts)))"

fun https_required :: "bool \<Rightarrow> tool list \<Rightarrow> bool" where
  "https_required enabledOnly [] = False"
| "https_required enabledOnly (t # ts) =
     (if enabledOnly \<and> \<not> tool_enabled t then https_required enabledOnly ts
      else if ToolProtocol t = ''https'' then True
      else https_required enabledOnly ts)"

definition validateTLSConfig :: "config \<Rightarrow> bool \<Rightarrow> config_error option" where
  "validateTLSConfig cfg enabledOnly =
     (if \<not> https_required enabledOnly (cfg_tools cfg) then None
      else
        let tls = shelly_tls (cfg_defaults cfg)
        in if TrimSpace (server_ca_file tls) = [] then Some ServerCARequired
           else if TrimSpace (client_cert_file tls) = [] then Some ClientCertRequired
           else if TrimSpace (client_key_file tls) = [] then Some ClientKeyRequired
           else None)"

definition Validate :: "config \<Rightarrow> config_error option" where
  "Validate cfg0 =
     (let cfg = ApplyDefaults cfg0
      in case validate_tools Map.empty (cfg_tools cfg) of
           Some e \<Rightarrow> Some e
         | None \<Rightarrow> validateTLSConfig cfg False)"

definition ValidateEnabledTools :: "config \<Rightarrow> config_error option" where
  "ValidateEnabledTools cfg0 =
     (let cfg = ApplyDefaults cfg0
      in case validate_enabled_tools Map.empty (cfg_tools cfg) of
           Some e \<Rightarrow> Some e
         | None \<Rightarrow> validateTLSConfig cfg True)"

section \<open>What a valid configuration is\<close>

definition tool_ok :: "tool \<Rightarrow> bool" where
  "tool_ok t \<longleftrightarrow>
     TrimSpace (tool_interlock_name t) \<noteq> [] \<and>
     8081 \<le> tool_port t \<and> tool_port t \<le> 8981 \<and>
     TrimSpace (tool_ip t) \<noteq> [] \<and> \<not> Contains (tool_ip t) ''://'' \<and>
     0 \<le> tool_switch_id t \<and>
     ToolProtocol t \<in> {''http'', ''https''}"

definition tls_paths_ok :: "tls_config \<Rightarrow> bool" where
  "tls_paths_ok tls \<longleftrightarrow>
     TrimSpace (server_ca_file tls) \<noteq> [] \<and> TrimSpace (client_cert_file tls) \<noteq> [] \<and>
     TrimSpace (client_key_file tls) \<noteq> []"

definition tools_config_ok :: "tls_config \<Rightarrow> tool list \<Rightarrow> bool" where
  "tools_config_ok tls ts \<longleftrightarrow>
     list_all tool_ok ts \<and> distinct (map tool_port ts) \<and>
     (list_ex (\<lambda>t. ToolProtocol t = ''https'') ts \<longrightarrow> tls_paths_ok tls)"

definition config_ok :: "config \<Rightarrow> bool" where
  "config_ok cfg \<longleftrightarrow> tools_config_ok (shelly_tls (cfg_defaults cfg)) (cfg_tools cfg)"

section \<open>Lemmas\<close>

lemma Clone_id [simp]: "Clone cfg = cfg"
  by (cases cfg)
    (auto simp: Clone_def cloneString_def map_idI split: option.splits)

lemma ApplyDefaults_tools [simp]: "cfg_tools (ApplyDefaults cfg) = cfg_tools cfg"
  by (simp add: ApplyDefaults_def Let_def)

lemma ApplyDefaults_tls [simp]:
  "shelly_tls (cfg_defaults (ApplyDefaults cfg)) = shelly_tls (cfg_defaults cfg)"
  by (simp add: ApplyDefaults_def Let_def)

lemma ApplyDefaults_set [simp]:
  "cfg_bind (ApplyDefaults cfg) \<noteq> []"
  "0 < timeout_ms (cfg_defaults (ApplyDefaults cfg))"
  "safe_state_on_error (cfg_defaults (ApplyDefaults cfg)) \<noteq> []"
  by (simp_all add: ApplyDefaults_def Let_def)

lemma ApplyDefaults_fixed:
  "cfg_bind cfg \<noteq> [] \<Longrightarrow> 0 < timeout_ms (cfg_defaults cfg) \<Longrightarrow>
   safe_state_on_error (cfg_defaults cfg) \<noteq> [] \<Longrightarrow> ApplyDefaults cfg = cfg"
  by (simp add: ApplyDefaults_def Let_def)

lemma ApplyDefaults_idem [simp]: "ApplyDefaults (ApplyDefaults cfg) = ApplyDefaults cfg"
  by (rule ApplyDefaults_fixed) simp_all

lemma SafeOutput_ApplyDefaults [simp]: "SafeOutput (ApplyDefaults cfg) = SafeOutput cfg"
  by (auto simp: SafeOutput_def ApplyDefaults_def Let_def EqualFold_def ToLower_def
      ascii_lower_def)

lemma ToolProtocol_nonempty [simp]: "ToolProtocol t \<noteq> []"
  by (simp add: ToolProtocol_def Let_def)

lemma validateToolProtocol_None_iff:
  "validateToolProtocol t = None \<longleftrightarrow> ToolProtocol t \<in> {''http'', ''https''}"
  by (auto simp: validateToolProtocol_def)

lemma ValidateTool_None_iff: "ValidateTool t = None \<longleftrightarrow> tool_ok t"
  by (auto simp: ValidateTool_def tool_ok_def MinToolPort_def MaxToolPort_def
      validateToolProtocol_None_iff)

lemma validate_tools_None_iff:
  "validate_tools seen ts = None \<longleftrightarrow>
     list_all tool_ok ts \<and> distinct (map tool_port ts) \<and>
     tool_port ` set ts \<inter> dom seen = {}"
  by (induction ts arbitrary: seen) (auto simp: ValidateTool_None_iff)

lemma validate_enabled_tools_None_iff:
  "validate_enabled_tools seen ts = None \<longleftrightarrow>
     validate_tools seen (filter tool_enabled ts) = None"
  by (induction ts arbitrary: seen) (auto split: option.splits)

lemma https_required_iff:
  "https_required False ts = list_ex (\<lambda>t. ToolProtocol t = ''https'') ts"
  "https_required True ts = list_ex (\<lambda>t. ToolProtocol t = ''https'') (filter tool_enabled ts)"
  by (induction ts) auto

lemma validateTLSConfig_None_iff:
  "validateTLSConfig cfg b = None \<longleftrightarrow>
     (https_required b (cfg_tools cfg) \<longrightarrow> tls_paths_ok (shelly_tls (cfg_defaults cfg)))"
  by (simp add: validateTLSConfig_def tls_paths_ok_def Let_def)

lemma Validate_None_iff: "Validate cfg = None \<longleftrightarrow> config_ok cfg"
  by (auto simp: Validate_def Let_def config_ok_def tools_config_ok_def
      validate_tools_None_iff validateTLSConfig_None_iff https_required_iff)

lemma ValidateEnabledTools_None_iff:
  "ValidateEnabledTools cfg = None \<longleftrightarrow>
     config_ok (cfg\<lparr>cfg_tools := filter tool_enabled (cfg_tools cfg)\<rparr>)"
  by (auto simp: ValidateEnabledTools_def Let_def config_ok_def tools_config_ok_def
      validate_enabled_tools_None_iff validate_tools_None_iff validateTLSConfig_None_iff
      https_required_iff)

lemma tools_config_ok_filter: "tools_config_ok tls ts \<Longrightarrow> tools_config_ok tls (filter P ts)"
  by (auto simp: tools_config_ok_def list_all_iff list_ex_iff distinct_map_filter)

lemma config_ok_enabled:
  "config_ok cfg \<Longrightarrow> config_ok (cfg\<lparr>cfg_tools := filter tool_enabled (cfg_tools cfg)\<rparr>)"
  by (simp add: config_ok_def tools_config_ok_filter)

text \<open>
  The error of the whole validation: which tools a duplicate-port error names, and that the
  tools before the second of them are in order.
\<close>

lemma ValidateTool_not_duplicate [simp]: "ValidateTool t \<noteq> Some (DuplicatePort p a b)"
  by (simp add: ValidateTool_def validateToolProtocol_def)

lemma validate_tools_duplicate:
  "validate_tools seen ts = Some (DuplicatePort p a b) \<Longrightarrow>
     \<exists>us t vs. ts = us @ t # vs \<and> tool_port t = p \<and> tool_interlock_name t = b \<and>
       validate_tools seen us = None \<and> tool_ok t \<and>
       (seen p = Some a \<or> (\<exists>u. u \<in> set us \<and> tool_port u = p \<and> tool_interlock_name u = a))"
proof (induction ts arbitrary: seen)
  case Nil
  then show ?case by simp
next
  case (Cons t ts)
  have ok: "ValidateTool t = None" "tool_ok t"
    using Cons.prems by (auto simp: first_error_Some_iff ValidateTool_None_iff)
  show ?case
  proof (cases "seen (tool_port t)")
    case None
    let ?seen = "seen(tool_port t \<mapsto> tool_interlock_name t)"
    from Cons.prems ok None have "validate_tools ?seen ts = Some (DuplicatePort p a b)"
      by simp
    from Cons.IH [OF this] obtain us u vs where
      *: "ts = us @ u # vs" "tool_port u = p" "tool_interlock_name u = b" "tool_ok u"
        "validate_tools ?seen us = None"
        "?seen p = Some a \<or> (\<exists>u. u \<in> set us \<and> tool_port u = p \<and> tool_interlock_name u = a)"
      by blast
    have "validate_tools seen (t # us) = None" using * ok None by simp
    moreover have "seen p = Some a \<or>
        (\<exists>u. u \<in> set (t # us) \<and> tool_port u = p \<and> tool_interlock_name u = a)"
      using *(6) by (auto split: if_splits)
    moreover have "t # ts = (t # us) @ u # vs" using * by simp
    ultimately show ?thesis using *(2-4) by blast
  next
    case (Some existing)
    with Cons.prems ok have "tool_port t = p" "existing = a" "tool_interlock_name t = b"
      by simp_all
    with Some ok have "t # ts = [] @ t # ts \<and> tool_port t = p \<and> tool_interlock_name t = b \<and>
       validate_tools seen [] = None \<and> tool_ok t \<and> seen p = Some a"
      by simp
    then show ?thesis by blast
  qed
qed

lemma Validate_duplicate:
  assumes "Validate cfg = Some (DuplicatePort p a b)"
  shows "\<exists>us t vs. cfg_tools cfg = us @ t # vs \<and> tool_port t = p \<and>
      tool_interlock_name t = b \<and> tool_ok t \<and> list_all tool_ok us \<and>
      distinct (map tool_port us) \<and>
      (\<exists>u. u \<in> set us \<and> tool_port u = p \<and> tool_interlock_name u = a)"
proof -
  have "validateTLSConfig c x \<noteq> Some (DuplicatePort p a b)" for c x
    by (simp add: validateTLSConfig_def Let_def)
  with assms have "validate_tools Map.empty (cfg_tools cfg) = Some (DuplicatePort p a b)"
    by (auto simp: Validate_def Let_def first_error_Some_iff)
  from validate_tools_duplicate [OF this] show ?thesis
    by (auto simp: validate_tools_None_iff)
qed

end
