(* ===== verification/Shelly_Recovery.thy ===== *)
theory Shelly_Recovery
  imports Config_Model
begin

text \<open>
  Controlled recovery of a device (internal/shelly/client.go, scheduleReboot and the goroutine
  it starts). The table maps a device (its trimmed address) to whether a reboot is in flight
  and when the last one was attempted; a missing entry is Go's zero value, and the zero time
  is \<open>None\<close>. Instants and durations are nanoseconds. A call that passes the two guards
  starts the goroutine; \<open>reboot_finished\<close> is what the goroutine does to the table after its
  request, whether it succeeded or not.
\<close>

section \<open>State and operations\<close>

record recovery_state =
  inFlight :: bool
  lastAttempt :: "int option"

type_synonym recovery_table = "string \<rightharpoonup> recovery_state"

definition defaultRebootCooldown :: int where
  "defaultRebootCooldown = 5 * 60 * 1000000000"

definition recovery_of :: "recovery_table \<Rightarrow> string \<Rightarrow> recovery_state" where
  "recovery_of m k =
     (case m k of None \<Rightarrow> \<lparr>inFlight = False, lastAttempt = None\<rparr> | Some st \<Rightarrow> st)"

datatype reboot_decision =
    NoDevice
  | SuppressedInFlight
  | SuppressedCooldown int
  | RebootScheduled string

definition scheduleReboot ::
  "int \<Rightarrow> string \<Rightarrow> int \<Rightarrow> recovery_table \<Rightarrow> reboot_decision \<times> recovery_table" where
  "scheduleReboot rebootCooldown ip now m =
     (let deviceKey = TrimSpace ip
      in if deviceKey = [] then (NoDevice, m)
         else
           let state = recovery_of m deviceKey
           in if inFlight state then (SuppressedInFlight, m)
              else
                case lastAttempt state of
                  Some previous \<Rightarrow>
                    if now - previous < rebootCooldown
                    then (SuppressedCooldown (rebootCooldown - (now - previous)), m)
                    else (RebootScheduled deviceKey,
                          m(deviceKey \<mapsto> state\<lparr>inFlight := True, lastAttempt := Some now\<rparr>))
                | None \<Rightarrow>
                    (RebootScheduled deviceKey,
                     m(deviceKey \<mapsto> state\<lparr>inFlight := True, lastAttempt := Some now\<rparr>)))"

definition reboot_finished :: "string \<Rightarrow> recovery_table \<Rightarrow> recovery_table" where
  "reboot_finished deviceKey m =
     m(deviceKey \<mapsto> (recovery_of m deviceKey)\<lparr>inFlight := False\<rparr>)"

section \<open>Executions\<close>

text \<open>
  An execution: calls for any device at any time, and goroutines that finish. A goroutine can
  only finish for a device whose reboot is in flight. \<open>recovery_run\<close> collects the reboots
  started, in order, each with its device and time.
\<close>

datatype recovery_event = Requested string int | Finished string

fun recovery_run ::
  "int \<Rightarrow> recovery_event list \<Rightarrow> recovery_table \<Rightarrow> (string \<times> int) list \<times> recovery_table" where
  "recovery_run cd [] m = ([], m)"
| "recovery_run cd (Requested ip now # es) m =
     (let (d, m1) = scheduleReboot cd ip now m; (xs, m2) = recovery_run cd es m1
      in (case d of RebootScheduled k \<Rightarrow> (k, now) # xs | _ \<Rightarrow> xs, m2))"
| "recovery_run cd (Finished k # es) m =
     (if inFlight (recovery_of m k) then recovery_run cd es (reboot_finished k m)
      else recovery_run cd es m)"

definition launches_of :: "string \<Rightarrow> (string \<times> int) list \<Rightarrow> int list" where
  "launches_of k xs = map snd (filter (\<lambda>x. fst x = k) xs)"

section \<open>Lemmas\<close>

lemma recovery_of_upd [simp]:
  "recovery_of (m(k \<mapsto> st)) k' = (if k' = k then st else recovery_of m k')"
  by (simp add: recovery_of_def)

lemma scheduleReboot_cases:
  obtains (suppressed) "snd (scheduleReboot cd ip now m) = m"
      "\<And>k. fst (scheduleReboot cd ip now m) \<noteq> RebootScheduled k"
    | (launched) "scheduleReboot cd ip now m =
        (RebootScheduled (TrimSpace ip),
         m(TrimSpace ip \<mapsto> \<lparr>inFlight = True, lastAttempt = Some now\<rparr>))"
      "TrimSpace ip \<noteq> []" "\<not> inFlight (recovery_of m (TrimSpace ip))"
      "\<And>l. lastAttempt (recovery_of m (TrimSpace ip)) = Some l \<Longrightarrow> l + cd \<le> now"
proof -
  let ?k = "TrimSpace ip"
  let ?st = "recovery_of m ?k"
  show ?thesis
  proof (cases "?k = [] \<or> inFlight ?st \<or> (\<exists>l. lastAttempt ?st = Some l \<and> now - l < cd)")
    case True
    then show ?thesis
      by (intro suppressed) (auto simp: scheduleReboot_def Let_def)
  next
    case False
    have st: "?st\<lparr>inFlight := True, lastAttempt := Some now\<rparr>
        = \<lparr>inFlight = True, lastAttempt = Some now\<rparr>"
      by (cases ?st) simp
    from False show ?thesis
      by (intro launched) (auto simp: scheduleReboot_def Let_def st split: option.splits)
  qed
qed

lemma recovery_run_Requested:
  "recovery_run cd (Requested ip now # es) m =
     (case scheduleReboot cd ip now m of
        (RebootScheduled k, m1) \<Rightarrow>
          ((k, now) # fst (recovery_run cd es m1), snd (recovery_run cd es m1))
      | (_, m1) \<Rightarrow> recovery_run cd es m1)"
  by (simp add: Let_def split: prod.split reboot_decision.split)

declare recovery_run.simps(2) [simp del]

lemma recovery_run_suppressed:
  "snd (scheduleReboot cd ip now m) = m \<Longrightarrow>
   (\<And>k. fst (scheduleReboot cd ip now m) \<noteq> RebootScheduled k) \<Longrightarrow>
   recovery_run cd (Requested ip now # es) m = recovery_run cd es m"
  by (cases "scheduleReboot cd ip now m")
    (simp add: recovery_run_Requested split: reboot_decision.split)

lemma recovery_run_launched:
  "scheduleReboot cd ip now m = (RebootScheduled k, m1) \<Longrightarrow>
   recovery_run cd (Requested ip now # es) m =
     ((k, now) # fst (recovery_run cd es m1), snd (recovery_run cd es m1))"
  by (simp add: recovery_run_Requested)

lemma launches_of_Cons:
  "launches_of k ((k', t) # xs) = (if k' = k then t # launches_of k xs else launches_of k xs)"
  by (simp add: launches_of_def)

text \<open>
  The first reboot a run starts for a device waits until the cooldown of the attempt the table
  remembers is over, and so does each later one after the one before it.
\<close>

definition remembered :: "recovery_table \<Rightarrow> string \<Rightarrow> int list" where
  "remembered m k =
     (case lastAttempt (recovery_of m k) of None \<Rightarrow> [] | Some l \<Rightarrow> [l])"

lemma recovery_run_spaced:
  assumes "0 \<le> cd"
  shows "sorted_wrt (\<lambda>a b. a + cd \<le> b)
      (remembered m k @ launches_of k (fst (recovery_run cd es m)))"
proof (induction es arbitrary: m)
  case Nil
  then show ?case by (simp add: launches_of_def remembered_def split: option.split)
next
  case (Cons e es)
  show ?case
  proof (cases e)
    case (Finished k')
    have "remembered (reboot_finished k' m) k = remembered m k"
      by (simp add: remembered_def reboot_finished_def)
    with Finished Cons [of m] Cons [of "reboot_finished k' m"] show ?thesis by simp
  next
    case (Requested ip now)
    show ?thesis
    proof (cases cd ip now m rule: scheduleReboot_cases)
      case suppressed
      with Requested Cons [of m] show ?thesis by (simp add: recovery_run_suppressed)
    next
      case launched
      let ?m = "m(TrimSpace ip \<mapsto> \<lparr>inFlight = True, lastAttempt = Some now\<rparr>)"
      have IH: "sorted_wrt (\<lambda>a b. a + cd \<le> b)
          (remembered ?m k @ launches_of k (fst (recovery_run cd es ?m)))"
        by (rule Cons)
      have "\<forall>l \<in> set (remembered m (TrimSpace ip)). l + cd \<le> now"
        using launched(4) by (auto simp: remembered_def split: option.splits)
      with IH assms show ?thesis
        by (cases "k = TrimSpace ip")
          (force simp: Requested recovery_run_launched [OF launched(1)] launches_of_Cons
             sorted_wrt_append remembered_def split: option.splits)+
    qed
  qed
qed

text \<open>
  In flight bookkeeping: a device has a reboot in flight exactly while one more reboot was
  started for it than has finished, so there is never more than one.
\<close>

fun finished_count :: "string \<Rightarrow> int \<Rightarrow> recovery_event list \<Rightarrow> recovery_table \<Rightarrow> nat" where
  "finished_count k cd [] m = 0"
| "finished_count k cd (Requested ip now # es) m =
     finished_count k cd es (snd (scheduleReboot cd ip now m))"
| "finished_count k cd (Finished k' # es) m =
     (if inFlight (recovery_of m k')
      then (if k' = k then 1 else 0) + finished_count k cd es (reboot_finished k' m)
      else finished_count k cd es m)"

definition in_flight :: "recovery_table \<Rightarrow> string \<Rightarrow> nat" where
  "in_flight m k = (if inFlight (recovery_of m k) then 1 else 0)"

lemma in_flight_finished:
  "inFlight (recovery_of m k') \<Longrightarrow>
     in_flight m k = (if k' = k then 1 else 0) + in_flight (reboot_finished k' m) k"
  by (simp add: in_flight_def reboot_finished_def)

lemma recovery_run_balance:
  "in_flight m k + length (launches_of k (fst (recovery_run cd es m)))
     = finished_count k cd es m + in_flight (snd (recovery_run cd es m)) k"
proof (induction es arbitrary: m)
  case Nil
  then show ?case by (simp add: launches_of_def)
next
  case (Cons e es)
  show ?case
  proof (cases e)
    case (Finished k')
    with Cons [of m] Cons [of "reboot_finished k' m"] in_flight_finished [of m k' k] show ?thesis
      by simp
  next
    case (Requested ip now)
    show ?thesis
    proof (cases cd ip now m rule: scheduleReboot_cases)
      case suppressed
      with Requested Cons [of m] show ?thesis by (simp add: recovery_run_suppressed)
    next
      case launched
      define m1 where "m1 = m(TrimSpace ip \<mapsto> \<lparr>inFlight = True, lastAttempt = Some now\<rparr>)"
      have launch: "scheduleReboot cd ip now m = (RebootScheduled (TrimSpace ip), m1)"
        using launched(1) by (simp add: m1_def)
      have "in_flight m1 k = (if TrimSpace ip = k then 1 else 0) + in_flight m k"
        using launched(3) by (simp add: in_flight_def m1_def)
      with Cons [of m1] show ?thesis
        by (simp add: Requested recovery_run_launched [OF launch] launch launches_of_Cons
            split: if_splits)
    qed
  qed
qed

section \<open>Properties\<close>

text \<open>
  C26. Reboots of a device are spaced: whatever sequence of failures and finished reboots a
  client goes through, for any devices and at any times, two reboots it starts for the same
  device are at least the cooldown apart.
\<close>

theorem reboots_are_spaced:
  assumes "0 \<le> cooldown"
  shows "sorted_wrt (\<lambda>a b. a + cooldown \<le> b)
    (launches_of k (fst (recovery_run cooldown es Map.empty)))"
  using recovery_run_spaced [OF assms, of Map.empty k es]
  by (simp add: remembered_def recovery_of_def)

theorem reboots_are_spaced_witness:
  "sorted_wrt (\<lambda>a b. a + 10 \<le> b) (launches_of ''a'' (fst (recovery_run 10
     [Requested ''a'' 0, Finished ''a'', Requested ''a'' 5, Requested '' a '' 12] Map.empty)))"
  by (rule reboots_are_spaced) simp

text \<open>
  At most one reboot of a device is in flight: in every run from the empty table, the
  reboots started for a device are those that finished plus the one in flight, if any.
\<close>

lemma one_reboot_in_flight:
  "length (launches_of k (fst (recovery_run cooldown es Map.empty)))
     = finished_count k cooldown es Map.empty
       + (if inFlight (recovery_of (snd (recovery_run cooldown es Map.empty)) k) then 1 else 0)"
  using recovery_run_balance [of Map.empty k cooldown es]
  by (simp add: in_flight_def recovery_of_def [of Map.empty])

end
