(* ===== verification/Shelly_Requests.thy ===== *)
theory Shelly_Requests
  imports Shelly_Digest Shelly_Recovery
begin

text \<open>
  The requests of the Shelly client (internal/shelly/client.go): the URL of an RPC, one GET
  with the retries of the unauthenticated and of the digest-authenticated path, the operations
  GetStatus, GetStatusAdmin, Set and Reboot, and the recovery they trigger.

  What the code meets outside itself is an \<open>env\<close>: the outcome of each HTTP exchange, of each
  wait, of the clock, of the random source and of the wait for the device's slot, each as a
  function of what has happened so far (\<open>io list\<close>, newest first), so any behaviour of device,
  network and scheduler is covered. The history also records the acquisition and release of
  the slot (theory Shelly_Slot) and the opening and closing of response bodies. The hash and
  the JSON decoder are arguments of the same record. Log lines are not modelled.

  A \<open>RequestSent\<close> event is one call of \<open>http.Client.Do\<close>, and \<open>env_send\<close> is what it comes back
  with. The standard library may do more on the wire inside that call: it follows up to ten
  redirects, which the client does not forbid and the RPC interface of a Shelly does not send,
  and may resend a GET on a connection that broke before an answer. Counts of requests below
  are counts of these calls.
\<close>

section \<open>Requests and their environment\<close>

datatype requestPriority = PriorityAdmin | PriorityFBS

record switch_status =
  sw_ID :: int
  sw_Output :: bool

record response =
  rs_code :: int
  rs_status :: string
  rs_www_authenticate :: string
  rs_body :: string
  rs_body_error :: "go_error option"
  rs_end_with_data :: bool

text \<open>
  The body is its bytes, the error that ends it, \<open>None\<close> for io.EOF, and whether that end comes in
  the same read as the last bytes.
\<close>

datatype io =
    SlotAcquired requestPriority
  | SlotReleased
  | RequestSent string string
  | BodyOpened
  | BodyClosed
  | WaitedFor int

text \<open>The events of one exchange that the client traces; a flag is whether an error came with it.\<close>

datatype trace_event =
    DNSStart | DNSDone bool | ConnectStart | ConnectDone bool
  | TLSHandshakeStart | TLSHandshakeDone bool bool | GotConn bool | GotFirstResponseByte

record request_timing =
  dnsStarted :: bool
  dnsDone :: bool
  dnsErr :: bool
  connectStarted :: bool
  connectDone :: bool
  connectErr :: bool
  tlsStarted :: bool
  tlsDone :: bool
  tlsErr :: bool
  gotConn :: bool
  firstByte :: bool
  connectionReused :: bool
  tlsResumed :: bool

definition newRequestTiming :: request_timing where
  "newRequestTiming =
     \<lparr>dnsStarted = False, dnsDone = False, dnsErr = False, connectStarted = False,
      connectDone = False, connectErr = False, tlsStarted = False, tlsDone = False,
      tlsErr = False, gotConn = False, firstByte = False, connectionReused = False,
      tlsResumed = False\<rparr>"

fun trace_step :: "trace_event \<Rightarrow> request_timing \<Rightarrow> request_timing" where
  "trace_step DNSStart t = t\<lparr>dnsStarted := True\<rparr>"
| "trace_step (DNSDone err) t = t\<lparr>dnsDone := True, dnsErr := err\<rparr>"
| "trace_step ConnectStart t = t\<lparr>connectStarted := True\<rparr>"
| "trace_step (ConnectDone err) t = t\<lparr>connectDone := True, connectErr := connectErr t \<or> err\<rparr>"
| "trace_step TLSHandshakeStart t = t\<lparr>tlsStarted := True\<rparr>"
| "trace_step (TLSHandshakeDone resumed err) t =
     t\<lparr>tlsDone := True, tlsErr := err, tlsResumed := resumed\<rparr>"
| "trace_step (GotConn reused) t = t\<lparr>gotConn := True, connectionReused := reused\<rparr>"
| "trace_step GotFirstResponseByte t = t\<lparr>firstByte := True\<rparr>"

definition failed_phase :: "request_timing \<Rightarrow> string" where
  "failed_phase t =
     (if \<not> gotConn t \<and> dnsErr t then ''dns_lookup''
      else if \<not> gotConn t \<and> connectErr t then ''tcp_connect''
      else if \<not> gotConn t \<and> tlsErr t then ''tls_handshake''
      else if tlsStarted t \<and> \<not> tlsDone t then ''tls_handshake''
      else if connectStarted t \<and> \<not> connectDone t then ''tcp_connect''
      else if dnsStarted t \<and> \<not> dnsDone t then ''dns_lookup''
      else if gotConn t \<and> \<not> firstByte t then ''response_headers''
      else if firstByte t then ''response_body''
      else ''request'')"

definition wrapError :: "request_timing \<Rightarrow> string \<Rightarrow> string \<Rightarrow> go_error \<Rightarrow> go_error" where
  "wrapError t host elapsed err =
     Wrapf (''shelly request host='' @ host @ '' phase='' @ failed_phase t @ '' elapsed='' @ elapsed
       @ '' connection_reused='' @ FormatBool (connectionReused t)
       @ '' tls_resumed='' @ FormatBool (tlsResumed t)) err"

datatype send_outcome =
    BadRequest go_error
  | SendFailed "trace_event list" string go_error
  | Responded response

record env =
  env_send :: "io list \<Rightarrow> string \<Rightarrow> string \<Rightarrow> send_outcome"
  env_host :: "string \<Rightarrow> string"
  env_uri :: "string \<Rightarrow> go_error + string"
  env_wait :: "io list \<Rightarrow> int \<Rightarrow> go_error option"
  env_now :: "io list \<Rightarrow> int"
  env_rand :: "io list \<Rightarrow> go_error + string"
  env_acquire :: "io list \<Rightarrow> requestPriority \<Rightarrow> go_error option"
  env_deferred :: "io list \<Rightarrow> bool"
  env_ctx_err :: "io list \<Rightarrow> bool"
  env_sha :: "string \<Rightarrow> string"
  env_json :: "string \<Rightarrow> go_error option \<Rightarrow> go_error + switch_status"

record client =
  c_statusRetryDelay :: int
  c_throttleDelay :: int
  c_rebootCooldown :: int
  c_auth :: "string \<rightharpoonup> digest_session option"
  c_recovery :: recovery_table
  c_reboots :: "tool list"

definition maxResponseBodyBytes :: nat where "maxResponseBodyBytes = 4096"
definition maxAuthenticationAttempts :: nat where "maxAuthenticationAttempts = 6"
definition maxStatusAttempts :: nat where "maxStatusAttempts = 2"

section \<open>URLs and device keys\<close>

text \<open>
  \<open>url.URL.String\<close> escapes the bytes of the host that a host cannot hold. The three RPC methods
  and the encoded parameters hold no byte that needs escaping.
\<close>

definition host_byte :: "char \<Rightarrow> bool" where
  "host_byte c \<longleftrightarrow>
     c \<in> set ''abcdefghijklmnopqrstuvwxyzABCDEFGHIJKLMNOPQRSTUVWXYZ0123456789-_.~!$&()*+,;=:[]<>''
     \<or> c = CHR 0x22 \<or> c = CHR 0x27"

definition upper_hex_digit :: "nat \<Rightarrow> char" where
  "upper_hex_digit d = (if d < 10 then char_of (48 + d) else char_of (55 + d))"

definition escapeHost :: "string \<Rightarrow> string" where
  "escapeHost s = concat (map (\<lambda>c. if host_byte c then [c]
     else [CHR 0x25, upper_hex_digit (of_char c div 16), upper_hex_digit (of_char c mod 16)]) s)"

definition rpcURL :: "tool \<Rightarrow> string \<Rightarrow> string \<Rightarrow> go_error + string" where
  "rpcURL t method query =
     (let scheme = ToolProtocol t; host = TrimSpace (tool_ip t)
      in if host = [] then Inl (Plain ''shelly host is empty'')
         else if Contains host ''://''
           then Inl (Plain (''shelly host '' @ host @ '' must not include a URL scheme''))
         else if TrimSpace method = [] then Inl (Plain ''shelly RPC method is empty'')
         else Inr (scheme @ ''://'' @ escapeHost host @ ''/rpc/'' @ method @ CHR ''?'' # query))"

definition deviceKey :: "tool \<Rightarrow> string" where
  "deviceKey t = ToolProtocol t @ ''://'' @ TrimSpace (tool_ip t)"

section \<open>One GET\<close>

definition drainAndClose :: "io list \<Rightarrow> io list" where
  "drainAndClose h = BodyClosed # h"

definition sendGET ::
  "env \<Rightarrow> string \<Rightarrow> string \<Rightarrow> io list \<Rightarrow> (go_error + response) \<times> io list" where
  "sendGET e url authorization h =
     (case env_send e h url authorization of
        BadRequest err \<Rightarrow> (Inl err, h)
      | SendFailed events elapsed err \<Rightarrow>
          (Inl (wrapError (fold trace_step events newRequestTiming) (env_host e url) elapsed err),
           RequestSent url authorization # h)
      | Responded resp \<Rightarrow> (Inr resp, BodyOpened # RequestSent url authorization # h))"

definition waitForContext :: "env \<Rightarrow> int \<Rightarrow> io list \<Rightarrow> go_error option \<times> io list" where
  "waitForContext e delay h = (env_wait e h delay, WaitedFor delay # h)"

definition unauthenticated_attempt ::
  "env \<Rightarrow> int \<Rightarrow> string \<Rightarrow> nat \<Rightarrow> io list
     \<Rightarrow> (io list, (go_error + response) \<times> io list) flow" where
  "unauthenticated_attempt e delay url attempt h =
     (case sendGET e url [] h of
        (Inl err, h1) \<Rightarrow> Return (Inl err, h1)
      | (Inr resp, h1) \<Rightarrow>
          if rs_code resp \<noteq> StatusTooManyRequests \<or> attempt = 1 then Return (Inr resp, h1)
          else
            (case waitForContext e delay (drainAndClose h1) of
               (Some err, h2) \<Rightarrow> Return (Inl err, h2)
             | (None, h2) \<Rightarrow> Continue h2))"

definition doUnauthenticatedGET ::
  "env \<Rightarrow> int \<Rightarrow> string \<Rightarrow> io list \<Rightarrow> (go_error + response) \<times> io list" where
  "doUnauthenticatedGET e delay url h =
     for_loop 2 0 (unauthenticated_attempt e delay url)
       (\<lambda>h. (Inl (Plain ''shelly request retry limit exceeded''), h)) h"

text \<open>The Authorization header of the next request, and what signing it does to the session.\<close>

definition authorize ::
  "env \<Rightarrow> string \<Rightarrow> string \<Rightarrow> string \<Rightarrow> digest_session option
     \<Rightarrow> (go_error + string) \<times> digest_session option" where
  "authorize e url username password session =
     (case session of
        None \<Rightarrow> (Inr [], None)
      | Some s \<Rightarrow>
          (case env_uri e url of
             Inl err \<Rightarrow> (Inl err, session)
           | Inr uri \<Rightarrow>
               (case nextAuthorizationHeader (env_sha e) session ''GET'' uri username password of
                  (Inl err, _) \<Rightarrow> (Inl err, None)
                | (Inr header, session1) \<Rightarrow> (Inr header, session1))))"

definition drop_expired :: "env \<Rightarrow> io list \<Rightarrow> digest_session option \<Rightarrow> digest_session option" where
  "drop_expired e h session =
     (if session \<noteq> None \<and> session_expired session (env_now e h) then None else session)"

text \<open>
  One round of \<open>doAuthenticatedGETLocked\<close>. The variables the loop carries are the count of
  authentication failures, whether a 429 was already retried, the session, and the history.
\<close>

type_synonym auth_loop = "nat \<times> bool \<times> digest_session option \<times> io list"
type_synonym auth_result = "(go_error + response) \<times> digest_session option \<times> io list"

definition authenticated_attempt ::
  "env \<Rightarrow> int \<Rightarrow> string \<Rightarrow> string \<Rightarrow> string \<Rightarrow> nat \<Rightarrow> auth_loop \<Rightarrow> (auth_loop, auth_result) flow"
where
  "authenticated_attempt e delay url username password attempt v =
     (case v of (failures, throttleRetried, session, h) \<Rightarrow>
        let session1 = drop_expired e h session;
            authenticated = (session1 \<noteq> None)
        in (case authorize e url username password session1 of
              (Inl err, session2) \<Rightarrow> Return (Inl err, session2, h)
            | (Inr authorization, session2) \<Rightarrow>
                (case sendGET e url authorization h of
                   (Inl err, h1) \<Rightarrow> Return (Inl err, session2, h1)
                 | (Inr resp, h1) \<Rightarrow>
                     if rs_code resp = StatusUnauthorized then
                       let failures1 = (if authenticated then failures + 1 else failures)
                       in if authenticated \<and> 1 < failures1 then Return (Inr resp, None, h1)
                          else
                            let challenge = rs_www_authenticate resp;
                                h2 = drainAndClose h1
                            in if challenge = []
                               then Return
                                 (Inl (Plain ''shelly returned 401 but no WWW-Authenticate header''),
                                  None, h2)
                               else
                                 (case newDigestSession (env_rand e h2) (env_now e h2) challenge of
                                    Inl err \<Rightarrow> Return (Inl err, None, h2)
                                  | Inr s \<Rightarrow> Continue (failures1, throttleRetried, Some s, h2))
                     else if rs_code resp = StatusTooManyRequests then
                       if throttleRetried then Return (Inr resp, session2, h1)
                       else
                         (case waitForContext e delay (drainAndClose h1) of
                            (Some err, h2) \<Rightarrow> Return (Inl err, session2, h2)
                          | (None, h2) \<Rightarrow> Continue (failures, True, session2, h2))
                     else Return (Inr resp, session2, h1))))"

definition doAuthenticatedGETLocked ::
  "env \<Rightarrow> int \<Rightarrow> string \<Rightarrow> string \<Rightarrow> string \<Rightarrow> digest_session option \<Rightarrow> io list
     \<Rightarrow> auth_result" where
  "doAuthenticatedGETLocked e delay url username password session h =
     for_loop maxAuthenticationAttempts 0
       (authenticated_attempt e delay url username password)
       (\<lambda>(failures, throttleRetried, session, h).
          (Inl (Plain ''shelly authentication retry limit exceeded''), session, h))
       (0, False, session, h)"

definition authState :: "string \<Rightarrow> client \<Rightarrow> digest_session option \<times> client" where
  "authState key c =
     (case c_auth c key of
        Some session \<Rightarrow> (session, c)
      | None \<Rightarrow> (None, c\<lparr>c_auth := (c_auth c)(key \<mapsto> None)\<rparr>))"

definition requestError :: "env \<Rightarrow> requestPriority \<Rightarrow> io list \<Rightarrow> go_error \<Rightarrow> go_error" where
  "requestError e priority h err =
     (if priority = PriorityAdmin \<and> env_deferred e h then ErrAdminStatusDeferred else err)"

definition blank_password :: "tool \<Rightarrow> bool" where
  "blank_password t =
     (case tool_password t of None \<Rightarrow> True | Some pw \<Rightarrow> TrimSpace pw = [])"

definition digest_username :: "tool \<Rightarrow> string" where
  "digest_username t =
     (case tool_username t of
        None \<Rightarrow> ''admin''
      | Some u \<Rightarrow> if TrimSpace u \<noteq> [] then TrimSpace u else ''admin'')"

text \<open>
  The slot is taken for the whole request. It is given back here when the request fails, and
  otherwise by the closing of the response body (\<open>releaseOnCloseBody\<close>), \<open>close_response\<close>.
\<close>

definition doGETWithPriority ::
  "env \<Rightarrow> client \<Rightarrow> tool \<Rightarrow> string \<Rightarrow> requestPriority \<Rightarrow> io list
     \<Rightarrow> (go_error + response) \<times> client \<times> io list" where
  "doGETWithPriority e c0 t url priority h =
     (let key = deviceKey t; (session, c) = authState key c0
      in case env_acquire e h priority of
           Some err \<Rightarrow> (Inl (Wrapf ''wait for Shelly request slot'' err), c, h)
         | None \<Rightarrow>
             let h1 = SlotAcquired priority # h;
                 (res, session1, h2) =
                   (if blank_password t
                    then (let (res, h2) = doUnauthenticatedGET e (c_throttleDelay c) url h1
                          in (res, session, h2))
                    else doAuthenticatedGETLocked e (c_throttleDelay c) url (digest_username t)
                           (case tool_password t of None \<Rightarrow> [] | Some pw \<Rightarrow> pw) session h1);
                 c1 = c\<lparr>c_auth := (c_auth c)(key \<mapsto> session1)\<rparr>
             in (case res of
                   Inl err \<Rightarrow> (Inl (requestError e priority h2 err), c1, SlotReleased # h2)
                 | Inr resp \<Rightarrow> (Inr resp, c1, h2)))"

definition close_response :: "io list \<Rightarrow> io list" where
  "close_response h = SlotReleased # BodyClosed # h"

section \<open>The order of what a request does\<close>

text \<open>
  \<open>protocol h\<close> replays a history: whether the slot is held and whether a response body is
  open, or \<open>None\<close> when a request was sent without the slot or over an open body, a body was
  closed twice, the slot was taken twice or given back while a body was open.
\<close>

fun protocol_step :: "io \<Rightarrow> bool \<times> bool \<Rightarrow> (bool \<times> bool) option" where
  "protocol_step (SlotAcquired p) (held, open) = (if held then None else Some (True, open))"
| "protocol_step SlotReleased (held, open) = (if held \<and> \<not> open then Some (False, open) else None)"
| "protocol_step (RequestSent u a) (held, open) = (if held \<and> \<not> open then Some (held, open) else None)"
| "protocol_step BodyOpened (held, open) = (if held \<and> \<not> open then Some (held, True) else None)"
| "protocol_step BodyClosed (held, open) = (if open then Some (held, False) else None)"
| "protocol_step (WaitedFor d) (held, open) = (if open then None else Some (held, open))"

primrec protocol :: "io list \<Rightarrow> (bool \<times> bool) option" where
  "protocol [] = Some (False, False)"
| "protocol (x # h) = (case protocol h of None \<Rightarrow> None | Some st \<Rightarrow> protocol_step x st)"

definition sent :: "io list \<Rightarrow> nat" where
  "sent h = length (filter (\<lambda>x. case x of RequestSent u a \<Rightarrow> True | _ \<Rightarrow> False) h)"

definition acquired :: "io list \<Rightarrow> nat" where
  "acquired h = length (filter (\<lambda>x. case x of SlotAcquired p \<Rightarrow> True | _ \<Rightarrow> False) h)"

lemma sent_simps [simp]:
  "sent [] = 0"
  "sent (RequestSent u a # h) = Suc (sent h)"
  "sent (SlotAcquired p # h) = sent h"
  "sent (SlotReleased # h) = sent h"
  "sent (BodyOpened # h) = sent h"
  "sent (BodyClosed # h) = sent h"
  "sent (WaitedFor d # h) = sent h"
  by (simp_all add: sent_def)

lemma acquired_simps [simp]:
  "acquired [] = 0"
  "acquired (RequestSent u a # h) = acquired h"
  "acquired (SlotAcquired p # h) = Suc (acquired h)"
  "acquired (SlotReleased # h) = acquired h"
  "acquired (BodyOpened # h) = acquired h"
  "acquired (BodyClosed # h) = acquired h"
  "acquired (WaitedFor d # h) = acquired h"
  by (simp_all add: acquired_def)

text \<open>The response \<open>resp\<close> is the answer to the last request of the history, for \<open>url\<close>.\<close>

definition answered :: "env \<Rightarrow> string \<Rightarrow> io list \<Rightarrow> response \<Rightarrow> bool" where
  "answered e url h resp \<longleftrightarrow>
     (\<exists>h0 auth. h = BodyOpened # RequestSent url auth # h0 \<and> env_send e h0 url auth = Responded resp)"

section \<open>Rounds\<close>

lemma sendGET_cases:
  obtains (refused) err where "env_send e h url a = BadRequest err" "sendGET e url a h = (Inl err, h)"
  | (failed) err where "sendGET e url a h = (Inl err, RequestSent url a # h)"
  | (answer) resp where "sendGET e url a h = (Inr resp, BodyOpened # RequestSent url a # h)"
      "env_send e h url a = Responded resp"
  by (cases "env_send e h url a") (auto simp: sendGET_def)

lemma sendGET_Inr:
  "sendGET e url a h = (Inr resp, h1) \<longleftrightarrow>
     h1 = BodyOpened # RequestSent url a # h \<and> env_send e h url a = Responded resp"
  by (cases "env_send e h url a") (auto simp: sendGET_def)

lemma sendGET_Inl:
  "sendGET e url a h = (Inl err, h1) \<Longrightarrow> h1 = h \<or> h1 = RequestSent url a # h"
  by (cases "env_send e h url a") (auto simp: sendGET_def)

lemma authorize_session_ok:
  assumes "authorize e url u p s = (r, s')" and "\<And>x. s = Some x \<Longrightarrow> session_ok x" and "s' = Some y"
  shows "session_ok y"
  using assms
  by (auto simp: authorize_def split: option.splits sum.splits prod.splits
      intro: nextAuthorizationHeader_ok)

lemma authorize_below:
  assumes "authorize e url u p s = (Inr a, s')"
  shows "s' = None \<longleftrightarrow> s = None"
    and "s = Some x \<Longrightarrow> s' = Some (x\<lparr>ds_nonceCount := ds_nonceCount x + 1\<rparr>)
           \<and> ds_nonceCount x < maxDigestNonceCount"
  using assms
  by (auto simp: authorize_def dest: nextAuthorizationHeader_count
      split: option.splits sum.splits prod.splits)

text \<open>
  A request answered with 429, after whose answer was put away the delay passed without the
  caller's context ending the wait.
\<close>

definition throttled_once :: "env \<Rightarrow> int \<Rightarrow> string \<Rightarrow> io list \<Rightarrow> string \<Rightarrow> bool" where
  "throttled_once e d url h auth \<longleftrightarrow>
     (\<exists>resp. env_send e h url auth = Responded resp \<and> rs_code resp = StatusTooManyRequests)
     \<and> env_wait e (BodyClosed # BodyOpened # RequestSent url auth # h) d = None"

text \<open>The two ways a round goes on, and the five ways it ends.\<close>

lemma authenticated_attempt_Continue:
  assumes "authenticated_attempt e d url u p j (f, thr, s, h) = Continue v"
  obtains (challenged) a resp x where
      "v = (if drop_expired e h s \<noteq> None then f + 1 else f, thr, Some x,
            BodyClosed # BodyOpened # RequestSent url a # h)"
      "env_send e h url a = Responded resp" "rs_code resp = StatusUnauthorized"
      "drop_expired e h s \<noteq> None \<Longrightarrow> f = 0"
      "newDigestSession (env_rand e (BodyClosed # BodyOpened # RequestSent url a # h))
         (env_now e (BodyClosed # BodyOpened # RequestSent url a # h))
         (rs_www_authenticate resp) = Inr x"
  | (throttled) a s' where
      "v = (f, True, s', WaitedFor d # BodyClosed # BodyOpened # RequestSent url a # h)"
      "\<not> thr" "authorize e url u p (drop_expired e h s) = (Inr a, s')"
      "throttled_once e d url h a"
  using assms
  by (auto simp: authenticated_attempt_def throttled_once_def Let_def sendGET_Inr waitForContext_def drainAndClose_def
      split: prod.splits sum.splits if_splits option.splits)

lemma authenticated_attempt_Return:
  assumes "authenticated_attempt e d url u p j (f, thr, s, h) = Return v"
  obtains (unsigned) err s' where
      "v = (Inl err, s', h)" "authorize e url u p (drop_expired e h s) = (Inl err, s')"
  | (unsent) err a s' where
      "v = (Inl err, s', h) \<or> v = (Inl err, s', RequestSent url a # h)"
      "authorize e url u p (drop_expired e h s) = (Inr a, s')"
  | (unusable) err a where
      "v = (Inl err, None, BodyClosed # BodyOpened # RequestSent url a # h)"
  | (interrupted) err a s' where
      "v = (Inl err, s', WaitedFor d # BodyClosed # BodyOpened # RequestSent url a # h)"
      "authorize e url u p (drop_expired e h s) = (Inr a, s')"
  | (answer) resp a s' where
      "v = (Inr resp, s', BodyOpened # RequestSent url a # h)"
      "env_send e h url a = Responded resp"
      "rs_code resp = StatusTooManyRequests \<Longrightarrow> thr"
      "s' = None \<or> authorize e url u p (drop_expired e h s) = (Inr a, s')"
  using assms
  by (auto simp: authenticated_attempt_def Let_def sendGET_Inr waitForContext_def drainAndClose_def
      status_codes dest!: sendGET_Inl
      split: prod.splits sum.splits if_splits option.splits)

section \<open>What one GET does\<close>

definition within_slot :: "(go_error + response) \<Rightarrow> io list \<Rightarrow> bool" where
  "within_slot res h = (protocol h = Some (True, case res of Inl err \<Rightarrow> False | Inr resp \<Rightarrow> True))"

lemma doAuthenticatedGETLocked_protocol:
  assumes "protocol h = Some (True, False)"
    and "doAuthenticatedGETLocked e d url u p s h = (res, s', h')"
  shows "within_slot res h'"
proof -
  have "case doAuthenticatedGETLocked e d url u p s h of (res, s', h') \<Rightarrow> within_slot res h'"
    unfolding doAuthenticatedGETLocked_def
  proof (rule for_loop_rule [where I = "\<lambda>j v. protocol (snd (snd (snd v))) = Some (True, False)"],
      goal_cases)
    case (2 j v v')
    then show ?case by (cases v) (auto elim!: authenticated_attempt_Continue)
  next
    case (3 j v r)
    then show ?case
      by (cases v) (auto simp: within_slot_def elim!: authenticated_attempt_Return)
  qed (use assms(1) in \<open>auto simp: within_slot_def\<close>)
  with assms(2) show ?thesis by simp
qed

lemma doUnauthenticatedGET_protocol:
  assumes "protocol h = Some (True, False)"
    and "doUnauthenticatedGET e d url h = (res, h')"
  shows "within_slot res h'"
proof -
  have "case doUnauthenticatedGET e d url h of (res, h') \<Rightarrow> within_slot res h'"
    unfolding doUnauthenticatedGET_def
  proof (rule for_loop_rule [where I = "\<lambda>j v. protocol v = Some (True, False)"], goal_cases)
    case (2 j v v')
    then show ?case
      by (auto simp: unauthenticated_attempt_def sendGET_Inr waitForContext_def drainAndClose_def
          split: prod.splits sum.splits if_splits option.splits)
  next
    case (3 j v r)
    then show ?case
      by (auto simp: unauthenticated_attempt_def sendGET_Inr waitForContext_def drainAndClose_def
          within_slot_def dest!: sendGET_Inl
          split: prod.splits sum.splits if_splits option.splits)
  qed (use assms(1) in \<open>auto simp: within_slot_def\<close>)
  with assms(2) show ?thesis by simp
qed

text \<open>The sessions stay well formed.\<close>

lemma drop_expired_Some:
  "drop_expired e h s = Some x \<Longrightarrow> s = Some x \<and> \<not> session_expired (Some x) (env_now e h)"
  by (auto simp: drop_expired_def split: if_splits)

lemma doAuthenticatedGETLocked_session_ok:
  assumes "\<And>x. s = Some x \<Longrightarrow> session_ok x"
    and "doAuthenticatedGETLocked e d url u p s h = (res, Some y, h')"
  shows "session_ok y"
proof -
  have round: "session_ok y" if "authorize e url u p (drop_expired e h s) = (r, Some y)"
    and "\<And>x. s = Some x \<Longrightarrow> session_ok x" for r h s y
    using that drop_expired_Some [of e h s] by (blast intro: authorize_session_ok)
  have "case doAuthenticatedGETLocked e d url u p s h of (res, s', h') \<Rightarrow>
      \<forall>y. s' = Some y \<longrightarrow> session_ok y"
    unfolding doAuthenticatedGETLocked_def
  proof (rule for_loop_rule
      [where I = "\<lambda>j v. \<forall>x. fst (snd (snd v)) = Some x \<longrightarrow> session_ok x"], goal_cases)
    case (2 j v v')
    then show ?case
      by (cases v) (auto elim!: authenticated_attempt_Continue intro: round
          dest: newDigestSession_ok)
  next
    case (3 j v r)
    then show ?case
      by (cases v) (auto elim!: authenticated_attempt_Return intro: round)
  qed (use assms(1) in auto)
  with assms(2) show ?thesis by simp
qed

text \<open>A response that is returned is the answer to the last request sent.\<close>

lemma doAuthenticatedGETLocked_answered:
  assumes "doAuthenticatedGETLocked e d url u p s h = (Inr resp, s', h')"
  shows "answered e url h' resp"
proof -
  have "case doAuthenticatedGETLocked e d url u p s h of (res, s', h') \<Rightarrow>
      (\<forall>resp. res = Inr resp \<longrightarrow> answered e url h' resp)"
    unfolding doAuthenticatedGETLocked_def
  proof (rule for_loop_rule [where I = "\<lambda>j v. True"], goal_cases)
    case (3 j v r)
    then show ?case
      by (cases v) (auto simp: answered_def elim!: authenticated_attempt_Return)
  qed auto
  with assms show ?thesis by simp
qed

lemma doUnauthenticatedGET_answered:
  assumes "doUnauthenticatedGET e d url h = (Inr resp, h')"
  shows "answered e url h' resp"
proof -
  have "case doUnauthenticatedGET e d url h of (res, h') \<Rightarrow>
      (\<forall>resp. res = Inr resp \<longrightarrow> answered e url h' resp)"
    unfolding doUnauthenticatedGET_def
  proof (rule for_loop_rule [where I = "\<lambda>j v. True"], goal_cases)
    case (3 j v r)
    then show ?case
      by (auto simp: unauthenticated_attempt_def sendGET_Inr waitForContext_def answered_def
          split: prod.splits sum.splits if_splits option.splits)
  qed auto
  with assms show ?thesis by simp
qed

text \<open>
  A response that still says 429 was asked for again after a wait. \<open>throttled_before\<close>: since \<open>h\<close>,
  a request for \<open>url\<close> was answered with 429, its body closed and the delay waited out.
  \<open>asked_again\<close>: after that the same URL was asked for again and the answer, the last event, is
  a 429 as well.
\<close>

definition throttled_before :: "env \<Rightarrow> int \<Rightarrow> string \<Rightarrow> io list \<Rightarrow> io list \<Rightarrow> bool" where
  "throttled_before e d url h h' \<longleftrightarrow>
     (\<exists>later auth earlier.
        h' = later @ WaitedFor d # BodyClosed # BodyOpened # RequestSent url auth # earlier @ h
        \<and> throttled_once e d url (earlier @ h) auth)"

definition asked_again :: "env \<Rightarrow> int \<Rightarrow> string \<Rightarrow> io list \<Rightarrow> io list \<Rightarrow> bool" where
  "asked_again e d url h h' \<longleftrightarrow>
     (\<exists>auth h0 resp. h' = BodyOpened # RequestSent url auth # h0
        \<and> env_send e h0 url auth = Responded resp \<and> rs_code resp = StatusTooManyRequests
        \<and> throttled_before e d url h h0)"

definition carries :: "env \<Rightarrow> int \<Rightarrow> string \<Rightarrow> io list \<Rightarrow> bool \<Rightarrow> io list \<Rightarrow> bool" where
  "carries e d url h thr h' \<longleftrightarrow>
     (\<exists>g. h' = g @ h) \<and> (thr \<longrightarrow> throttled_before e d url h h')"

lemma carries_refl: "carries e d url h False h"
  by (simp add: carries_def)

lemma carries_Cons: "carries e d url h thr h' \<Longrightarrow> carries e d url h thr (x # h')"
  unfolding carries_def throttled_before_def by (metis append_Cons)

lemma carries_wait:
  assumes "carries e d url h thr h'" and "throttled_once e d url h' a"
  shows "carries e d url h True (WaitedFor d # BodyClosed # BodyOpened # RequestSent url a # h')"
proof -
  from assms(1) obtain g where g: "h' = g @ h" by (auto simp: carries_def)
  with assms(2) have "throttled_before e d url h
      ([] @ WaitedFor d # BodyClosed # BodyOpened # RequestSent url a # g @ h)"
    unfolding throttled_before_def by blast
  then show ?thesis unfolding g carries_def by (metis append_Cons append_Nil)
qed

lemma carries_asked:
  "carries e d url h True h' \<Longrightarrow> env_send e h' url a = Responded resp \<Longrightarrow>
   rs_code resp = StatusTooManyRequests \<Longrightarrow> asked_again e d url h (BodyOpened # RequestSent url a # h')"
  by (auto simp: carries_def asked_again_def)

lemma asked_again_since:
  assumes "asked_again e d url (x # h) h'"
  shows "asked_again e d url h h'"
proof -
  have "throttled_before e d url h h0" if "throttled_before e d url (x # h) h0" for h0
  proof -
    from that obtain later auth earlier where
        "h0 = later @ WaitedFor d # BodyClosed # BodyOpened # RequestSent url auth # (earlier @ [x]) @ h"
        "throttled_once e d url ((earlier @ [x]) @ h) auth"
      by (auto simp: throttled_before_def)
    then show ?thesis unfolding throttled_before_def by blast
  qed
  with assms show ?thesis unfolding asked_again_def by blast
qed

lemma doAuthenticatedGETLocked_throttled:
  assumes "doAuthenticatedGETLocked e d url u p s h = (Inr resp, s', h')"
    and "rs_code resp = StatusTooManyRequests"
  shows "asked_again e d url h h'"
proof -
  have "case doAuthenticatedGETLocked e d url u p s h of (res, s', h') \<Rightarrow>
      (\<forall>resp. res = Inr resp \<longrightarrow> rs_code resp = StatusTooManyRequests \<longrightarrow> asked_again e d url h h')"
    unfolding doAuthenticatedGETLocked_def
  proof (rule for_loop_rule [where I = "\<lambda>j (f, thr, s, h'). carries e d url h thr h'"], goal_cases)
    case 1
    then show ?case by (simp add: carries_refl)
  next
    case (2 j v v')
    then show ?case
      by (cases v) (auto elim!: authenticated_attempt_Continue intro: carries_wait carries_Cons)
  next
    case (3 j v r)
    then show ?case
      by (cases v) (auto elim!: authenticated_attempt_Return intro: carries_asked)
  qed auto
  with assms show ?thesis by simp
qed

lemma doUnauthenticatedGET_throttled:
  assumes "doUnauthenticatedGET e d url h = (Inr resp, h')"
    and "rs_code resp = StatusTooManyRequests"
  shows "asked_again e d url h h'"
proof -
  have "case doUnauthenticatedGET e d url h of (res, h') \<Rightarrow>
      (\<forall>resp. res = Inr resp \<longrightarrow> rs_code resp = StatusTooManyRequests \<longrightarrow> asked_again e d url h h')"
    unfolding doUnauthenticatedGET_def
  proof (rule for_loop_rule [where I = "\<lambda>j h'. carries e d url h (0 < j) h'"], goal_cases)
    case 1
    then show ?case by (simp add: carries_refl)
  next
    case (2 j v v')
    then show ?case
      by (auto simp: unauthenticated_attempt_def sendGET_Inr waitForContext_def drainAndClose_def
          throttled_once_def intro!: carries_wait split: prod.splits sum.splits if_splits option.splits)
  next
    case (3 j v r)
    then show ?case
      by (auto simp: unauthenticated_attempt_def sendGET_Inr waitForContext_def drainAndClose_def
          intro!: carries_asked split: prod.splits sum.splits if_splits option.splits)
  qed auto
  with assms show ?thesis by simp
qed

section \<open>How many requests are sent\<close>

lemma sendGET_sent: "sent (snd (sendGET e url a h)) \<le> Suc (sent h)"
  by (cases "env_send e h url a") (simp_all add: sendGET_def)

lemma doUnauthenticatedGET_sent:
  "sent (snd (doUnauthenticatedGET e d url h)) \<le> sent h + 2"
  unfolding doUnauthenticatedGET_def
proof (rule for_loop_rule [where I = "\<lambda>j h'. sent h' = sent h + j"], goal_cases)
  case (2 j v v')
  then show ?case
    by (auto simp: unauthenticated_attempt_def sendGET_Inr waitForContext_def drainAndClose_def
        split: prod.splits sum.splits if_splits option.splits)
next
  case (3 j v r)
  then show ?case
    using sendGET_sent [of e url "[]" v]
    by (cases r; cases "sendGET e url [] v") (auto simp: unauthenticated_attempt_def sendGET_Inr waitForContext_def drainAndClose_def
        split: prod.splits sum.splits if_splits option.splits)
qed simp_all

lemma doAuthenticatedGETLocked_sent:
  "sent (snd (snd (doAuthenticatedGETLocked e d url u p s h))) \<le> sent h + maxAuthenticationAttempts"
  unfolding doAuthenticatedGETLocked_def
proof (rule for_loop_rule [where I = "\<lambda>j (f, thr, s, h'). sent h' = sent h + j"], goal_cases)
  case (2 j v v')
  then show ?case by (cases v) (auto elim!: authenticated_attempt_Continue)
next
  case (3 j v r)
  then show ?case by (cases v) (auto elim!: authenticated_attempt_Return)
qed auto

text \<open>
  While the clock stays within the age a session may reach, the limit of six is never met: a
  challenge, one rejected signature and one throttled attempt make at most four requests.
  \<open>fresh\<close> is a session this call negotiated itself.
\<close>

definition fresh :: "env \<Rightarrow> bool \<Rightarrow> digest_session option \<Rightarrow> bool" where
  "fresh e thr s \<longleftrightarrow>
     (\<exists>x h. s = Some x \<and> ds_createdAt x = env_now e h
        \<and> unat (ds_nonceCount x) \<le> (if thr then 1 else 0))"

definition rounds_left :: "env \<Rightarrow> nat \<Rightarrow> bool \<Rightarrow> digest_session option \<Rightarrow> nat" where
  "rounds_left e f thr s =
     (if fresh e thr s then 2 - f else 3) + (if thr then 0 else 1)"

definition steady_clock :: "env \<Rightarrow> bool" where
  "steady_clock e \<longleftrightarrow> (\<forall>h1 h2. env_now e h2 - env_now e h1 < digestSessionMaxAge)"

lemma fresh_not_dropped:
  assumes "steady_clock e" and "fresh e thr s"
  shows "drop_expired e h s = s"
proof -
  from assms(2) obtain x h0 where s: "s = Some x" and x: "ds_createdAt x = env_now e h0"
    and n: "unat (ds_nonceCount x) \<le> 1"
    by (auto simp: fresh_def split: if_splits)
  have "env_now e h - ds_createdAt x < digestSessionMaxAge"
    using assms(1) x by (simp add: steady_clock_def)
  moreover have "\<not> maxDigestNonceCount \<le> ds_nonceCount x"
    using n by (simp add: maxDigestNonceCount_def word_le_nat_alt)
  ultimately show ?thesis by (simp add: drop_expired_def session_expired_def s)
qed

lemma rounds_left_Continue:
  assumes clock: "steady_clock e"
    and cont: "authenticated_attempt e d url u p j (f, thr, s, h) = Continue (f', thr', s', h')"
    and f: "f \<le> (if fresh e thr s then 1 else 0)"
  shows "Suc (rounds_left e f' thr' s') \<le> rounds_left e f thr s"
    and "f' \<le> (if fresh e thr' s' then 1 else 0)"
    and "sent h' = Suc (sent h)"
proof -
  have "Suc (rounds_left e f' thr' s') \<le> rounds_left e f thr s
      \<and> f' \<le> (if fresh e thr' s' then 1 else 0) \<and> sent h' = Suc (sent h)"
    using cont
  proof (cases rule: authenticated_attempt_Continue)
    case (challenged a resp x)
    then have "fresh e thr' s'" by (auto simp: fresh_def dest: newDigestSession_ok)
    with challenged f fresh_not_dropped [OF clock, of thr s h] show ?thesis
      by (auto simp: rounds_left_def fresh_def split: if_splits)
  next
    case (throttled a s1)
    show ?thesis
    proof (cases "fresh e thr s")
      case False
      with throttled f show ?thesis by (auto simp: rounds_left_def split: if_splits)
    next
      case True
      then obtain x h0 where s: "s = Some x" "ds_createdAt x = env_now e h0" "ds_nonceCount x = 0"
        using throttled(2) by (auto simp: fresh_def unat_eq_0)
      have "authorize e url u p s = (Inr a, s1)"
        using throttled(3) fresh_not_dropped [OF clock True] by simp
      from authorize_below(2) [OF this s(1)] s have "fresh e True s1" by (auto simp: fresh_def)
      with True throttled f show ?thesis by (auto simp: rounds_left_def split: if_splits)
    qed
  qed
  then show "Suc (rounds_left e f' thr' s') \<le> rounds_left e f thr s"
    and "f' \<le> (if fresh e thr' s' then 1 else 0)" and "sent h' = Suc (sent h)"
    by simp_all
qed

lemma authenticated_attempt_sent:
  "authenticated_attempt e d url u p j (f, thr, s, h) = Return (res, s', h') \<Longrightarrow>
     sent h' \<le> Suc (sent h)"
  by (auto elim!: authenticated_attempt_Return)

lemma doAuthenticatedGETLocked_sent_steady:
  assumes "steady_clock e"
  shows "sent (snd (snd (doAuthenticatedGETLocked e d url u p s h))) \<le> sent h + 4"
  unfolding doAuthenticatedGETLocked_def
proof (rule for_loop_rule [where I = "\<lambda>j (f, thr, s, h'). sent h' = sent h + j
      \<and> f \<le> (if fresh e thr s then 1 else 0) \<and> j + rounds_left e f thr s \<le> 4"], goal_cases)
  case 1
  then show ?case by (simp add: rounds_left_def)
next
  case (2 j v v')
  show ?case
  proof (cases v; cases v')
    fix f thr s1 h1 f' thr' s1' h1'
    assume v: "v = (f, thr, s1, h1)" "v' = (f', thr', s1', h1')"
    with 2 have inv: "sent h1 = sent h + j" "f \<le> (if fresh e thr s1 then 1 else 0)"
        "j + rounds_left e f thr s1 \<le> 4"
      and cont: "authenticated_attempt e d url u p j (f, thr, s1, h1) = Continue (f', thr', s1', h1')"
      by simp_all
    from rounds_left_Continue [OF assms cont inv(2)] inv v show ?thesis by simp
  qed
next
  case (3 j v r)
  have pos: "f \<le> (if fresh e thr s then 1 else 0) \<Longrightarrow> 0 < rounds_left e f thr s" for f thr s
    by (auto simp: rounds_left_def split: if_splits)
  from 3 show ?case by (cases v; cases r) (fastforce dest: authenticated_attempt_sent pos)
qed auto

section \<open>One request in its slot\<close>

lemma doAuthenticatedGETLocked_acquired:
  "acquired (snd (snd (doAuthenticatedGETLocked e d url u p s h))) = acquired h"
  unfolding doAuthenticatedGETLocked_def
proof (rule for_loop_rule [where I = "\<lambda>j (f, thr, s, h'). acquired h' = acquired h"], goal_cases)
  case (2 j v v')
  then show ?case by (cases v) (auto elim!: authenticated_attempt_Continue)
next
  case (3 j v r)
  then show ?case by (cases v) (auto elim!: authenticated_attempt_Return)
qed auto

lemma sendGET_acquired: "acquired (snd (sendGET e url a h)) = acquired h"
  by (cases "env_send e h url a") (simp_all add: sendGET_def)

lemma doUnauthenticatedGET_acquired:
  "acquired (snd (doUnauthenticatedGET e d url h)) = acquired h"
  unfolding doUnauthenticatedGET_def
proof (rule for_loop_rule [where I = "\<lambda>j h'. acquired h' = acquired h"], goal_cases)
  case (2 j v v')
  then show ?case
    by (auto simp: unauthenticated_attempt_def sendGET_Inr waitForContext_def drainAndClose_def
        split: prod.splits sum.splits if_splits option.splits)
next
  case (3 j v r)
  then show ?case
    using sendGET_acquired [of e url "[]" v]
    by (cases r; cases "sendGET e url [] v")
      (auto simp: unauthenticated_attempt_def sendGET_Inr waitForContext_def drainAndClose_def
        split: prod.splits sum.splits if_splits option.splits)
qed simp_all

definition client_ok :: "client \<Rightarrow> bool" where
  "client_ok c \<longleftrightarrow> (\<forall>k s. c_auth c k = Some (Some s) \<longrightarrow> session_ok s)"

lemma client_ok_upd:
  "client_ok c \<Longrightarrow> (\<And>x. s = Some x \<Longrightarrow> session_ok x) \<Longrightarrow> client_ok (c\<lparr>c_auth := (c_auth c)(k \<mapsto> s)\<rparr>)"
  by (auto simp: client_ok_def)

lemma authState_cases:
  assumes "authState key c = (s, c1)"
  shows "c_recovery c1 = c_recovery c" "c_reboots c1 = c_reboots c"
    "c_rebootCooldown c1 = c_rebootCooldown c" "c_throttleDelay c1 = c_throttleDelay c"
    "c_statusRetryDelay c1 = c_statusRetryDelay c"
    "client_ok c \<Longrightarrow> client_ok c1" "client_ok c \<Longrightarrow> s = Some x \<Longrightarrow> session_ok x"
  using assms by (auto simp: authState_def client_ok_def split: option.splits if_splits)

text \<open>What a request leaves alone in the client, and what it keeps.\<close>

definition same_settings :: "client \<Rightarrow> client \<Rightarrow> bool" where
  "same_settings c c' \<longleftrightarrow>
     c_rebootCooldown c' = c_rebootCooldown c \<and> c_throttleDelay c' = c_throttleDelay c \<and>
     c_statusRetryDelay c' = c_statusRetryDelay c"

lemma doGETWithPriority_cases:
  assumes "doGETWithPriority e c t url priority h = (res, c', h')"
  obtains (refused) err where
      "res = Inl (Wrapf ''wait for Shelly request slot'' err)" "h' = h"
      "env_acquire e h priority = Some err"
  | (open_device) r h2 where
      "doUnauthenticatedGET e (c_throttleDelay c) url (SlotAcquired priority # h) = (r, h2)"
      "res = (case r of Inl err \<Rightarrow> Inl (requestError e priority h2 err) | Inr resp \<Rightarrow> Inr resp)"
      "h' = (case r of Inl err \<Rightarrow> SlotReleased # h2 | Inr resp \<Rightarrow> h2)"
  | (digest) r s s1 pw h2 where
      "doAuthenticatedGETLocked e (c_throttleDelay c) url (digest_username t) pw s
         (SlotAcquired priority # h) = (r, s1, h2)"
      "res = (case r of Inl err \<Rightarrow> Inl (requestError e priority h2 err) | Inr resp \<Rightarrow> Inr resp)"
      "h' = (case r of Inl err \<Rightarrow> SlotReleased # h2 | Inr resp \<Rightarrow> h2)"
  using assms
  by (auto simp: doGETWithPriority_def Let_def authState_def
      split: prod.splits option.splits if_splits sum.splits)

lemma doGETWithPriority_client:
  assumes "doGETWithPriority e c t url priority h = (res, c', h')"
  shows "c_recovery c' = c_recovery c" "c_reboots c' = c_reboots c" "same_settings c c'"
  using assms
  by (auto simp: doGETWithPriority_def Let_def authState_def same_settings_def
      split: prod.splits option.splits if_splits sum.splits)

lemma doGETWithPriority_ok:
  assumes "doGETWithPriority e c t url priority h = (res, c', h')" and "client_ok c"
  shows "client_ok c'"
proof -
  obtain s c1 where s: "authState (deviceKey t) c = (s, c1)" by fastforce
  note st = authState_cases(6,7) [OF s assms(2)]
  show ?thesis
  proof (cases "env_acquire e h priority")
    case (Some err)
    with assms(1) s st show ?thesis by (simp add: doGETWithPriority_def)
  next
    case None
    have sessions: "doAuthenticatedGETLocked e d url u p s h1 = (r, s1, h2) \<Longrightarrow>
        s1 = Some x \<Longrightarrow> session_ok x" for d u p h1 r s1 h2 x
      using st(2) by (blast intro: doAuthenticatedGETLocked_session_ok)
    have "\<exists>s1. c' = c1\<lparr>c_auth := (c_auth c1)(deviceKey t \<mapsto> s1)\<rparr> \<and> (\<forall>x. s1 = Some x \<longrightarrow> session_ok x)"
    proof (cases "blank_password t")
      case True
      with assms(1) None st(2) show ?thesis
        by (intro exI [of _ s]) (auto simp: doGETWithPriority_def s Let_def split: prod.splits sum.splits)
    next
      case False
      obtain r s1 h2 where get: "doAuthenticatedGETLocked e (c_throttleDelay c1) url (digest_username t)
          (case tool_password t of None \<Rightarrow> [] | Some pw \<Rightarrow> pw) s (SlotAcquired priority # h) = (r, s1, h2)"
        by (metis prod_cases3)
      with assms(1) None False sessions [OF get] show ?thesis
        by (intro exI [of _ s1]) (auto simp: doGETWithPriority_def s Let_def split: sum.splits)
    qed
    with client_ok_upd [OF st(1)] show ?thesis by blast
  qed
qed

lemma doGETWithPriority_protocol:
  assumes "doGETWithPriority e c t url priority h = (res, c', h')"
    and "protocol h = Some (False, False)"
  shows "protocol h' = Some (case res of Inl err \<Rightarrow> (False, False) | Inr resp \<Rightarrow> (True, True))"
proof -
  have held: "protocol (SlotAcquired priority # h) = Some (True, False)" using assms(2) by simp
  from assms(1) show ?thesis
  proof (cases rule: doGETWithPriority_cases)
    case refused
    with assms(2) show ?thesis by simp
  next
    case open_device
    with doUnauthenticatedGET_protocol [OF held open_device(1)] show ?thesis
      by (auto simp: within_slot_def split: sum.splits)
  next
    case digest
    with doAuthenticatedGETLocked_protocol [OF held digest(1)] show ?thesis
      by (auto simp: within_slot_def split: sum.splits)
  qed
qed

lemma doGETWithPriority_answered:
  assumes "doGETWithPriority e c t url priority h = (Inr resp, c', h')"
  shows "answered e url h' resp"
    and "rs_code resp = StatusTooManyRequests \<Longrightarrow>
           asked_again e (c_throttleDelay c) url (SlotAcquired priority # h) h'"
  using assms
  by (auto elim!: doGETWithPriority_cases split: sum.splits
      dest: doUnauthenticatedGET_answered doAuthenticatedGETLocked_answered
        doUnauthenticatedGET_throttled doAuthenticatedGETLocked_throttled)

lemma doGETWithPriority_counts:
  assumes "doGETWithPriority e c t url priority h = (res, c', h')"
  shows "acquired h' \<le> Suc (acquired h)"
    and "sent h' \<le> sent h + maxAuthenticationAttempts"
    and "steady_clock e \<Longrightarrow> sent h' \<le> sent h + 4"
proof -
  note bounds = doUnauthenticatedGET_sent [of e "c_throttleDelay c" url "SlotAcquired priority # h"]
    doUnauthenticatedGET_acquired [of e "c_throttleDelay c" url "SlotAcquired priority # h"]
  have six: "2 \<le> maxAuthenticationAttempts" by (simp add: maxAuthenticationAttempts_def)
  have "acquired h' \<le> Suc (acquired h) \<and> sent h' \<le> sent h + maxAuthenticationAttempts
      \<and> (steady_clock e \<longrightarrow> sent h' \<le> sent h + 4)"
    using assms
  proof (cases rule: doGETWithPriority_cases)
    case open_device
    with bounds six show ?thesis by (auto split: sum.splits)
  next
    case (digest r s s1 pw h2)
    with doAuthenticatedGETLocked_sent [of e "c_throttleDelay c" url "digest_username t" pw s
        "SlotAcquired priority # h"]
      doAuthenticatedGETLocked_acquired [of e "c_throttleDelay c" url "digest_username t" pw s
        "SlotAcquired priority # h"]
      doAuthenticatedGETLocked_sent_steady [of e "c_throttleDelay c" url "digest_username t" pw s
        "SlotAcquired priority # h"]
    show ?thesis by (auto split: sum.splits)
  qed simp
  then show "acquired h' \<le> Suc (acquired h)" "sent h' \<le> sent h + maxAuthenticationAttempts"
    "steady_clock e \<Longrightarrow> sent h' \<le> sent h + 4" by simp_all
qed

end
