(* ===== verification/Shelly_Client.thy ===== *)
theory Shelly_Client
  imports Shelly_Requests
begin

text \<open>
  The operations of the Shelly client (internal/shelly/client.go): GetStatus and
  GetStatusAdmin with their retry, Set, Reboot, the classification of errors worth a retry,
  and the recovery a locked or throttled device triggers. \<open>c_reboots\<close> holds the reboots whose
  goroutine was started and has not run yet; \<open>run_reboot\<close> is that goroutine.
\<close>

section \<open>Failed responses\<close>

text \<open>
  Reading a body stops after 4096 bytes, so its end is seen only before that, or with the last of
  them. The body of an admin request reports that the request was preempted in place of whatever
  ends it, io.EOF included (\<open>contextCauseBody\<close>).
\<close>

definition read_body ::
  "env \<Rightarrow> requestPriority \<Rightarrow> io list \<Rightarrow> response \<Rightarrow> string \<times> go_error option" where
  "read_body e priority h resp =
     (take maxResponseBodyBytes (rs_body resp),
      if length (rs_body resp) < maxResponseBodyBytes
         \<or> length (rs_body resp) = maxResponseBodyBytes \<and> rs_end_with_data resp
      then (if priority = PriorityAdmin \<and> env_deferred e h then Some ErrAdminStatusDeferred
            else rs_body_error resp)
      else None)"

definition responseHTTPError ::
  "env \<Rightarrow> requestPriority \<Rightarrow> io list \<Rightarrow> string \<Rightarrow> response \<Rightarrow> go_error" where
  "responseHTTPError e priority h operation resp =
     HTTPErr \<lparr>he_operation = operation, he_status_code = rs_code resp,
       he_status = rs_status resp,
       he_body = (case read_body e priority h resp of
          (body, None) \<Rightarrow> body
        | (body, Some err) \<Rightarrow> ''failed to read error response: '' @ error_text err)\<rparr>"

definition handleHTTPError ::
  "env \<Rightarrow> tool \<Rightarrow> go_error \<Rightarrow> io list \<Rightarrow> client \<Rightarrow> client" where
  "handleHTTPError e t err h c =
     (if \<not> RequiresReboot (Some err) then c
      else
        (case scheduleReboot (c_rebootCooldown c) (tool_ip t) (env_now e h) (c_recovery c) of
           (RebootScheduled k, m) \<Rightarrow> c\<lparr>c_recovery := m, c_reboots := c_reboots c @ [t]\<rparr>
         | (_, m) \<Rightarrow> c\<lparr>c_recovery := m\<rparr>))"

section \<open>Status\<close>

definition as_certificate_error :: "go_error \<Rightarrow> unit option" where
  "as_certificate_error err = (case err of CertificateVerification inner \<Rightarrow> Some () | _ \<Rightarrow> None)"

definition as_unknown_authority :: "go_error \<Rightarrow> unit option" where
  "as_unknown_authority err = (case err of UnknownAuthority msg \<Rightarrow> Some () | _ \<Rightarrow> None)"

definition as_hostname_error :: "go_error \<Rightarrow> unit option" where
  "as_hostname_error err = (case err of HostnameError msg \<Rightarrow> Some () | _ \<Rightarrow> None)"

definition shouldRetryStatus :: "bool \<Rightarrow> go_error option \<Rightarrow> bool" where
  "shouldRetryStatus ctx_err err =
     (if errors_Is err ErrAdminStatusDeferred then False
      else if err = None \<or> ctx_err then False
      else if errors_As as_certificate_error err \<noteq> None then False
      else if errors_As as_unknown_authority err \<noteq> None then False
      else if errors_As as_hostname_error err \<noteq> None then False
      else if errors_As as_net_error err = Some True then True
      else errors_Is err EOF \<or> errors_Is err UnexpectedEOF \<or> errors_Is err (Errno ECONNRESET)
        \<or> errors_Is err (Errno ECONNREFUSED) \<or> errors_Is err (Errno EPIPE))"

definition getStatusOnceWithPriority ::
  "env \<Rightarrow> client \<Rightarrow> tool \<Rightarrow> string \<Rightarrow> requestPriority \<Rightarrow> io list
     \<Rightarrow> (go_error + switch_status) \<times> client \<times> io list" where
  "getStatusOnceWithPriority e c t url priority h =
     (case doGETWithPriority e c t url priority h of
        (Inl err, c1, h1) \<Rightarrow> (Inl err, c1, h1)
      | (Inr resp, c1, h1) \<Rightarrow>
          if rs_code resp < 200 \<or> 300 \<le> rs_code resp then
            let err = responseHTTPError e priority h1 ''status'' resp
            in (Inl err, handleHTTPError e t err h1 c1, close_response h1)
          else
            (case env_json e (fst (read_body e priority h1 resp))
                    (snd (read_body e priority h1 resp)) of
               Inl err \<Rightarrow>
                 (Inl (Wrapf ''decode Shelly status response'' err), c1, close_response h1)
             | Inr status \<Rightarrow> (Inr status, c1, close_response h1)))"

definition status_attempt ::
  "env \<Rightarrow> tool \<Rightarrow> string \<Rightarrow> requestPriority \<Rightarrow> nat \<Rightarrow> client \<times> io list \<times> go_error option
     \<Rightarrow> (client \<times> io list \<times> go_error option,
         (go_error + switch_status) \<times> client \<times> io list) flow" where
  "status_attempt e t url priority attempt v =
     (case v of (c, h, lastErr) \<Rightarrow>
        case getStatusOnceWithPriority e c t url priority h of
          (Inr status, c1, h1) \<Rightarrow> Return (Inr status, c1, h1)
        | (Inl err, c1, h1) \<Rightarrow>
            if attempt = maxStatusAttempts \<or> \<not> shouldRetryStatus (env_ctx_err e h1) (Some err)
            then Return (Inl err, c1, h1)
            else
              (case waitForContext e (c_statusRetryDelay c1) h1 of
                 (Some werr, h2) \<Rightarrow>
                   Return (Inl (Wrapf ''wait before Shelly status retry'' werr), c1, h2)
               | (None, h2) \<Rightarrow> Continue (c1, h2, Some err)))"

text \<open>
  After the loop the code returns the last error, which only an empty loop would leave nil;
  the model's value for that case, a plain error, is never produced.
\<close>

definition getStatus ::
  "env \<Rightarrow> client \<Rightarrow> tool \<Rightarrow> requestPriority \<Rightarrow> io list
     \<Rightarrow> (go_error + switch_status) \<times> client \<times> io list" where
  "getStatus e c t priority h =
     (case rpcURL t ''Switch.GetStatus'' (''id='' @ Itoa (tool_switch_id t)) of
        Inl err \<Rightarrow> (Inl err, c, h)
      | Inr url \<Rightarrow>
          for_loop maxStatusAttempts 1 (status_attempt e t url priority)
            (\<lambda>(c, h, lastErr).
               (Inl (case lastErr of None \<Rightarrow> Plain [] | Some err \<Rightarrow> err), c, h))
            (c, h, None))"

definition GetStatus where "GetStatus e c t h = getStatus e c t PriorityFBS h"
definition GetStatusAdmin where "GetStatusAdmin e c t h = getStatus e c t PriorityAdmin h"

section \<open>Commands\<close>

definition Set_output ::
  "env \<Rightarrow> client \<Rightarrow> tool \<Rightarrow> bool \<Rightarrow> io list \<Rightarrow> go_error option \<times> client \<times> io list" where
  "Set_output e c t on h =
     (case rpcURL t ''Switch.Set''
             (''id='' @ Itoa (tool_switch_id t) @ ''&on='' @ FormatBool on) of
        Inl err \<Rightarrow> (Some err, c, h)
      | Inr url \<Rightarrow>
          (case doGETWithPriority e c t url PriorityFBS h of
             (Inl err, c1, h1) \<Rightarrow> (Some err, c1, h1)
           | (Inr resp, c1, h1) \<Rightarrow>
               if rs_code resp < 200 \<or> 300 \<le> rs_code resp then
                 let err = responseHTTPError e PriorityFBS h1 ''set'' resp
                 in (Some err, handleHTTPError e t err h1 c1, close_response h1)
               else (None, c1, close_response h1)))"

definition Reboot ::
  "env \<Rightarrow> client \<Rightarrow> tool \<Rightarrow> io list \<Rightarrow> go_error option \<times> client \<times> io list" where
  "Reboot e c t h =
     (case rpcURL t ''Shelly.Reboot'' ''delay_ms=500'' of
        Inl err \<Rightarrow> (Some err, c, h)
      | Inr url \<Rightarrow>
          (case doGETWithPriority e c t url PriorityFBS h of
             (Inl err, c1, h1) \<Rightarrow> (Some err, c1, h1)
           | (Inr resp, c1, h1) \<Rightarrow>
               if rs_code resp < 200 \<or> 300 \<le> rs_code resp
               then (Some (responseHTTPError e PriorityFBS h1 ''reboot'' resp), c1,
                     close_response h1)
               else (None, c1, close_response h1)))"

definition run_reboot ::
  "env \<Rightarrow> client \<Rightarrow> tool \<Rightarrow> io list \<Rightarrow> go_error option \<times> client \<times> io list" where
  "run_reboot e c t h =
     (case Reboot e c t h of
        (err, c1, h1) \<Rightarrow>
          (err, c1\<lparr>c_recovery := reboot_finished (TrimSpace (tool_ip t)) (c_recovery c1)\<rparr>, h1))"

section \<open>Lemmas\<close>

lemma handleHTTPError_same [simp]:
  "c_auth (handleHTTPError e t err h c) = c_auth c"
  "c_statusRetryDelay (handleHTTPError e t err h c) = c_statusRetryDelay c"
  "client_ok (handleHTTPError e t err h c) = client_ok c"
  by (auto simp: handleHTTPError_def client_ok_def split: prod.splits reboot_decision.splits)

lemma close_response_protocol [simp]:
  "protocol h = Some (True, True) \<Longrightarrow> protocol (close_response h) = Some (False, False)"
  by (simp add: close_response_def)

lemma close_response_counts [simp]:
  "acquired (close_response h) = acquired h" "sent (close_response h) = sent h"
  by (simp_all add: close_response_def)

lemma getStatusOnce_get:
  assumes "getStatusOnceWithPriority e c t url priority h = (res, c', h')"
  obtains (failed) err where
      "doGETWithPriority e c t url priority h = (Inl err, c', h')" "res = Inl err"
  | (answer) resp c1 h1 where
      "doGETWithPriority e c t url priority h = (Inr resp, c1, h1)" "h' = close_response h1"
      "c' = c1 \<or> (c' = handleHTTPError e t (responseHTTPError e priority h1 ''status'' resp) h1 c1
         \<and> res = Inl (responseHTTPError e priority h1 ''status'' resp))"
      "\<And>x. res = Inr x \<Longrightarrow> 200 \<le> rs_code resp \<and> rs_code resp < 300
         \<and> env_json e (fst (read_body e priority h1 resp)) (snd (read_body e priority h1 resp)) = Inr x"
proof (cases "doGETWithPriority e c t url priority h")
  case (fields r c1 h1)
  with assms show ?thesis
    by (cases r)
      (auto simp: getStatusOnceWithPriority_def Let_def intro: failed answer
        split: if_splits sum.splits)
qed

lemma getStatusOnce_facts:
  assumes "getStatusOnceWithPriority e c t url priority h = (res, c', h')"
  shows "protocol h = Some (False, False) \<Longrightarrow> protocol h' = Some (False, False)"
    and "client_ok c \<Longrightarrow> client_ok c'"
    and "acquired h' \<le> Suc (acquired h)"
    and "sent h' \<le> sent h + maxAuthenticationAttempts"
    and "steady_clock e \<Longrightarrow> sent h' \<le> sent h + 4"
  using assms
  by (auto elim!: getStatusOnce_get dest: doGETWithPriority_protocol doGETWithPriority_ok
      doGETWithPriority_counts)

text \<open>The retry loop, unrolled.\<close>

lemma getStatus_unroll:
  assumes "rpcURL t ''Switch.GetStatus'' (''id='' @ Itoa (tool_switch_id t)) = Inr url"
  shows "getStatus e c t priority h =
    (case getStatusOnceWithPriority e c t url priority h of
       (Inr status, c1, h1) \<Rightarrow> (Inr status, c1, h1)
     | (Inl err, c1, h1) \<Rightarrow>
         if \<not> shouldRetryStatus (env_ctx_err e h1) (Some err) then (Inl err, c1, h1)
         else
           (case waitForContext e (c_statusRetryDelay c1) h1 of
              (Some werr, h2) \<Rightarrow> (Inl (Wrapf ''wait before Shelly status retry'' werr), c1, h2)
            | (None, h2) \<Rightarrow> getStatusOnceWithPriority e c1 t url priority h2))"
  using assms
  by (auto simp: getStatus_def maxStatusAttempts_def numeral_2_eq_2 status_attempt_def
      split: prod.splits sum.splits option.splits)

lemma getStatus_no_url:
  "rpcURL t ''Switch.GetStatus'' (''id='' @ Itoa (tool_switch_id t)) = Inl err \<Longrightarrow>
   getStatus e c t priority h = (Inl err, c, h)"
  by (simp add: getStatus_def)

text \<open>What the code does once or twice in a row, with a wait between, it does as a whole.\<close>

lemma getStatus_once_or_twice:
  assumes once: "\<And>url c h res c' h'. P c h \<Longrightarrow>
      getStatusOnceWithPriority e c t url priority h = (res, c', h') \<Longrightarrow> P1 c' h'"
    and wait: "\<And>c h d. P1 c h \<Longrightarrow> P2 c (WaitedFor d # h)"
    and again: "\<And>url c h res c' h'. P2 c h \<Longrightarrow>
      getStatusOnceWithPriority e c t url priority h = (res, c', h') \<Longrightarrow> Q c' h'"
    and stop: "\<And>c h. P c h \<Longrightarrow> Q c h" "\<And>c h. P1 c h \<Longrightarrow> Q c h" "\<And>c h. P2 c h \<Longrightarrow> Q c h"
    and start: "P c h" and res: "getStatus e c t priority h = (res, c', h')"
  shows "Q c' h'"
proof (cases "rpcURL t ''Switch.GetStatus'' (''id='' @ Itoa (tool_switch_id t))")
  case (Inl err)
  with res start stop show ?thesis by (simp add: getStatus_no_url)
next
  case (Inr url)
  obtain r1 c1 h1 where first: "getStatusOnceWithPriority e c t url priority h = (r1, c1, h1)"
    by (metis prod_cases3)
  from once [OF start first] have P1: "P1 c1 h1" .
  show ?thesis
    using res first P1 stop wait [OF P1]
    by (auto simp: getStatus_unroll [OF Inr] waitForContext_def
        dest: again [OF wait [OF P1]] split: sum.splits if_splits option.splits)
qed

lemma getStatus_protocol:
  assumes "protocol h = Some (False, False)" and "getStatus e c t priority h = (res, c', h')"
  shows "protocol h' = Some (False, False)"
  using assms
  by - (rule getStatus_once_or_twice
      [where P = "\<lambda>c h. protocol h = Some (False, False)"
         and ?P1.0 = "\<lambda>c h. protocol h = Some (False, False)"
         and ?P2.0 = "\<lambda>c h. protocol h = Some (False, False)"];
      auto dest: getStatusOnce_facts(1))

lemma getStatus_ok:
  assumes "client_ok c" and "getStatus e c t priority h = (res, c', h')"
  shows "client_ok c'"
  using assms
  by - (rule getStatus_once_or_twice [where P = "\<lambda>c h. client_ok c"
         and ?P1.0 = "\<lambda>c h. client_ok c" and ?P2.0 = "\<lambda>c h. client_ok c"];
      auto dest: getStatusOnce_facts(2))

lemma getStatus_acquired:
  assumes "getStatus e c t priority h = (res, c', h')"
  shows "acquired h' \<le> acquired h + 2"
  using assms
  by - (rule getStatus_once_or_twice [where P = "\<lambda>c x. acquired x \<le> acquired h"
         and ?P1.0 = "\<lambda>c x. acquired x \<le> acquired h + 1"
         and ?P2.0 = "\<lambda>c x. acquired x \<le> acquired h + 1"];
      force dest: getStatusOnce_facts(3))

lemma getStatus_sent:
  assumes "getStatus e c t priority h = (res, c', h')"
    and "\<And>url c h res c' h'. getStatusOnceWithPriority e c t url priority h = (res, c', h') \<Longrightarrow>
      sent h' \<le> sent h + k"
  shows "sent h' \<le> sent h + 2 * k"
  using assms(1)
  by - (rule getStatus_once_or_twice [where P = "\<lambda>c x. sent x \<le> sent h"
         and ?P1.0 = "\<lambda>c x. sent x \<le> sent h + k"
         and ?P2.0 = "\<lambda>c x. sent x \<le> sent h + k"];
      force dest: assms(2))

lemma command_cases:
  assumes "Set_output e c t on h = (err, c', h') \<or> Reboot e c t h = (err, c', h')"
  obtains (no_url) x where "err = Some x" "c' = c" "h' = h"
  | (failed) url x where "doGETWithPriority e c t url PriorityFBS h = (Inl x, c', h')" "err = Some x"
  | (answer) url resp c1 h1 where
      "doGETWithPriority e c t url PriorityFBS h = (Inr resp, c1, h1)" "h' = close_response h1"
      "c' = c1 \<or> c' = handleHTTPError e t (responseHTTPError e PriorityFBS h1 ''set'' resp) h1 c1"
  using assms
  by (auto simp: Set_output_def Reboot_def Let_def
      split: sum.splits prod.splits if_splits)

lemma command_protocol:
  assumes "protocol h = Some (False, False)"
    and "Set_output e c t on h = (err, c', h') \<or> Reboot e c t h = (err, c', h')"
  shows "protocol h' = Some (False, False)"
  using assms(2)
  by (cases rule: command_cases) (use assms(1) in \<open>auto dest: doGETWithPriority_protocol\<close>)

lemma command_ok:
  assumes "client_ok c"
    and "Set_output e c t on h = (err, c', h') \<or> Reboot e c t h = (err, c', h')"
  shows "client_ok c'"
  using assms(2)
  by (cases rule: command_cases) (use assms(1) in \<open>auto dest: doGETWithPriority_ok\<close>)

lemma command_sent:
  assumes "Set_output e c t on h = (err, c', h') \<or> Reboot e c t h = (err, c', h')"
  shows "sent h' \<le> sent h + maxAuthenticationAttempts
    \<and> (steady_clock e \<longrightarrow> sent h' \<le> sent h + 4)"
  using assms
proof (cases rule: command_cases)
  case no_url
  then show ?thesis by simp
next
  case (failed url x)
  from doGETWithPriority_counts(2,3) [OF failed(1)] show ?thesis by simp
next
  case (answer url resp c1 h1)
  from doGETWithPriority_counts(2,3) [OF answer(1)] answer(2) show ?thesis by simp
qed

section \<open>Properties\<close>

text \<open>
  C3. A device is never asked two things at once, and nothing leaks: each of GetStatus,
  GetStatusAdmin, Set, Reboot, whatever device, network and scheduler do, sends its requests
  only while it holds the device's slot and with the body of the response before closed, waits
  with no body open, and ends with the slot given back and every body closed, errors included.
\<close>

theorem device_slot_and_bodies_balanced:
  assumes "protocol h = Some (False, False)"
  shows "protocol (snd (snd (GetStatus e c t h))) = Some (False, False)
    \<and> protocol (snd (snd (GetStatusAdmin e c t h))) = Some (False, False)
    \<and> protocol (snd (snd (Set_output e c t on h))) = Some (False, False)
    \<and> protocol (snd (snd (Reboot e c t h))) = Some (False, False)"
proof (intro conjI)
  show "protocol (snd (snd (GetStatus e c t h))) = Some (False, False)"
    unfolding GetStatus_def using getStatus_protocol [OF assms] by (metis prod.collapse)
  show "protocol (snd (snd (GetStatusAdmin e c t h))) = Some (False, False)"
    unfolding GetStatusAdmin_def using getStatus_protocol [OF assms] by (metis prod.collapse)
next
  show "protocol (snd (snd (Set_output e c t on h))) = Some (False, False)"
    using command_protocol [OF assms] by (metis prod.collapse)
  show "protocol (snd (snd (Reboot e c t h))) = Some (False, False)"
    using command_protocol [OF assms] by (metis prod.collapse)
qed

text \<open>A tool, a client and a device that answers every request with 200, for concrete runs.\<close>

definition lab_tool :: tool where
  "lab_tool = \<lparr>tool_interlock_name = ''laser'', tool_ip = ''10.0.0.7'', tool_protocol = ''http'',
     tool_port = 8081, tool_switch_id = 0, tool_username = None, tool_password = None,
     tool_enabled = True\<rparr>"

definition new_client :: client where
  "new_client = \<lparr>c_statusRetryDelay = 150000000, c_throttleDelay = 2000000000,
     c_rebootCooldown = defaultRebootCooldown, c_auth = Map.empty, c_recovery = Map.empty,
     c_reboots = []\<rparr>"

definition answering :: "int \<Rightarrow> env" where
  "answering code = \<lparr>
     env_send = (\<lambda>h u a. Responded \<lparr>rs_code = code, rs_status = [], rs_www_authenticate = [],
       rs_body = [], rs_body_error = None, rs_end_with_data = True\<rparr>),
     env_host = (\<lambda>u. []), env_uri = Inr, env_wait = (\<lambda>h d. None), env_now = (\<lambda>h. 0),
     env_rand = (\<lambda>h. Inr []), env_acquire = (\<lambda>h p. None), env_deferred = (\<lambda>h. False),
     env_ctx_err = (\<lambda>h. False), env_sha = (\<lambda>s. []),
     env_json = (\<lambda>s err. Inr \<lparr>sw_ID = 0, sw_Output = True\<rparr>)\<rparr>"

lemma lab_url:
  "rpcURL lab_tool m q =
     (if TrimSpace m = [] then Inl (Plain ''shelly RPC method is empty'')
      else Inr (''http://10.0.0.7/rpc/'' @ m @ ''?'' @ q))"
proof -
  have "TrimSpace ''10.0.0.7'' = ''10.0.0.7''" "ToolProtocol lab_tool = ''http''"
    "\<not> Contains ''10.0.0.7'' ''://''" "escapeHost ''10.0.0.7'' = ''10.0.0.7''"
    by code_simp+
  then show ?thesis by (simp add: rpcURL_def lab_tool_def Let_def)
qed

theorem device_slot_and_bodies_balanced_witness:
  "protocol (snd (snd (GetStatus (answering 429) new_client lab_tool []))) = Some (False, False)
   \<and> protocol (snd (snd (Set_output (answering 200) new_client lab_tool True []))) = Some (False, False)"
  using device_slot_and_bodies_balanced [of "[]" "answering 429" new_client lab_tool]
    device_slot_and_bodies_balanced [of "[]" "answering 200" new_client lab_tool True]
  by simp

text \<open>
  C17. The work of one operation is bounded, whatever the device answers: a status takes the
  slot at most twice and sends at most twelve requests, a command at most six; while the clock
  moves less than the age of a digest session, at most eight and four.
\<close>

theorem requests_bounded:
  "acquired (snd (snd (getStatus e c t priority h))) \<le> acquired h + 2
   \<and> sent (snd (snd (getStatus e c t priority h))) \<le> sent h + 12
   \<and> sent (snd (snd (Set_output e c t on h))) \<le> sent h + 6
   \<and> sent (snd (snd (Reboot e c t h))) \<le> sent h + 6
   \<and> (steady_clock e \<longrightarrow>
        sent (snd (snd (getStatus e c t priority h))) \<le> sent h + 8
        \<and> sent (snd (snd (Set_output e c t on h))) \<le> sent h + 4
        \<and> sent (snd (snd (Reboot e c t h))) \<le> sent h + 4)"
proof -
  obtain r c1 h1 where status: "getStatus e c t priority h = (r, c1, h1)" by (metis prod_cases3)
  obtain s c2 h2 where set: "Set_output e c t on h = (s, c2, h2)" by (metis prod_cases3)
  obtain b c3 h3 where reboot: "Reboot e c t h = (b, c3, h3)" by (metis prod_cases3)
  show ?thesis
    using getStatus_acquired [OF status] getStatus_sent [OF status getStatusOnce_facts(4)]
      getStatus_sent [OF status getStatusOnce_facts(5)]
      command_sent [OF disjI1 [OF set]] command_sent [OF disjI2 [OF reboot]]
    by (simp add: status set reboot maxAuthenticationAttempts_def)
qed

lemma steady_answering: "steady_clock (answering code)"
  by (simp add: steady_clock_def answering_def digestSessionMaxAge_def)

theorem requests_bounded_witness:
  "sent (snd (snd (getStatus (answering 401) new_client lab_tool PriorityFBS []))) \<le> 8"
  using requests_bounded [of "answering 401" new_client lab_tool PriorityFBS "[]" True]
  by (simp add: steady_answering)

lemma Set_output_history:
  assumes "Set_output e c t on h = (None, c', h')"
  shows "\<exists>url auth resp h0.
     rpcURL t ''Switch.Set'' (''id='' @ Itoa (tool_switch_id t) @ ''&on='' @ FormatBool on) = Inr url
     \<and> h' = SlotReleased # BodyClosed # BodyOpened # RequestSent url auth # h0
     \<and> env_send e h0 url auth = Responded resp \<and> 200 \<le> rs_code resp \<and> rs_code resp < 300"
  using assms
  by (fastforce simp: Set_output_def Let_def close_response_def
      dest!: doGETWithPriority_answered(1) [unfolded answered_def]
      split: sum.splits prod.splits if_splits)

text \<open>
  C19. Set reports success only for a command the device acknowledged: the last request it
  sent is Switch.Set with this tool's switch and the wanted value, and the answer to it is 2xx.
\<close>

theorem Set_acknowledged:
  assumes "Set_output e c t on h = (None, c', h')"
  shows "\<exists>url auth resp h0.
     rpcURL t ''Switch.Set'' (''id='' @ Itoa (tool_switch_id t) @ ''&on='' @ FormatBool on) = Inr url
     \<and> h' = SlotReleased # BodyClosed # BodyOpened # RequestSent url auth # h0
     \<and> env_send e h0 url auth = Responded resp \<and> 200 \<le> rs_code resp \<and> rs_code resp < 300"
  using assms by (rule Set_output_history)

theorem Set_acknowledged_witness:
  "\<exists>url auth resp h0.
     rpcURL lab_tool ''Switch.Set'' (''id='' @ Itoa (tool_switch_id lab_tool) @ ''&on='' @ FormatBool True) = Inr url
     \<and> snd (snd (Set_output (answering 200) new_client lab_tool True []))
         = SlotReleased # BodyClosed # BodyOpened # RequestSent url auth # h0
     \<and> env_send (answering 200) h0 url auth = Responded resp \<and> 200 \<le> rs_code resp \<and> rs_code resp < 300"
proof -
  have "fst (Set_output (answering 200) new_client lab_tool True []) = None" by code_simp
  then show ?thesis
    using Set_acknowledged [of "answering 200" new_client lab_tool True "[]"] by (metis prod.collapse)
qed

lemma getStatusOnce_reported:
  assumes "getStatusOnceWithPriority e c t url priority h = (Inr status, c', h')"
  shows "\<exists>auth resp h0.
     h' = SlotReleased # BodyClosed # BodyOpened # RequestSent url auth # h0
     \<and> env_send e h0 url auth = Responded resp \<and> 200 \<le> rs_code resp \<and> rs_code resp < 300
     \<and> env_json e (take 4096 (rs_body resp))
         (snd (read_body e priority (BodyOpened # RequestSent url auth # h0) resp)) = Inr status"
  using assms
  by (cases rule: getStatusOnce_get)
    (fastforce simp: close_response_def read_body_def maxResponseBodyBytes_def
      dest!: doGETWithPriority_answered(1) [unfolded answered_def])+

lemma getStatus_history:
  assumes "getStatus e c t priority h = (Inr status, c', h')"
  shows "\<exists>url auth resp h0.
     rpcURL t ''Switch.GetStatus'' (''id='' @ Itoa (tool_switch_id t)) = Inr url
     \<and> h' = SlotReleased # BodyClosed # BodyOpened # RequestSent url auth # h0
     \<and> env_send e h0 url auth = Responded resp \<and> 200 \<le> rs_code resp \<and> rs_code resp < 300
     \<and> env_json e (take 4096 (rs_body resp))
         (snd (read_body e priority (BodyOpened # RequestSent url auth # h0) resp)) = Inr status"
proof (cases "rpcURL t ''Switch.GetStatus'' (''id='' @ Itoa (tool_switch_id t))")
  case (Inl err)
  with assms show ?thesis by (simp add: getStatus_no_url)
next
  case (Inr url)
  have "\<exists>c h. getStatusOnceWithPriority e c t url priority h = (Inr status, c', h')"
    using assms by (auto simp: getStatus_unroll [OF Inr] waitForContext_def
        split: sum.splits prod.splits if_splits option.splits)
  then show ?thesis using Inr getStatusOnce_reported by blast
qed

text \<open>
  C18. A status is what the device said: GetStatus and GetStatusAdmin return a status only when
  the last request sent is Switch.GetStatus for this tool's switch, its answer is 2xx, and the
  status is what the decoder reads in the first 4096 bytes of that answer's body.
\<close>

theorem status_reported_by_device:
  assumes "getStatus e c t priority h = (Inr status, c', h')"
  shows "\<exists>url auth resp h0.
     rpcURL t ''Switch.GetStatus'' (''id='' @ Itoa (tool_switch_id t)) = Inr url
     \<and> h' = SlotReleased # BodyClosed # BodyOpened # RequestSent url auth # h0
     \<and> env_send e h0 url auth = Responded resp \<and> 200 \<le> rs_code resp \<and> rs_code resp < 300
     \<and> env_json e (take 4096 (rs_body resp))
         (snd (read_body e priority (BodyOpened # RequestSent url auth # h0) resp)) = Inr status"
  using assms by (rule getStatus_history)

theorem status_reported_by_device_witness:
  "\<exists>url auth resp h0.
     rpcURL lab_tool ''Switch.GetStatus'' (''id='' @ Itoa (tool_switch_id lab_tool)) = Inr url
     \<and> snd (snd (getStatus (answering 200) new_client lab_tool PriorityAdmin []))
         = SlotReleased # BodyClosed # BodyOpened # RequestSent url auth # h0
     \<and> env_send (answering 200) h0 url auth = Responded resp \<and> 200 \<le> rs_code resp \<and> rs_code resp < 300
     \<and> env_json (answering 200) (take 4096 (rs_body resp))
         (snd (read_body (answering 200) PriorityAdmin (BodyOpened # RequestSent url auth # h0) resp))
       = Inr \<lparr>sw_ID = 0, sw_Output = True\<rparr>"
proof -
  have "fst (getStatus (answering 200) new_client lab_tool PriorityAdmin [])
      = Inr \<lparr>sw_ID = 0, sw_Output = True\<rparr>" by code_simp
  then show ?thesis
    using status_reported_by_device [of "answering 200" new_client lab_tool PriorityAdmin "[]"]
    by (metis prod.collapse)
qed

text \<open>
  The errors a status request must not repeat: the deferral of an admin request to production
  traffic, a server that cannot prove who it is, and an HTTP status the device answered with.
\<close>

fun final_error :: "go_error \<Rightarrow> bool" where
  "final_error ErrAdminStatusDeferred = True"
| "final_error (CertificateVerification inner) = True"
| "final_error (UnknownAuthority msg) = True"
| "final_error (HostnameError msg) = True"
| "final_error (HTTPErr r) = True"
| "final_error _ = False"

lemma errors_As_in:
  assumes "x \<in> set (error_chain err)" and "cast x \<noteq> None"
  shows "errors_As cast (Some err) \<noteq> None"
proof -
  from assms obtain y where y: "find (\<lambda>x. cast x \<noteq> None) (error_chain err) = Some y"
    by (cases "find (\<lambda>x. cast x \<noteq> None) (error_chain err)") (auto simp: find_None_iff)
  then have "cast y \<noteq> None" by (auto simp: find_Some_iff)
  with y show ?thesis by (simp add: errors_As_def del: not_None_eq)
qed

lemma http_error_timeout:
  "HTTPErr r \<in> set (error_chain err) \<Longrightarrow> as_net_error err \<noteq> Some True"
  by (induction err) auto

lemma http_error_no_timeout:
  assumes "HTTPErr r \<in> set (error_chain err)"
  shows "errors_As as_net_error (Some err) \<noteq> Some True"
  using assms
proof (induction err)
  case (OpErr p err)
  then show ?case using http_error_timeout [of r "OpErr p err"] by (simp add: errors_As_def)
qed (auto simp: errors_As_def)

lemma http_error_leaf:
  "HTTPErr r \<in> set (error_chain err) \<Longrightarrow> error_chain leaf = [leaf] \<Longrightarrow>
   leaf \<in> set (error_chain err) \<Longrightarrow> leaf = HTTPErr r"
  by (induction err) auto

lemma http_error_not_transport:
  assumes "HTTPErr r \<in> set (error_chain err)"
  shows "\<not> errors_Is (Some err) EOF" "\<not> errors_Is (Some err) UnexpectedEOF"
    "\<not> errors_Is (Some err) (Errno n)"
  using http_error_leaf [OF assms, of EOF] http_error_leaf [OF assms, of UnexpectedEOF]
    http_error_leaf [OF assms, of "Errno n"] by (auto simp: errors_Is_def)

lemma final_not_retried:
  assumes "x \<in> set (error_chain err)" and "final_error x"
  shows "\<not> shouldRetryStatus ctx_err (Some err)"
proof (cases x)
  case (HTTPErr r)
  with assms(1) have "HTTPErr r \<in> set (error_chain err)" by simp
  from http_error_no_timeout [OF this] http_error_not_transport [OF this]
  show ?thesis by (simp add: shouldRetryStatus_def)
next
  case ErrAdminStatusDeferred
  with assms(1) show ?thesis by (simp add: shouldRetryStatus_def errors_Is_def)
next
  case (CertificateVerification inner)
  then have "errors_As as_certificate_error (Some err) \<noteq> None"
    by (intro errors_As_in [OF assms(1)]) (simp add: as_certificate_error_def)
  then show ?thesis by (simp add: shouldRetryStatus_def)
next
  case (UnknownAuthority msg)
  then have "errors_As as_unknown_authority (Some err) \<noteq> None"
    by (intro errors_As_in [OF assms(1)]) (simp add: as_unknown_authority_def)
  then show ?thesis by (simp add: shouldRetryStatus_def)
next
  case (HostnameError msg)
  then have "errors_As as_hostname_error (Some err) \<noteq> None"
    by (intro errors_As_in [OF assms(1)]) (simp add: as_hostname_error_def)
  then show ?thesis by (simp add: shouldRetryStatus_def)
qed (use assms(2) in auto)

text \<open>
  C20. Errors that a second try cannot cure end the operation at once: when the first attempt
  fails with the deferral of an admin request, a certificate that does not verify, or an HTTP
  status (however deep it is wrapped), that error is the result, with no wait and no second
  request.
\<close>

theorem final_errors_end_the_status:
  assumes "rpcURL t ''Switch.GetStatus'' (''id='' @ Itoa (tool_switch_id t)) = Inr url"
    and "getStatusOnceWithPriority e c t url priority h = (Inl err, c1, h1)"
    and "x \<in> set (error_chain err)" and "final_error x"
  shows "getStatus e c t priority h = (Inl err, c1, h1)"
  using final_not_retried [OF assms(3,4)] by (simp add: getStatus_unroll [OF assms(1)] assms(2))

theorem final_errors_end_the_status_witness:
  "fst (getStatus (answering 423) new_client lab_tool PriorityFBS [])
     = Inl (HTTPErr \<lparr>he_operation = ''status'', he_status_code = 423, he_status = [], he_body = []\<rparr>)"
proof -
  define err where
    "err = HTTPErr \<lparr>he_operation = ''status'', he_status_code = 423, he_status = [], he_body = []\<rparr>"
  have url: "rpcURL lab_tool ''Switch.GetStatus'' (''id='' @ Itoa (tool_switch_id lab_tool))
      = Inr ''http://10.0.0.7/rpc/Switch.GetStatus?id=0''" by code_simp
  have "fst (getStatusOnceWithPriority (answering 423) new_client lab_tool
      ''http://10.0.0.7/rpc/Switch.GetStatus?id=0'' PriorityFBS [])
      = Inl (HTTPErr \<lparr>he_operation = ''status'', he_status_code = 423, he_status = [], he_body = []\<rparr>)"
    by code_simp
  then have "fst (getStatusOnceWithPriority (answering 423) new_client lab_tool
      ''http://10.0.0.7/rpc/Switch.GetStatus?id=0'' PriorityFBS []) = Inl err"
    by (simp only: err_def)
  then have "fst (getStatus (answering 423) new_client lab_tool PriorityFBS []) = Inl err"
    using final_errors_end_the_status [OF url, where x = err and err = err]
    by (metis err_def error_chain.simps(5) final_error.simps(5) list.set_intros(1) prod.collapse)
  then show ?thesis by (simp only: err_def)
qed

text \<open>What a failed response does to the recovery of the device.\<close>

definition reboot_cause :: "go_error \<Rightarrow> bool" where
  "reboot_cause err \<longleftrightarrow> (\<exists>r. err = HTTPErr r \<and> he_status_code r \<in> {423, 429})"

lemma handleHTTPError_cases:
  obtains (nothing) "c_reboots (handleHTTPError e t err h c) = c_reboots c"
      "c_recovery (handleHTTPError e t err h c) = c_recovery c"
  | (scheduled) "c_reboots (handleHTTPError e t err h c) = c_reboots c @ [t]"
      "RequiresReboot (Some err)" "TrimSpace (tool_ip t) \<noteq> []"
      "\<not> inFlight (recovery_of (c_recovery c) (TrimSpace (tool_ip t)))"
      "inFlight (recovery_of (c_recovery (handleHTTPError e t err h c)) (TrimSpace (tool_ip t)))"
proof (cases "RequiresReboot (Some err)")
  case False
  then show ?thesis by - (rule nothing; simp add: handleHTTPError_def)
next
  case True
  show ?thesis
  proof (cases "c_rebootCooldown c" "tool_ip t" "env_now e h" "c_recovery c" rule: scheduleReboot_cases)
    case suppressed
    then have "handleHTTPError e t err h c = c"
      by (cases "scheduleReboot (c_rebootCooldown c) (tool_ip t) (env_now e h) (c_recovery c)")
        (simp add: handleHTTPError_def split: reboot_decision.split)
    then show ?thesis by - (rule nothing; simp)
  next
    case launched
    with True show ?thesis by - (rule scheduled; simp add: handleHTTPError_def)
  qed
qed

definition one_reboot :: "tool \<Rightarrow> client \<Rightarrow> client \<Rightarrow> go_error option \<Rightarrow> bool" where
  "one_reboot t c c' err \<longleftrightarrow>
     c_reboots c' = c_reboots c \<and> c_recovery c' = c_recovery c
     \<or> (\<exists>x. err = Some x \<and> reboot_cause x \<and> c_reboots c' = c_reboots c @ [t]
        \<and> \<not> inFlight (recovery_of (c_recovery c) (TrimSpace (tool_ip t)))
        \<and> inFlight (recovery_of (c_recovery c') (TrimSpace (tool_ip t))))"

lemma response_reboot:
  assumes "doGETWithPriority e c t url priority h = (Inr resp, c1, h1)"
  shows "one_reboot t c
    (handleHTTPError e t (responseHTTPError e priority h1 operation resp) h1 c1)
    (Some (responseHTTPError e priority h1 operation resp))"
proof -
  note same = doGETWithPriority_client(1,2) [OF assms]
  show ?thesis
    using same
    by (cases e t "responseHTTPError e priority h1 operation resp" h1 c1 rule: handleHTTPError_cases)
      (auto simp: one_reboot_def reboot_cause_def responseHTTPError_def RequiresReboot_def status_codes)
qed

lemma getStatusOnce_reboot:
  assumes "getStatusOnceWithPriority e c t url priority h = (res, c', h')"
  shows "one_reboot t c c' (case res of Inl err \<Rightarrow> Some err | Inr status \<Rightarrow> None)"
  using assms
proof (cases rule: getStatusOnce_get)
  case (failed err)
  from doGETWithPriority_client(1,2) [OF failed(1)] show ?thesis by (simp add: one_reboot_def)
next
  case (answer resp c1 h1)
  from answer(3) response_reboot [OF answer(1), of "''status''"]
    doGETWithPriority_client(1,2) [OF answer(1)]
  show ?thesis by (auto simp: one_reboot_def)
qed

lemma reboot_cause_final: "reboot_cause err \<Longrightarrow> \<not> shouldRetryStatus ctx_err (Some err)"
  by (rule final_not_retried [of err]) (auto simp: reboot_cause_def)

lemma getStatus_reboots:
  "case getStatus e c t priority h of (res, c', h') \<Rightarrow>
      one_reboot t c c' (case res of Inl err \<Rightarrow> Some err | Inr status \<Rightarrow> None)"
proof (cases "rpcURL t ''Switch.GetStatus'' (''id='' @ Itoa (tool_switch_id t))")
  case (Inl err)
  then show ?thesis by (simp add: getStatus_no_url one_reboot_def)
next
  case (Inr url)
  obtain r1 c1 h1 where first: "getStatusOnceWithPriority e c t url priority h = (r1, c1, h1)"
    by (metis prod_cases3)
  note once = getStatusOnce_reboot [OF first]
  show ?thesis
  proof (cases "\<exists>err. r1 = Inl err \<and> shouldRetryStatus (env_ctx_err e h1) (Some err)")
    case False
    with once first show ?thesis by (auto simp: getStatus_unroll [OF Inr] split: sum.splits)
  next
    case True
    then obtain err where err: "r1 = Inl err" "shouldRetryStatus (env_ctx_err e h1) (Some err)"
      by blast
    with once reboot_cause_final have same: "c_reboots c1 = c_reboots c" "c_recovery c1 = c_recovery c"
      by (auto simp: one_reboot_def)
    have again: "one_reboot t c c' (case res of Inl err \<Rightarrow> Some err | Inr status \<Rightarrow> None)"
      if "getStatusOnceWithPriority e c1 t url priority h2 = (res, c', h')" for h2 res c' h'
      using getStatusOnce_reboot [OF that] same by (simp add: one_reboot_def)
    from same have stay: "one_reboot t c c1 x" for x by (simp add: one_reboot_def)
    show ?thesis
      using err first again stay
      by (auto simp: getStatus_unroll [OF Inr] waitForContext_def split: option.splits)
  qed
qed

lemma Set_output_reboots: "case Set_output e c t on h of (err, c', h') \<Rightarrow> one_reboot t c c' err"
proof (cases "rpcURL t ''Switch.Set'' (''id='' @ Itoa (tool_switch_id t) @ ''&on='' @ FormatBool on)")
  case (Inl err)
  then show ?thesis by (simp add: Set_output_def one_reboot_def)
next
  case (Inr url)
  obtain r c1 h1 where get: "doGETWithPriority e c t url PriorityFBS h = (r, c1, h1)"
    by (metis prod_cases3)
  show ?thesis
  proof (cases r)
    case (Inl err)
    with Inr get doGETWithPriority_client(1,2) [OF get] show ?thesis
      by (simp add: Set_output_def one_reboot_def)
  next
    case (Inr resp)
    with \<open>_ = Inr url\<close> get doGETWithPriority_client(1,2) [OF get]
      response_reboot [of e c t url PriorityFBS h resp c1 h1 "''set''"] show ?thesis
      by (simp add: Set_output_def Let_def one_reboot_def [of t c _ None])
  qed
qed

lemma Reboot_reboots:
  "case Reboot e c t h of (err, c', h') \<Rightarrow>
      c_reboots c' = c_reboots c \<and> c_recovery c' = c_recovery c"
  using doGETWithPriority_client(1,2)
  by (auto simp: Reboot_def split: sum.splits prod.splits)

text \<open>
  C21. Recovery is triggered by the device alone and never recurses: a status or a command
  starts at most one reboot, only when the error it returns is the device's 423 or 429, only
  for its own device and only when none is in flight there, which it then marks; Reboot itself
  starts none.
\<close>

theorem reboots_scheduled:
  "(case getStatus e c t priority h of (res, c', h') \<Rightarrow>
      one_reboot t c c' (case res of Inl err \<Rightarrow> Some err | Inr status \<Rightarrow> None))
   \<and> (case Set_output e c t on h of (err, c', h') \<Rightarrow> one_reboot t c c' err)
   \<and> (case Reboot e c t h of (err, c', h') \<Rightarrow>
        c_reboots c' = c_reboots c \<and> c_recovery c' = c_recovery c)"
  by (intro conjI getStatus_reboots Set_output_reboots Reboot_reboots)

text \<open>
  C23. Every digest session the client keeps stays usable: a realm, a nonce, SHA-256, a
  supported quality of protection and a count within the limit, through every operation and the
  reboot goroutine, whatever challenges arrive.
\<close>

theorem sessions_stay_ok:
  assumes "client_ok c"
  shows "client_ok (fst (snd (getStatus e c t priority h)))
    \<and> client_ok (fst (snd (Set_output e c t on h)))
    \<and> client_ok (fst (snd (run_reboot e c t h)))"
proof (intro conjI)
  show "client_ok (fst (snd (getStatus e c t priority h)))"
    using getStatus_ok [OF assms] by (metis prod.collapse)
  show "client_ok (fst (snd (Set_output e c t on h)))"
    using command_ok [OF assms] by (metis prod.collapse)
  obtain err c1 h1 where "Reboot e c t h = (err, c1, h1)" by (metis prod_cases3)
  with command_ok [OF assms] have "client_ok c1" by blast
  then show "client_ok (fst (snd (run_reboot e c t h)))"
    by (simp add: run_reboot_def \<open>Reboot e c t h = (err, c1, h1)\<close> client_ok_def)
qed

theorem sessions_stay_ok_witness:
  "client_ok (fst (snd (getStatus (answering 401) new_client lab_tool PriorityFBS [])))"
proof -
  have "client_ok new_client" by (simp add: client_ok_def new_client_def)
  then show ?thesis
    using sessions_stay_ok [of new_client "answering 401" lab_tool PriorityFBS "[]" True] by simp
qed


lemma Set_output_get:
  assumes "Set_output e c t on h = (err, c', h')"
  obtains (same) "c_reboots c' = c_reboots c"
  | (rejected) url resp c1 h1 where
      "rpcURL t ''Switch.Set'' (''id='' @ Itoa (tool_switch_id t) @ ''&on='' @ FormatBool on) = Inr url"
      "doGETWithPriority e c t url PriorityFBS h = (Inr resp, c1, h1)"
      "c' = handleHTTPError e t (responseHTTPError e PriorityFBS h1 ''set'' resp) h1 c1"
      "err = Some (responseHTTPError e PriorityFBS h1 ''set'' resp)" "h' = close_response h1"
proof (cases "rpcURL t ''Switch.Set'' (''id='' @ Itoa (tool_switch_id t) @ ''&on='' @ FormatBool on)")
  case (Inl x)
  with assms show ?thesis by - (rule same; simp add: Set_output_def)
next
  case url: (Inr url)
  obtain r c1 h1 where get: "doGETWithPriority e c t url PriorityFBS h = (r, c1, h1)"
    by (metis prod_cases3)
  note keep = doGETWithPriority_client(2) [OF get]
  show ?thesis
  proof (cases "\<exists>resp. r = Inr resp \<and> (rs_code resp < 200 \<or> 300 \<le> rs_code resp)")
    case False
    with assms url get keep show ?thesis
      by - (rule same; auto simp: Set_output_def split: sum.splits)
  next
    case True
    then obtain resp where "r = Inr resp" "rs_code resp < 200 \<or> 300 \<le> rs_code resp" by blast
    with assms url get show ?thesis
      by - (rule rejected; auto simp: Set_output_def Let_def)
  qed
qed

text \<open>
  C22. A device is rebooted for throttling only after it was given time: when a command or a
  status attempt that starts a reboot returns the device's 429, that same call had already asked
  this URL and been answered 429, waited the whole throttle delay, and then asked again, and the
  answer to that last request is the 429 it returns.
\<close>

theorem throttled_device_was_given_time:
  "(case Set_output e c t on h of (err, c', h') \<Rightarrow>
      c_reboots c' \<noteq> c_reboots c \<longrightarrow>
      (\<exists>r. err = Some (HTTPErr r) \<and> he_status_code r \<in> {423, 429}
         \<and> (he_status_code r = 429 \<longrightarrow>
             (\<exists>u h1. rpcURL t ''Switch.Set''
                  (''id='' @ Itoa (tool_switch_id t) @ ''&on='' @ FormatBool on) = Inr u
                \<and> h' = close_response h1 \<and> asked_again e (c_throttleDelay c) u h h1))))
   \<and> (case getStatusOnceWithPriority e c t url priority h of (res, c', h') \<Rightarrow>
      c_reboots c' \<noteq> c_reboots c \<longrightarrow>
      (\<exists>r. res = Inl (HTTPErr r) \<and> he_status_code r \<in> {423, 429}
         \<and> (he_status_code r = 429 \<longrightarrow>
             (\<exists>h1. h' = close_response h1 \<and> asked_again e (c_throttleDelay c) url h h1))))"
proof -
  have cause: "\<exists>r. responseHTTPError e p h1 operation resp = HTTPErr r \<and> he_status_code r \<in> {423, 429}
      \<and> (he_status_code r = 429 \<longrightarrow> asked_again e (c_throttleDelay c) u h h1)"
    if get: "doGETWithPriority e c t u p h = (Inr resp, c1, h1)"
      and new: "c_reboots (handleHTTPError e t (responseHTTPError e p h1 operation resp) h1 c1)
        \<noteq> c_reboots c" for u p resp c1 h1 operation
  proof -
    from response_reboot [OF get, of operation] new
    have "reboot_cause (responseHTTPError e p h1 operation resp)"
      by (auto simp: one_reboot_def)
    then have "rs_code resp \<in> {423, 429}" by (simp add: reboot_cause_def responseHTTPError_def)
    moreover have "asked_again e (c_throttleDelay c) u h h1" if "rs_code resp = 429"
      using doGETWithPriority_answered(2) [OF get] that
      by (auto simp: status_codes intro: asked_again_since)
    ultimately show ?thesis by (simp add: responseHTTPError_def)
  qed
  show ?thesis
  proof (intro conjI; clarify)
    fix err c' h'
    assume "Set_output e c t on h = (err, c', h')" and "c_reboots c' \<noteq> c_reboots c"
    then show "\<exists>r. err = Some (HTTPErr r) \<and> he_status_code r \<in> {423, 429}
        \<and> (he_status_code r = 429 \<longrightarrow>
             (\<exists>u h1. rpcURL t ''Switch.Set''
                  (''id='' @ Itoa (tool_switch_id t) @ ''&on='' @ FormatBool on) = Inr u
                \<and> h' = close_response h1 \<and> asked_again e (c_throttleDelay c) u h h1))"
      by (cases rule: Set_output_get) (use cause in blast)+
  next
    fix res c' h'
    assume "getStatusOnceWithPriority e c t url priority h = (res, c', h')"
      and new: "c_reboots c' \<noteq> c_reboots c"
    then show "\<exists>r. res = Inl (HTTPErr r) \<and> he_status_code r \<in> {423, 429}
        \<and> (he_status_code r = 429 \<longrightarrow>
             (\<exists>h1. h' = close_response h1 \<and> asked_again e (c_throttleDelay c) url h h1))"
    proof (cases rule: getStatusOnce_get)
      case (failed err)
      from doGETWithPriority_client(2) [OF failed(1)] new show ?thesis by simp
    next
      case (answer resp c1 h1)
      from answer(2,3) new doGETWithPriority_client(2) [OF answer(1)] cause [OF answer(1), of "''status''"]
      show ?thesis by auto
    qed
  qed
qed

theorem throttled_device_was_given_time_witness:
  "\<exists>h1. snd (snd (Set_output (answering 429) new_client lab_tool True [])) = close_response h1
     \<and> asked_again (answering 429) (c_throttleDelay new_client)
         ''http://10.0.0.7/rpc/Switch.Set?id=0&on=true'' [] h1"
proof -
  have "map tool_ip (c_reboots (fst (snd (Set_output (answering 429) new_client lab_tool True []))))
      = [''10.0.0.7'']" by code_simp
  then have reboot: "c_reboots (fst (snd (Set_output (answering 429) new_client lab_tool True [])))
      \<noteq> c_reboots new_client" by (auto simp: new_client_def)
  have code: "(case fst (Set_output (answering 429) new_client lab_tool True []) of
      Some (HTTPErr r) \<Rightarrow> he_status_code r = 429 | _ \<Rightarrow> False)" by code_simp
  have url: "rpcURL lab_tool ''Switch.Set''
      (''id='' @ Itoa (tool_switch_id lab_tool) @ ''&on='' @ FormatBool True)
      = Inr ''http://10.0.0.7/rpc/Switch.Set?id=0&on=true''" by code_simp
  obtain err c' h' where run: "Set_output (answering 429) new_client lab_tool True [] = (err, c', h')"
    by (metis prod_cases3)
  from conjunct1 [OF throttled_device_was_given_time [where e = "answering 429" and c = new_client
      and t = lab_tool and on = True and h = "[]" and url = "[]" and priority = PriorityFBS]]
  show ?thesis using reboot code unfolding url run by auto
qed

end
