(* ===== verification/Status_Interface.thy ===== *)
theory Status_Interface
  imports Config_Model "HOL-Library.Word"
begin

text \<open>
  The rows of the shared status table (internal/status/store.go, type ToolStatus) and the
  interface through which request handlers publish them (internal/fbs/server.go, type
  StatusRecorder). A Go interface value is a record of functions over the provider's state.
  The locale states what a handler relies on: a fresh revision is above every revision in the
  table and leaves the rows alone, and a result recorded under a revision that is not older
  than the row's becomes the row, all other rows kept.
\<close>

type_synonym revision = "64 word"

record tool_status =
  ts_interlock_name :: string
  ts_ip :: string
  ts_protocol :: string
  ts_port :: int
  ts_switch_id :: int
  ts_enabled :: bool
  ts_connected :: bool
  ts_output :: bool
  ts_error :: string
  ts_revision :: revision

definition toolStatus :: "tool \<Rightarrow> tool_status" where
  "toolStatus t =
     \<lparr>ts_interlock_name = tool_interlock_name t, ts_ip = tool_ip t,
      ts_protocol = ToolProtocol t, ts_port = tool_port t, ts_switch_id = tool_switch_id t,
      ts_enabled = tool_enabled t, ts_connected = False, ts_output = False, ts_error = [],
      ts_revision = 0\<rparr>"

lemma toolStatus_simps [simp]:
  "ts_port (toolStatus t) = tool_port t" "ts_enabled (toolStatus t) = tool_enabled t"
  "ts_connected (toolStatus t) = False" "ts_output (toolStatus t) = False"
  "ts_error (toolStatus t) = []" "ts_revision (toolStatus t) = 0"
  by (simp_all add: toolStatus_def)

text \<open>The rows a success and a failure leave, under a revision.\<close>

definition success_row :: "tool \<Rightarrow> bool \<Rightarrow> revision \<Rightarrow> tool_status" where
  "success_row t output r =
     (toolStatus t)\<lparr>ts_connected := True, ts_output := output, ts_revision := r\<rparr>"

definition failure_row :: "tool \<Rightarrow> bool \<Rightarrow> string option \<Rightarrow> revision \<Rightarrow> tool_status" where
  "failure_row t safeOutput err r =
     (toolStatus t)\<lparr>ts_output := safeOutput,
        ts_error := (case err of None \<Rightarrow> [] | Some msg \<Rightarrow> msg), ts_revision := r\<rparr>"

record 's status_recorder =
  next_revision :: "'s \<Rightarrow> revision \<times> 's"
  record_success :: "tool \<Rightarrow> bool \<Rightarrow> revision \<Rightarrow> 's \<Rightarrow> 's"
  record_failure :: "tool \<Rightarrow> bool \<Rightarrow> string option \<Rightarrow> revision \<Rightarrow> 's \<Rightarrow> 's"

locale status_recorder_laws =
  fixes R :: "'s status_recorder"
    and rows :: "'s \<Rightarrow> int \<rightharpoonup> tool_status"
    and issued :: "'s \<Rightarrow> revision"
    and invar :: "'s \<Rightarrow> bool"
  assumes next_rows: "next_revision R s = (r, s') \<Longrightarrow> rows s' = rows s"
    and next_fresh: "invar s \<Longrightarrow> issued s \<noteq> - 1 \<Longrightarrow> next_revision R s = (r, s') \<Longrightarrow>
          issued s < r \<and> issued s' = r \<and> invar s'"
    and invar_bound: "invar s \<Longrightarrow> rows s p = Some row \<Longrightarrow> ts_revision row \<le> issued s"
    and success_rows: "(\<And>row. rows s (tool_port t) = Some row \<Longrightarrow> ts_revision row \<le> r) \<Longrightarrow>
          rows (record_success R t output r s) = (rows s)(tool_port t \<mapsto> success_row t output r)"
    and failure_rows: "(\<And>row. rows s (tool_port t) = Some row \<Longrightarrow> ts_revision row \<le> r) \<Longrightarrow>
          rows (record_failure R t safeOutput err r s)
            = (rows s)(tool_port t \<mapsto> failure_row t safeOutput err r)"
    and invar_success: "invar s \<Longrightarrow> r \<le> issued s \<Longrightarrow> invar (record_success R t output r s)"
    and invar_failure: "invar s \<Longrightarrow> r \<le> issued s \<Longrightarrow>
          invar (record_failure R t safeOutput err r s)"
    and issued_success: "issued (record_success R t output r s) = issued s"
    and issued_failure: "issued (record_failure R t safeOutput err r s) = issued s"
begin

text \<open>
  Taking a revision and recording under it at once: the row of the tool is the one recorded,
  the others are untouched, and the table stays well formed.
\<close>

lemma fresh_success:
  assumes "invar s" and "issued s \<noteq> - 1" and "next_revision R s = (r, s1)"
  shows "rows (record_success R t output r s1)
           = (rows s)(tool_port t \<mapsto> success_row t output r) \<and>
         invar (record_success R t output r s1) \<and>
         issued (record_success R t output r s1) = r \<and> issued s < r"
proof -
  from next_fresh [OF assms] have s1: "issued s < r" "issued s1 = r" "invar s1" by auto
  have eq: "rows s1 = rows s" using assms(3) by (rule next_rows)
  have fresh: "\<And>row. rows s1 (tool_port t) = Some row \<Longrightarrow> ts_revision row \<le> r"
    using invar_bound [OF \<open>invar s1\<close>] s1 by simp
  have "rows (record_success R t output r s1) = (rows s1)(tool_port t \<mapsto> success_row t output r)"
    by (rule success_rows) (rule fresh)
  with s1 eq show ?thesis
    by (simp add: invar_success issued_success)
qed

lemma fresh_failure:
  assumes "invar s" and "issued s \<noteq> - 1" and "next_revision R s = (r, s1)"
  shows "rows (record_failure R t safeOutput err r s1)
           = (rows s)(tool_port t \<mapsto> failure_row t safeOutput err r) \<and>
         invar (record_failure R t safeOutput err r s1) \<and>
         issued (record_failure R t safeOutput err r s1) = r \<and> issued s < r"
proof -
  from next_fresh [OF assms] have s1: "issued s < r" "issued s1 = r" "invar s1" by auto
  have eq: "rows s1 = rows s" using assms(3) by (rule next_rows)
  have fresh: "\<And>row. rows s1 (tool_port t) = Some row \<Longrightarrow> ts_revision row \<le> r"
    using invar_bound [OF \<open>invar s1\<close>] s1 by simp
  have "rows (record_failure R t safeOutput err r s1)
          = (rows s1)(tool_port t \<mapsto> failure_row t safeOutput err r)"
    by (rule failure_rows) (rule fresh)
  with s1 eq show ?thesis
    by (simp add: invar_failure issued_failure)
qed

end

end
