(* ===== verification/Status_Store.thy ===== *)
theory Status_Store
  imports Status_Interface "HOL-Library.Multiset"
begin

text \<open>
  The shared status table (internal/status/store.go): the latest known row of every tool,
  keyed by its listener port, the ports in configuration order, and the counter the revisions
  are drawn from. Every operation of the code runs under the table's mutex, so an execution
  is a sequence of these operations. A Go error is given by its text (\<open>err.Error()\<close>), nil by
  \<open>None\<close>. Revisions are 64-bit words: the atomic counter wraps around.
\<close>

section \<open>State and operations\<close>

definition notYetRefreshedError :: string where
  "notYetRefreshedError = ''status not yet refreshed''"

record status_store =
  statuses :: "int \<rightharpoonup> tool_status"
  st_order :: "int list"
  st_next :: revision

definition new_row :: "tool \<Rightarrow> bool \<Rightarrow> tool_status" where
  "new_row t safeOutput =
     (if tool_enabled t
      then (toolStatus t)\<lparr>ts_output := safeOutput, ts_error := notYetRefreshedError\<rparr>
      else toolStatus t)"

definition new_step :: "bool \<Rightarrow> tool \<Rightarrow> status_store \<Rightarrow> status_store" where
  "new_step safeOutput t s =
     (let s1 = (if statuses s (tool_port t) = None
                then s\<lparr>st_order := st_order s @ [tool_port t]\<rparr> else s)
      in s1\<lparr>statuses := (statuses s1)(tool_port t \<mapsto> new_row t safeOutput)\<rparr>)"

definition New :: "config \<Rightarrow> bool \<Rightarrow> status_store" where
  "New cfg safeOutput =
     fold (new_step safeOutput) (cfg_tools cfg) \<lparr>statuses = Map.empty, st_order = [], st_next = 0\<rparr>"

definition NextRevision :: "status_store \<Rightarrow> revision \<times> status_store" where
  "NextRevision s = (st_next s + 1, s\<lparr>st_next := st_next s + 1\<rparr>)"

definition Record :: "tool_status \<Rightarrow> revision \<Rightarrow> status_store \<Rightarrow> status_store" where
  "Record row r s =
     (let current = statuses s (ts_port row)
      in if current \<noteq> None \<and> r < ts_revision (the current) then s
         else
           let s1 = (if current = None then s\<lparr>st_order := st_order s @ [ts_port row]\<rparr> else s)
           in s1\<lparr>statuses := (statuses s1)(ts_port row \<mapsto> row\<lparr>ts_revision := r\<rparr>)\<rparr>)"

definition RecordSuccess :: "tool \<Rightarrow> bool \<Rightarrow> revision \<Rightarrow> status_store \<Rightarrow> status_store" where
  "RecordSuccess t output r s =
     (let row = (toolStatus t)\<lparr>ts_connected := True, ts_output := output\<rparr>
      in Record row r s)"

definition RecordFailure ::
  "tool \<Rightarrow> bool \<Rightarrow> string option \<Rightarrow> revision \<Rightarrow> status_store \<Rightarrow> status_store" where
  "RecordFailure t safeOutput err r s =
     (let row = (toolStatus t)\<lparr>ts_output := safeOutput\<rparr>;
          row1 = (case err of None \<Rightarrow> row | Some msg \<Rightarrow> row\<lparr>ts_error := msg\<rparr>)
      in Record row1 r s)"

definition Snapshot :: "status_store \<Rightarrow> tool_status list" where
  "Snapshot s = List.map_filter (statuses s) (st_order s)"

section \<open>Well-formed tables\<close>

definition store_inv :: "status_store \<Rightarrow> bool" where
  "store_inv s \<longleftrightarrow>
     distinct (st_order s) \<and> set (st_order s) = dom (statuses s) \<and>
     (\<forall>p row. statuses s p = Some row \<longrightarrow> ts_port row = p \<and> ts_revision row \<le> st_next s)"

lemma new_row_simps [simp]:
  "ts_port (new_row t safeOutput) = tool_port t" "ts_revision (new_row t safeOutput) = 0"
  by (simp_all add: new_row_def)

lemma store_inv_empty [simp]: "store_inv \<lparr>statuses = Map.empty, st_order = [], st_next = r\<rparr>"
  by (simp add: store_inv_def)

text \<open>Adding or replacing one row keeps the table well formed.\<close>

lemma store_inv_upd:
  assumes "store_inv s" and "ts_revision row \<le> st_next s"
  shows "store_inv (s\<lparr>st_order := (if statuses s (ts_port row) = None
             then st_order s @ [ts_port row] else st_order s),
           statuses := (statuses s)(ts_port row \<mapsto> row)\<rparr>)"
  using assms by (auto simp: store_inv_def dom_def)

lemma new_step_eq:
  "new_step safeOutput t s =
     s\<lparr>st_order := (if statuses s (ts_port (new_row t safeOutput)) = None
         then st_order s @ [ts_port (new_row t safeOutput)] else st_order s),
       statuses := (statuses s)(ts_port (new_row t safeOutput) \<mapsto> new_row t safeOutput)\<rparr>"
  by (simp add: new_step_def Let_def)

lemma new_step_inv: "store_inv s \<Longrightarrow> store_inv (new_step safeOutput t s)"
  unfolding new_step_eq by (rule store_inv_upd) simp_all

lemma New_inv: "store_inv (New cfg safeOutput)"
proof -
  have "store_inv (fold (new_step safeOutput) ts s)" if "store_inv s" for ts s
    using that by (induction ts arbitrary: s) (simp_all add: new_step_inv)
  then show ?thesis by (simp add: New_def)
qed

lemma revision_increases: "(r :: revision) \<noteq> - 1 \<Longrightarrow> r < r + 1"
  by (simp add: not_le [symmetric] inc_less_eq_self_iff_eq)

lemma NextRevision_inv:
  assumes "store_inv s" and "st_next s \<noteq> - 1"
  shows "store_inv (snd (NextRevision s))"
  using assms revision_increases [OF assms(2)]
  by (force simp: store_inv_def NextRevision_def)

lemma Record_eq:
  "Record row r s =
     (case statuses s (ts_port row) of
        Some current \<Rightarrow> if r < ts_revision current then s
          else s\<lparr>statuses := (statuses s)(ts_port row \<mapsto> row\<lparr>ts_revision := r\<rparr>)\<rparr>
      | None \<Rightarrow> s\<lparr>st_order := st_order s @ [ts_port row],
                statuses := (statuses s)(ts_port row \<mapsto> row\<lparr>ts_revision := r\<rparr>)\<rparr>)"
  by (auto simp: Record_def Let_def split: option.split)

lemma Record_inv: "store_inv s \<Longrightarrow> r \<le> st_next s \<Longrightarrow> store_inv (Record row r s)"
  using store_inv_upd [of s "row\<lparr>ts_revision := r\<rparr>"]
  by (auto simp: Record_eq split: option.split)

lemma Record_next [simp]: "st_next (Record row r s) = st_next s"
  by (simp add: Record_eq split: option.split)

lemma Record_fresh:
  "(\<And>cur. statuses s (ts_port row) = Some cur \<Longrightarrow> ts_revision cur \<le> r) \<Longrightarrow>
     statuses (Record row r s) = (statuses s)(ts_port row \<mapsto> row\<lparr>ts_revision := r\<rparr>)"
  by (auto simp: Record_eq not_less [symmetric] split: option.split)

lemma RecordSuccess_Record: "RecordSuccess t output r s = Record (success_row t output 0) r s"
  by (simp add: RecordSuccess_def success_row_def toolStatus_def)

lemma RecordFailure_Record:
  "RecordFailure t safeOutput err r s = Record (failure_row t safeOutput err 0) r s"
  by (simp add: RecordFailure_def failure_row_def toolStatus_def split: option.split)

lemma result_rows [simp]:
  "ts_port (success_row t output r) = tool_port t"
  "ts_port (failure_row t safeOutput err r) = tool_port t"
  "(success_row t output r)\<lparr>ts_revision := r'\<rparr> = success_row t output r'"
  "(failure_row t safeOutput err r)\<lparr>ts_revision := r'\<rparr> = failure_row t safeOutput err r'"
  by (simp_all add: success_row_def failure_row_def)

section \<open>The table as a status recorder\<close>

definition store_recorder :: "status_store status_recorder" where
  "store_recorder =
     \<lparr>next_revision = NextRevision, record_success = RecordSuccess,
      record_failure = RecordFailure\<rparr>"

lemma store_recorder_simps [simp]:
  "next_revision store_recorder = NextRevision"
  "record_success store_recorder = RecordSuccess"
  "record_failure store_recorder = RecordFailure"
  by (simp_all add: store_recorder_def)

interpretation store: status_recorder_laws store_recorder statuses st_next store_inv
proof (unfold_locales, goal_cases)
  case (1 s r s')
  then show ?case by (auto simp: NextRevision_def)
next
  case (2 s r s')
  with NextRevision_inv [of s] revision_increases [of "st_next s"] show ?case
    by (auto simp: NextRevision_def)
next
  case (3 s p row)
  then show ?case by (auto simp: store_inv_def)
next
  case (4 s t r out)
  with Record_fresh [of s "success_row t out 0" r] show ?case
    by (simp add: RecordSuccess_Record)
next
  case (5 s t r safeOutput err)
  with Record_fresh [of s "failure_row t safeOutput err 0" r] show ?case
    by (simp add: RecordFailure_Record)
qed (simp_all add: RecordSuccess_Record RecordFailure_Record Record_inv)

section \<open>Sequences of results\<close>

text \<open>
  The effect of \<open>Record\<close> on the rows alone, and that two results commute unless they are for
  the same tool under the same revision.
\<close>

definition merge_result :: "tool_status \<times> revision \<Rightarrow> (int \<rightharpoonup> tool_status) \<Rightarrow> (int \<rightharpoonup> tool_status)" where
  "merge_result x m =
     (case m (ts_port (fst x)) of
        Some current \<Rightarrow> if snd x < ts_revision current then m
          else m(ts_port (fst x) \<mapsto> (fst x)\<lparr>ts_revision := snd x\<rparr>)
      | None \<Rightarrow> m(ts_port (fst x) \<mapsto> (fst x)\<lparr>ts_revision := snd x\<rparr>))"

definition record_all :: "(tool_status \<times> revision) list \<Rightarrow> status_store \<Rightarrow> status_store" where
  "record_all xs s = fold (\<lambda>(row, r). Record row r) xs s"

lemma statuses_Record: "statuses (Record row r s) = merge_result (row, r) (statuses s)"
  by (simp add: Record_eq merge_result_def split: option.split)

lemma statuses_record_all: "statuses (record_all xs s) = fold merge_result xs (statuses s)"
  unfolding record_all_def
  by (induction xs arbitrary: s) (auto simp: statuses_Record split: prod.splits)

lemma merge_result_commute:
  assumes "ts_port (fst x) \<noteq> ts_port (fst y) \<or> snd x \<noteq> snd y \<or> x = y"
  shows "merge_result x (merge_result y m) = merge_result y (merge_result x m)"
proof (cases "ts_port (fst x) = ts_port (fst y)")
  case False
  then show ?thesis by (auto simp: merge_result_def fun_upd_twist split: option.splits)
next
  case True
  show ?thesis
  proof (cases "x = y")
    case False
    with True assms have "snd x < snd y \<or> snd y < snd x" by auto
    with True show ?thesis
      by (cases "m (ts_port (fst y))") (auto simp: merge_result_def)
  qed simp
qed

definition results_distinct :: "(tool_status \<times> revision) list \<Rightarrow> bool" where
  "results_distinct xs \<longleftrightarrow> distinct (map (\<lambda>x. (ts_port (fst x), snd x)) xs)"

lemma results_distinct_apart:
  "results_distinct xs \<Longrightarrow> x \<in> set xs \<Longrightarrow> y \<in> set xs \<Longrightarrow>
     ts_port (fst x) \<noteq> ts_port (fst y) \<or> snd x \<noteq> snd y \<or> x = y"
  by (auto simp: results_distinct_def distinct_map inj_on_def)

lemma fold_merge_permute:
  assumes "results_distinct xs" and "mset xs = mset ys"
  shows "fold merge_result xs = fold merge_result ys"
proof (rule fold_multiset_equiv)
  fix x y
  assume "x \<in> set xs" and "y \<in> set xs"
  with assms(1) have apart: "ts_port (fst x) \<noteq> ts_port (fst y) \<or> snd x \<noteq> snd y \<or> x = y"
    by (rule results_distinct_apart)
  show "merge_result x \<circ> merge_result y = merge_result y \<circ> merge_result x"
    by (rule ext) (simp add: merge_result_commute [OF apart])
qed (rule assms(2))

lemma Record_order:
  "statuses s (ts_port row) \<noteq> None \<Longrightarrow> st_order (Record row r s) = st_order s"
  by (auto simp: Record_eq)

lemma record_all_order:
  "\<forall>x \<in> set xs. ts_port (fst x) \<in> dom (statuses s) \<Longrightarrow> st_order (record_all xs s) = st_order s"
  unfolding record_all_def
proof (induction xs arbitrary: s)
  case Nil
  then show ?case by simp
next
  case (Cons x xs)
  obtain row r where x: "x = (row, r)" by (cases x)
  with Cons.prems have known: "statuses s (ts_port row) \<noteq> None" by auto
  have "dom (statuses s) \<subseteq> dom (statuses (Record row r s))"
    by (auto simp: Record_eq split: option.splits)
  with Cons.prems have "\<forall>x \<in> set xs. ts_port (fst x) \<in> dom (statuses (Record row r s))"
    by (metis list.set_intros(2) subsetD)
  from Cons.IH [OF this] Record_order [OF known] x show ?case by simp
qed

lemma length_Snapshot: "store_inv s \<Longrightarrow> length (Snapshot s) = length (st_order s)"
proof -
  assume inv: "store_inv s"
  have "set ps \<subseteq> dom (statuses s) \<Longrightarrow> length (List.map_filter (statuses s) ps) = length ps" for ps
    by (induction ps) (auto simp: List.map_filter_simps)
  with inv show ?thesis by (simp add: Snapshot_def store_inv_def)
qed

text \<open>The table of a valid configuration: one placeholder per tool, in configuration order.\<close>

lemma fold_new_step:
  "distinct (map tool_port ts) \<Longrightarrow> tool_port ` set ts \<inter> dom (statuses s) = {} \<Longrightarrow>
     st_order (fold (new_step so) ts s) = st_order s @ map tool_port ts \<and>
     statuses (fold (new_step so) ts s)
       = statuses s ++ map_of (map (\<lambda>t. (tool_port t, new_row t so)) ts)"
proof (induction ts arbitrary: s)
  case Nil
  then show ?case by simp
next
  case (Cons t ts)
  let ?s = "new_step so t s"
  let ?m = "map_of (map (\<lambda>t. (tool_port t, new_row t so)) ts)"
  have fresh: "statuses s (tool_port t) = None" using Cons.prems by auto
  then have order: "st_order ?s = st_order s @ [tool_port t]"
    and stat: "statuses ?s = (statuses s)(tool_port t \<mapsto> new_row t so)"
    by (simp_all add: new_step_def Let_def)
  have "tool_port t \<notin> dom ?m"
    using Cons.prems by (auto simp: dom_map_of_conv_image_fst)
  then have swap: "(statuses s)(tool_port t \<mapsto> new_row t so) ++ ?m
             = statuses s ++ ?m(tool_port t \<mapsto> new_row t so)"
    by (auto simp: map_add_def fun_eq_iff split: option.splits)
  have "tool_port ` set ts \<inter> dom (statuses ?s) = {}"
    using Cons.prems unfolding stat by auto
  with Cons have "st_order (fold (new_step so) ts ?s) = st_order ?s @ map tool_port ts"
    and "statuses (fold (new_step so) ts ?s) = statuses ?s ++ ?m"
    by auto
  with order stat swap show ?case by (simp add: fun_upd_def)
qed

lemma Snapshot_New:
  assumes "distinct (map tool_port (cfg_tools cfg))"
  shows "Snapshot (New cfg so) = map (\<lambda>t. new_row t so) (cfg_tools cfg)"
proof -
  let ?ts = "cfg_tools cfg"
  let ?m = "map_of (map (\<lambda>t. (tool_port t, new_row t so)) ?ts)"
  have *: "st_order (New cfg so) = map tool_port ?ts" "statuses (New cfg so) = ?m"
    using fold_new_step [OF assms, of "\<lparr>statuses = Map.empty, st_order = [], st_next = 0\<rparr>" so]
    by (auto simp: New_def)
  have get: "?m (tool_port t) = Some (new_row t so)" if "t \<in> set ?ts" for t
    using that assms by (intro map_of_is_SomeI) (auto simp: comp_def)
  have "List.map_filter ?m (map tool_port ts) = map (\<lambda>t. new_row t so) ts"
    if "set ts \<subseteq> set ?ts" for ts
    using that by (induction ts) (auto simp: List.map_filter_simps get)
  then show ?thesis by (simp add: Snapshot_def *)
qed

text \<open>The newest result of a batch stays, wherever it stands in it.\<close>

lemma fold_merge_bounded:
  assumes "\<And>x. x \<in> set xs \<Longrightarrow> ts_port (fst x) = p \<Longrightarrow> snd x \<le> r"
    and "\<And>row. m p = Some row \<Longrightarrow> ts_revision row \<le> r"
    and "fold merge_result xs m p = Some row"
  shows "ts_revision row \<le> r"
  using assms
proof (induction xs arbitrary: m)
  case Nil
  then show ?case by simp
next
  case (Cons x xs)
  have "ts_revision row' \<le> r" if "merge_result x m p = Some row'" for row'
    using Cons.prems(1) [of x] Cons.prems(2) that
    by (auto simp: merge_result_def split: option.splits if_splits)
  from Cons.IH [OF _ this] Cons.prems(1,3) show ?case by simp
qed

lemma fold_merge_newest:
  assumes "results_distinct xs" and "(row, r) \<in> set xs"
    and "\<And>x. x \<in> set xs \<Longrightarrow> ts_port (fst x) = ts_port row \<Longrightarrow> snd x \<le> r"
    and "\<And>old. m (ts_port row) = Some old \<Longrightarrow> ts_revision old \<le> r"
  shows "fold merge_result xs m (ts_port row) = Some (row\<lparr>ts_revision := r\<rparr>)"
proof -
  let ?ys = "remove1 (row, r) xs @ [(row, r)]"
  let ?m = "fold merge_result (remove1 (row, r) xs) m"
  have "(row, r) \<in># mset xs" using assms(2) by simp
  then have "mset xs - {#(row, r)#} + {#(row, r)#} = mset xs" by (rule insert_DiffM2)
  then have same: "mset xs = mset ?ys" by (simp only: mset_append mset_remove1 mset.simps add_0)
  have "fold merge_result xs m = merge_result (row, r) ?m"
    unfolding fold_merge_permute [OF assms(1) same] by (simp only: fold_append fold.simps comp_def id_apply)
  moreover have bound: "ts_revision old \<le> r" if "?m (ts_port row) = Some old" for old
  proof (rule fold_merge_bounded [OF _ _ that])
    fix x
    assume "x \<in> set (remove1 (row, r) xs)" and "ts_port (fst x) = ts_port row"
    with assms(3) show "snd x \<le> r" by (meson notin_set_remove1)
  qed (rule assms(4))
  ultimately show ?thesis
    by (auto simp: merge_result_def not_less split: option.split)
qed

section \<open>Properties\<close>

text \<open>
  C16. Results may arrive in any order: when requests that drew different revisions finish in
  two different orders, the table ends with the same rows; for each tool the row is that of the
  newest revision, so an answer that comes late never hides a newer one.
\<close>

theorem newest_result_wins:
  assumes "results_distinct xs" and "mset xs = mset ys" and "(row, r) \<in> set xs"
    and "\<And>x. x \<in> set xs \<Longrightarrow> ts_port (fst x) = ts_port row \<Longrightarrow> snd x \<le> r"
    and "\<And>old. statuses s (ts_port row) = Some old \<Longrightarrow> ts_revision old \<le> r"
  shows "statuses (record_all xs s) = statuses (record_all ys s)
    \<and> statuses (record_all ys s) (ts_port row) = Some (row\<lparr>ts_revision := r\<rparr>)"
  using fold_merge_permute [OF assms(1,2)] fold_merge_newest [OF assms(1,3,4,5)]
  by (simp add: statuses_record_all)

definition late_row :: "int \<Rightarrow> bool \<Rightarrow> tool_status" where
  "late_row p out = \<lparr>ts_interlock_name = ''laser'', ts_ip = ''10.0.0.7'', ts_protocol = ''http'',
     ts_port = p, ts_switch_id = 0, ts_enabled = True, ts_connected = True, ts_output = out,
     ts_error = [], ts_revision = 0\<rparr>"

theorem newest_result_wins_witness:
  "statuses (record_all [(late_row 8081 True, 2), (late_row 8081 False, 1)]
       \<lparr>statuses = Map.empty, st_order = [], st_next = 2\<rparr>) 8081
     = Some ((late_row 8081 True)\<lparr>ts_revision := 2\<rparr>)"
proof -
  let ?xs = "[(late_row 8081 False, 1 :: revision), (late_row 8081 True, 2)]"
  let ?ys = "[(late_row 8081 True, 2 :: revision), (late_row 8081 False, 1)]"
  have distinct: "results_distinct ?xs" by (simp add: results_distinct_def)
  have same: "mset ?xs = mset ?ys" by simp
  have newest: "snd x \<le> 2" if "x \<in> set ?xs" for x using that by auto
  have port: "ts_port (late_row 8081 True) = 8081" by (simp add: late_row_def)
  from newest_result_wins [OF distinct same, of "late_row 8081 True" 2
      "\<lparr>statuses = Map.empty, st_order = [], st_next = 2\<rparr>"] newest
  show ?thesis by (simp add: port)
qed

text \<open>
  The table starts complete and honest: for a valid configuration the first snapshot has
  one row per tool in configuration order, an enabled tool shown disconnected with the safe
  output and the notice that it was not refreshed yet, a disabled one off.
\<close>

lemma first_snapshot:
  assumes "config_ok cfg"
  shows "Snapshot (New cfg safeOutput) = map (\<lambda>t. new_row t safeOutput) (cfg_tools cfg)
    \<and> store_inv (New cfg safeOutput)"
  using assms Snapshot_New [of cfg safeOutput] New_inv [of cfg safeOutput]
  by (simp add: config_ok_def tools_config_ok_def)

end
