(* ===== verification/Fbs_Writer.thy ===== *)
theory Fbs_Writer
  imports Gateway_Prelude
begin

text \<open>
  What a handler writes its answer to. \<open>http_writer\<close> is the part of net/http's response the
  servers use: the header map, the one status line, the body cut off at the declared length.
  \<open>responseRecorder\<close> is the wrapper of internal/fbs/server.go that remembers the status and the
  body for the log. The locale states what a handler relies on, that a writer forwards to the
  connection, and both are interpretations of it; a wrapped writer is one as well.
\<close>

section \<open>The connection\<close>

type_synonym header = "string \<rightharpoonup> string"

text \<open>
  The answer on a connection: the header still being built, the status and header once sent,
  the length they declare, the number of bytes handed to Write and the bytes it accepted as body.
  net/http writes that body out for every method but HEAD, where it accepts the bytes and sends
  the status and the header alone: \<open>sent_body\<close>.
\<close>

record http_answer =
  ha_header :: header
  ha_sent :: "(int \<times> header) option"
  ha_length :: "nat option"
  ha_written :: nat
  ha_body :: string

definition fresh_answer :: http_answer where
  "fresh_answer = \<lparr>ha_header = Map.empty, ha_sent = None, ha_length = None, ha_written = 0, ha_body = []\<rparr>"

definition sent_body :: "string \<Rightarrow> http_answer \<Rightarrow> string" where
  "sent_body method a = (if method = ''HEAD'' then [] else ha_body a)"

definition digit_value :: "char \<Rightarrow> nat" where
  "digit_value c = of_char c - 48"

definition parse_length :: "string \<Rightarrow> nat option" where
  "parse_length s =
     (if s \<noteq> [] \<and> list_all (\<lambda>c. 48 \<le> (of_char c :: nat) \<and> (of_char c :: nat) \<le> 57) s
      then Some (fold (\<lambda>c n. 10 * n + digit_value c) s 0) else None)"

record 'w response_writer =
  rw_Header :: "(header \<Rightarrow> header) \<Rightarrow> 'w \<Rightarrow> 'w"
  rw_WriteHeader :: "int \<Rightarrow> 'w \<Rightarrow> 'w"
  rw_Write :: "string \<Rightarrow> 'w \<Rightarrow> bool \<times> 'w"

definition answer_WriteHeader :: "int \<Rightarrow> http_answer \<Rightarrow> http_answer" where
  "answer_WriteHeader code a =
     (if ha_sent a = None
      then a\<lparr>ha_sent := Some (code, ha_header a),
             ha_length := (case ha_header a ''Content-Length'' of
                None \<Rightarrow> None | Some n \<Rightarrow> parse_length n)\<rparr>
      else a)"

definition answer_Write :: "string \<Rightarrow> http_answer \<Rightarrow> bool \<times> http_answer" where
  "answer_Write data a =
     (let a1 = answer_WriteHeader 200 a;
          a2 = a1\<lparr>ha_written := ha_written a1 + length data\<rparr>
      in if data = [] then (True, a1)
         else (case ha_length a2 of
                 None \<Rightarrow> (True, a2\<lparr>ha_body := ha_body a2 @ data\<rparr>)
               | Some n \<Rightarrow> if n < ha_written a2 then (False, a2)
                           else (True, a2\<lparr>ha_body := ha_body a2 @ data\<rparr>)))"

definition http_writer :: "http_answer response_writer" where
  "http_writer = \<lparr>rw_Header = (\<lambda>f a. a\<lparr>ha_header := f (ha_header a)\<rparr>),
     rw_WriteHeader = answer_WriteHeader, rw_Write = answer_Write\<rparr>"

section \<open>The recorder\<close>

record 'w responseRecorder =
  rr_ResponseWriter :: 'w
  rr_status :: int
  rr_body :: string

definition rr_WriteHeader ::
  "'w response_writer \<Rightarrow> int \<Rightarrow> 'w responseRecorder \<Rightarrow> 'w responseRecorder" where
  "rr_WriteHeader W code rr =
     rr\<lparr>rr_status := code, rr_ResponseWriter := rw_WriteHeader W code (rr_ResponseWriter rr)\<rparr>"

definition rr_Write ::
  "'w response_writer \<Rightarrow> string \<Rightarrow> 'w responseRecorder \<Rightarrow> bool \<times> 'w responseRecorder" where
  "rr_Write W data rr =
     (let (ok, w) = rw_Write W data (rr_ResponseWriter rr)
      in (ok, rr\<lparr>rr_body := rr_body rr @ data, rr_ResponseWriter := w\<rparr>))"

definition recorder_writer :: "'w response_writer \<Rightarrow> 'w responseRecorder response_writer" where
  "recorder_writer W = \<lparr>
     rw_Header = (\<lambda>f rr. rr\<lparr>rr_ResponseWriter := rw_Header W f (rr_ResponseWriter rr)\<rparr>),
     rw_WriteHeader = rr_WriteHeader W, rw_Write = rr_Write W\<rparr>"

lemma rr_Write_snd:
  "snd (rr_Write W data rr) =
     rr\<lparr>rr_body := rr_body rr @ data, rr_ResponseWriter := snd (rw_Write W data (rr_ResponseWriter rr))\<rparr>"
  by (simp add: rr_Write_def case_prod_beta Let_def)

section \<open>Answers\<close>

definition fbsOn :: string where
  "fbsOn = CHR ''{'' # CHR 0x22 # ''Success'' @ CHR 0x22 # '':1,'' @ CHR 0x22 # ''State'' @ CHR 0x22 # '':1}''"

definition fbsOff :: string where
  "fbsOff = CHR ''{'' # CHR 0x22 # ''Success'' @ CHR 0x22 # '':1,'' @ CHR 0x22 # ''State'' @ CHR 0x22 # '':0}''"

definition writeFBS :: "'w response_writer \<Rightarrow> bool \<Rightarrow> 'w \<Rightarrow> 'w" where
  "writeFBS W state w =
     (let body = (if state then fbsOn else fbsOff);
          w1 = rw_Header W (\<lambda>m. m(''Content-Type'' \<mapsto> ''application/json; charset=utf-8'')) w;
          w2 = rw_Header W (\<lambda>m. m(''Content-Length'' \<mapsto> Itoa (int (length body)))) w1;
          w3 = rw_WriteHeader W 200 w2
      in snd (rw_Write W body w3))"

text \<open>\<open>http.Error\<close> and \<open>http.NotFound\<close>.\<close>

definition http_Error :: "'w response_writer \<Rightarrow> string \<Rightarrow> int \<Rightarrow> 'w \<Rightarrow> 'w" where
  "http_Error W msg code w =
     (let w1 = rw_Header W (\<lambda>m. m(''Content-Length'' := None,
                 ''Content-Type'' \<mapsto> ''text/plain; charset=utf-8'',
                 ''X-Content-Type-Options'' \<mapsto> ''nosniff'')) w
      in snd (rw_Write W (msg @ [CHR 0x0A]) (rw_WriteHeader W code w1)))"

definition http_NotFound :: "'w response_writer \<Rightarrow> 'w \<Rightarrow> 'w" where
  "http_NotFound W w = http_Error W ''404 page not found'' 404 w"

section \<open>The interface\<close>

text \<open>\<open>conn w\<close> is the answer on the connection below the writer \<open>w\<close>.\<close>

locale forwarding_writer =
  fixes W :: "'w response_writer"
    and conn :: "'w \<Rightarrow> http_answer"
  assumes conn_Header: "conn (rw_Header W f w) = rw_Header http_writer f (conn w)"
    and conn_WriteHeader: "conn (rw_WriteHeader W code w) = answer_WriteHeader code (conn w)"
    and conn_Write: "conn (snd (rw_Write W data w)) = snd (answer_Write data (conn w))"
begin

lemma conn_writeFBS: "conn (writeFBS W state w) = writeFBS http_writer state (conn w)"
  by (simp add: writeFBS_def Let_def conn_Write conn_WriteHeader conn_Header http_writer_def)

lemma conn_http_Error: "conn (http_Error W msg code w) = http_Error http_writer msg code (conn w)"
  by (simp add: http_Error_def Let_def conn_Write conn_WriteHeader conn_Header http_writer_def)

text \<open>The recorder around a forwarding writer forwards as well.\<close>

lemma recorder_forwards: "forwarding_writer (recorder_writer W) (\<lambda>rr. conn (rr_ResponseWriter rr))"
  by unfold_locales
    (simp_all add: recorder_writer_def rr_WriteHeader_def rr_Write_snd conn_Header
      conn_WriteHeader conn_Write)

end

interpretation connection: forwarding_writer http_writer "\<lambda>a. a"
  by unfold_locales (simp_all add: http_writer_def)

interpretation recorded: forwarding_writer "recorder_writer http_writer" rr_ResponseWriter
  by (rule connection.recorder_forwards)

section \<open>What the other side reads\<close>

definition json_header :: "nat \<Rightarrow> header" where
  "json_header n =
     [''Content-Type'' \<mapsto> ''application/json; charset=utf-8'', ''Content-Length'' \<mapsto> Itoa (int n)]"

lemma fbs_length: "length fbsOn = 23" "length fbsOff = 23" "fbsOn \<noteq> []" "fbsOff \<noteq> []"
  "fbsOn \<noteq> fbsOff"
  by (simp_all add: fbsOn_def fbsOff_def)

lemma parse_length_23: "parse_length (Itoa 23) = Some 23"
  by code_simp

lemma writeFBS_fresh:
  "ha_sent (writeFBS http_writer state fresh_answer) = Some (200, json_header 23)"
  "ha_body (writeFBS http_writer state fresh_answer) = (if state then fbsOn else fbsOff)"
  by (simp_all add: writeFBS_def Let_def http_writer_def answer_WriteHeader_def answer_Write_def
      fresh_answer_def fbs_length parse_length_23 json_header_def)

text \<open>A second answer does not reach the other side: what was sent first stays.\<close>

lemma writeFBS_twice:
  assumes "ha_sent a = Some (code, hdr)" and "ha_length a = Some (ha_written a)"
  shows "ha_sent (writeFBS http_writer state a) = ha_sent a
    \<and> ha_body (writeFBS http_writer state a) = ha_body a"
  using assms
  by (simp add: writeFBS_def Let_def http_writer_def answer_WriteHeader_def answer_Write_def
      fbs_length)

lemma http_Error_fresh:
  "ha_sent (http_Error http_writer msg code fresh_answer)
     = Some (code, [''Content-Type'' \<mapsto> ''text/plain; charset=utf-8'', ''X-Content-Type-Options'' \<mapsto> ''nosniff''])"
  "ha_body (http_Error http_writer msg code fresh_answer) = msg @ [CHR 0x0A]"
  by (simp_all add: http_Error_def Let_def http_writer_def answer_WriteHeader_def answer_Write_def
      fresh_answer_def)

end
