(* ===== verification/Fbs_Server.thy ===== *)
theory Fbs_Server
  imports Shelly_Client Status_Store Fbs_Writer
begin

text \<open>
  The production interface of one tool (internal/fbs/server.go): what the facility's booking
  system asks for and is told. The client of the device and the recorder of the status table
  are interfaces, records of functions over the state behind them; a call of the client may
  panic. Only the ServeMux (which sends every clean path to this handler), the listener and
  its shutdown are not modelled.
\<close>

section \<open>Interfaces and state\<close>

datatype 'a outcome = Panicked | Returned 'a

record 'c shelly_client =
  sc_GetStatus :: "tool \<Rightarrow> 'c \<Rightarrow> (go_error + switch_status) outcome \<times> 'c"
  sc_Set :: "tool \<Rightarrow> bool \<Rightarrow> 'c \<Rightarrow> go_error option outcome \<times> 'c"

record ('c, 's) fbs_server =
  fs_bind :: string
  fs_safeOutput :: bool
  fs_shelly :: "'c shelly_client"
  fs_statusRecorder :: "'s status_recorder option"

definition NewServer ::
  "string \<Rightarrow> bool \<Rightarrow> 'c shelly_client \<Rightarrow> 's status_recorder option \<Rightarrow> ('c, 's) fbs_server" where
  "NewServer bind safeOutput shellyClient statusRecorder =
     \<lparr>fs_bind = bind, fs_safeOutput = safeOutput, fs_shelly = shellyClient,
      fs_statusRecorder = statusRecorder\<rparr>"

record http_request =
  rq_method :: string
  rq_path :: string
  rq_raw_query :: string
  rq_url :: string
  rq_content_length :: int
  rq_body :: string
  rq_body_error :: bool

datatype fbs_log =
    FBS_IN string string string string
  | FBS_OUT string string int string
  | FBS_note string

record ('c, 's, 'w) fbs_state =
  fw_client :: 'c
  fw_table :: 's
  fw_log :: "fbs_log list"
  fw_writer :: 'w

definition log_line :: "string \<Rightarrow> ('c, 's, 'w) fbs_state \<Rightarrow> ('c, 's, 'w) fbs_state" where
  "log_line msg st = st\<lparr>fw_log := fw_log st @ [FBS_note msg]\<rparr>"

definition onOff :: "bool \<Rightarrow> string" where
  "onOff v = (if v then ''on'' else ''off'')"

section \<open>Publishing\<close>

definition recordSuccess ::
  "('c, 's) fbs_server \<Rightarrow> tool \<Rightarrow> bool \<Rightarrow> ('c, 's, 'w) fbs_state \<Rightarrow> ('c, 's, 'w) fbs_state" where
  "recordSuccess srv t out st =
     (case fs_statusRecorder srv of
        None \<Rightarrow> st
      | Some R \<Rightarrow>
          (case next_revision R (fw_table st) of
             (revision, s) \<Rightarrow> st\<lparr>fw_table := record_success R t out revision s\<rparr>))"

definition recordFailure ::
  "('c, 's) fbs_server \<Rightarrow> tool \<Rightarrow> go_error \<Rightarrow> ('c, 's, 'w) fbs_state \<Rightarrow> ('c, 's, 'w) fbs_state" where
  "recordFailure srv t err st =
     (case fs_statusRecorder srv of
        None \<Rightarrow> st
      | Some R \<Rightarrow>
          (case next_revision R (fw_table st) of
             (revision, s) \<Rightarrow>
               st\<lparr>fw_table := record_failure R t (fs_safeOutput srv) (Some (error_text err)) revision s\<rparr>))"

section \<open>Handlers\<close>

text \<open>A handler's result says whether it panicked; what it did before is kept.\<close>

definition respond :: "('w \<Rightarrow> 'w) \<Rightarrow> ('c, 's, 'w) fbs_state \<Rightarrow> ('c, 's, 'w) fbs_state" where
  "respond f st = st\<lparr>fw_writer := f (fw_writer st)\<rparr>"

definition handleStatus ::
  "('c, 's) fbs_server \<Rightarrow> 'w response_writer \<Rightarrow> tool \<Rightarrow> ('c, 's, 'w) fbs_state
     \<Rightarrow> bool \<times> ('c, 's, 'w) fbs_state" where
  "handleStatus srv W t st =
     (case sc_GetStatus (fs_shelly srv) t (fw_client st) of
        (Panicked, c) \<Rightarrow> (True, st\<lparr>fw_client := c\<rparr>)
      | (Returned (Inl err), c) \<Rightarrow>
          (False, respond (writeFBS W (fs_safeOutput srv))
             (recordFailure srv t err (log_line ''shelly_status_error'' (st\<lparr>fw_client := c\<rparr>))))
      | (Returned (Inr status), c) \<Rightarrow>
          (False, respond (writeFBS W (sw_Output status))
             (recordSuccess srv t (sw_Output status) (st\<lparr>fw_client := c\<rparr>))))"

definition handleSet ::
  "('c, 's) fbs_server \<Rightarrow> 'w response_writer \<Rightarrow> tool \<Rightarrow> bool \<Rightarrow> ('c, 's, 'w) fbs_state
     \<Rightarrow> bool \<times> ('c, 's, 'w) fbs_state" where
  "handleSet srv W t on st =
     (case sc_Set (fs_shelly srv) t on (fw_client st) of
        (Panicked, c) \<Rightarrow> (True, st\<lparr>fw_client := c\<rparr>)
      | (Returned (Some err), c) \<Rightarrow>
          (False, respond (writeFBS W (fs_safeOutput srv))
             (recordFailure srv t err
               (log_line (''shelly_set_error command='' @ onOff on) (st\<lparr>fw_client := c\<rparr>))))
      | (Returned None, c) \<Rightarrow>
          (False, respond (writeFBS W on) (recordSuccess srv t on (st\<lparr>fw_client := c\<rparr>))))"

definition logFBSRequest ::
  "tool \<Rightarrow> http_request \<Rightarrow> ('c, 's, 'w) fbs_state \<Rightarrow> ('c, 's, 'w) fbs_state" where
  "logFBSRequest t r st =
     (let data = take (64 * 1024) (rq_body r);
          failed = rq_body_error r \<and> length (rq_body r) < 64 * 1024;
          body = (if rq_content_length r \<noteq> 0 \<and> \<not> failed then data else [])
      in st\<lparr>fw_log := fw_log st @ [FBS_IN (tool_interlock_name t) (rq_method r) (rq_url r) body]\<rparr>)"

definition handleFBSRequest ::
  "('c, 's) fbs_server \<Rightarrow> 'w response_writer \<Rightarrow> http_request \<Rightarrow> tool \<Rightarrow> ('c, 's, 'w) fbs_state
     \<Rightarrow> bool \<times> ('c, 's, 'w) fbs_state" where
  "handleFBSRequest srv W r t st0 =
     (let st = logFBSRequest t r st0
      in if rq_method r \<noteq> ''GET'' then
           (False, respond (http_Error W ''method not allowed'' 405) (log_line ''rejected_method'' st))
         else if rq_raw_query r \<noteq> [] then
           (False, respond (http_Error W ''bad request'' 400) (log_line ''rejected_query'' st))
         else if rq_path r = ''/status'' then handleStatus srv W t st
         else if rq_path r = ''/on'' then handleSet srv W t True st
         else if rq_path r = ''/off'' then handleSet srv W t False st
         else (False, respond (http_NotFound W) (log_line ''rejected_path'' st)))"

section \<open>Middleware\<close>

text \<open>
  The handler inside the logging middleware writes through the recorder; a panic leaves it
  before its log line. \<open>recoverMiddleware\<close> is outermost and answers on the connection itself.
\<close>

definition loggingMiddleware ::
  "http_request
     \<Rightarrow> (('c, 's, 'w responseRecorder) fbs_state \<Rightarrow> bool \<times> ('c, 's, 'w responseRecorder) fbs_state)
     \<Rightarrow> ('c, 's, 'w) fbs_state \<Rightarrow> bool \<times> ('c, 's, 'w) fbs_state" where
  "loggingMiddleware r nxt st =
     (case nxt \<lparr>fw_client = fw_client st, fw_table = fw_table st, fw_log = fw_log st,
             fw_writer = \<lparr>rr_ResponseWriter = fw_writer st, rr_status = 200, rr_body = []\<rparr>\<rparr> of
        (panicked, st1) \<Rightarrow>
          let rr = fw_writer st1;
              responseBody = (if 2048 < length (rr_body rr)
                then take 2048 (rr_body rr) @ ''...[truncated]'' else rr_body rr);
              line = (if panicked then []
                else [FBS_OUT (rq_method r) (rq_url r) (rr_status rr) responseBody])
          in (panicked, \<lparr>fw_client = fw_client st1, fw_table = fw_table st1,
                fw_log = fw_log st1 @ line, fw_writer = rr_ResponseWriter rr\<rparr>))"

definition recoverMiddleware ::
  "'w response_writer \<Rightarrow> bool \<Rightarrow> (('c, 's, 'w) fbs_state \<Rightarrow> bool \<times> ('c, 's, 'w) fbs_state)
     \<Rightarrow> ('c, 's, 'w) fbs_state \<Rightarrow> ('c, 's, 'w) fbs_state" where
  "recoverMiddleware W safeOutput nxt st =
     (case nxt st of
        (False, st1) \<Rightarrow> st1
      | (True, st1) \<Rightarrow> respond (writeFBS W safeOutput) (log_line ''panic recovered'' st1))"

definition serve_tool ::
  "('c, 's) fbs_server \<Rightarrow> tool \<Rightarrow> http_request \<Rightarrow> ('c, 's, http_answer) fbs_state
     \<Rightarrow> ('c, 's, http_answer) fbs_state" where
  "serve_tool srv t r st =
     recoverMiddleware http_writer (fs_safeOutput srv)
       (loggingMiddleware r (handleFBSRequest srv (recorder_writer http_writer) r t)) st"

text \<open>\<open>net.JoinHostPort\<close>, for the address the tool's server listens on.\<close>

definition JoinHostPort :: "string \<Rightarrow> string \<Rightarrow> string" where
  "JoinHostPort host port =
     (if CHR '':'' \<in> set host then ''['' @ host @ '']:'' @ port
      else host @ '':'' @ port)"

definition tool_address :: "('c, 's) fbs_server \<Rightarrow> tool \<Rightarrow> string" where
  "tool_address srv t = JoinHostPort (fs_bind srv) (Itoa (tool_port t))"

section \<open>What the other side is told\<close>

text \<open>
  The specification: a request is refused with a status code, or it is a question or a command
  and the answer is the state of the tool, which is the fail-safe one when the device could not
  be asked.
\<close>

datatype fbs_request = Refused int string | Ask | Command bool

definition classify :: "http_request \<Rightarrow> fbs_request" where
  "classify r =
     (if rq_method r \<noteq> ''GET'' then Refused 405 ''method not allowed''
      else if rq_raw_query r \<noteq> [] then Refused 400 ''bad request''
      else if rq_path r = ''/status'' then Ask
      else if rq_path r = ''/on'' then Command True
      else if rq_path r = ''/off'' then Command False
      else Refused 404 ''404 page not found'')"

definition device_says :: "('c, 's) fbs_server \<Rightarrow> tool \<Rightarrow> fbs_request \<Rightarrow> 'c
    \<Rightarrow> (go_error + bool) outcome \<times> 'c" where
  "device_says srv t q c =
     (case q of
        Ask \<Rightarrow> (case sc_GetStatus (fs_shelly srv) t c of
           (Panicked, c1) \<Rightarrow> (Panicked, c1)
         | (Returned (Inl err), c1) \<Rightarrow> (Returned (Inl err), c1)
         | (Returned (Inr status), c1) \<Rightarrow> (Returned (Inr (sw_Output status)), c1))
      | Command on \<Rightarrow> (case sc_Set (fs_shelly srv) t on c of
           (Panicked, c1) \<Rightarrow> (Panicked, c1)
         | (Returned (Some err), c1) \<Rightarrow> (Returned (Inl err), c1)
         | (Returned None, c1) \<Rightarrow> (Returned (Inr on), c1))
      | Refused code msg \<Rightarrow> (Panicked, c))"

definition published :: "('c, 's) fbs_server \<Rightarrow> tool \<Rightarrow> (go_error + bool) outcome \<Rightarrow> 's \<Rightarrow> 's" where
  "published srv t res s =
     (case (fs_statusRecorder srv, res) of
        (Some R, Returned (Inl err)) \<Rightarrow>
          (case next_revision R s of (revision, s1) \<Rightarrow>
             record_failure R t (fs_safeOutput srv) (Some (error_text err)) revision s1)
      | (Some R, Returned (Inr state)) \<Rightarrow>
          (case next_revision R s of (revision, s1) \<Rightarrow> record_success R t state revision s1)
      | _ \<Rightarrow> s)"

definition answer_state :: "('c, 's) fbs_server \<Rightarrow> (go_error + bool) outcome \<Rightarrow> bool" where
  "answer_state srv res = (case res of Returned (Inr state) \<Rightarrow> state | _ \<Rightarrow> fs_safeOutput srv)"

lemma recordSuccess_fields [simp]:
  "fw_client (recordSuccess srv t out st) = fw_client st"
  "fw_writer (recordSuccess srv t out st) = fw_writer st"
  "fw_table (recordSuccess srv t out st) = published srv t (Returned (Inr out)) (fw_table st)"
  by (simp_all add: recordSuccess_def published_def split: option.split prod.split)

lemma recordFailure_fields [simp]:
  "fw_client (recordFailure srv t err st) = fw_client st"
  "fw_writer (recordFailure srv t err st) = fw_writer st"
  "fw_table (recordFailure srv t err st) = published srv t (Returned (Inl err)) (fw_table st)"
  by (simp_all add: recordFailure_def published_def split: option.split prod.split)

lemma fbs_state_fields [simp]:
  "fw_client (respond f st) = fw_client st" "fw_table (respond f st) = fw_table st"
  "fw_writer (respond f st) = f (fw_writer st)"
  "fw_client (log_line msg st) = fw_client st" "fw_table (log_line msg st) = fw_table st"
  "fw_writer (log_line msg st) = fw_writer st"
  "fw_client (logFBSRequest t r st) = fw_client st" "fw_table (logFBSRequest t r st) = fw_table st"
  "fw_writer (logFBSRequest t r st) = fw_writer st"
  by (simp_all add: respond_def log_line_def logFBSRequest_def Let_def)

lemma published_panicked [simp]: "published srv t Panicked s = s"
  by (simp add: published_def split: option.split)

text \<open>What a handler for a question or a command does to the state.\<close>

definition handled ::
  "('c, 's) fbs_server \<Rightarrow> 'w response_writer \<Rightarrow> tool \<Rightarrow> (go_error + bool) outcome \<Rightarrow> 'c
     \<Rightarrow> ('c, 's, 'w) fbs_state \<Rightarrow> bool \<times> ('c, 's, 'w) fbs_state \<Rightarrow> bool" where
  "handled srv W t res c st out \<longleftrightarrow>
     fst out = (res = Panicked) \<and> fw_client (snd out) = c \<and>
     fw_table (snd out) = published srv t res (fw_table st) \<and>
     fw_writer (snd out)
       = (if res = Panicked then fw_writer st else writeFBS W (answer_state srv res) (fw_writer st))"

lemma handleStatus_handled:
  "device_says srv t Ask (fw_client st) = (res, c) \<Longrightarrow> handled srv W t res c st (handleStatus srv W t st)"
  by (auto simp: handled_def handleStatus_def device_says_def answer_state_def
      split: prod.splits outcome.splits sum.splits)

lemma handleSet_handled:
  "device_says srv t (Command on) (fw_client st) = (res, c) \<Longrightarrow>
   handled srv W t res c st (handleSet srv W t on st)"
  by (auto simp: handled_def handleSet_def device_says_def answer_state_def
      split: prod.splits outcome.splits option.splits)

lemma handleFBSRequest_handled:
  assumes "classify r = q" and "\<And>code msg. q \<noteq> Refused code msg"
    and "device_says srv t q (fw_client st) = (res, c)"
  shows "handled srv W t res c st (handleFBSRequest srv W r t st)"
proof -
  have keep: "handled srv W t res c (logFBSRequest t r st) out = handled srv W t res c st out" for out
    by (simp add: handled_def)
  have "q = Ask \<and> handleFBSRequest srv W r t st = handleStatus srv W t (logFBSRequest t r st)
      \<or> (\<exists>on. q = Command on \<and> handleFBSRequest srv W r t st = handleSet srv W t on (logFBSRequest t r st))"
    using assms(1,2) by (auto simp: handleFBSRequest_def classify_def Let_def split: if_splits)
  then show ?thesis
    using assms(3) handleStatus_handled [of srv t "logFBSRequest t r st" res c W]
      handleSet_handled [of srv t _ "logFBSRequest t r st" res c W]
    by (auto simp: keep)
qed

lemma handleFBSRequest_refused:
  assumes "classify r = Refused code msg"
  shows "fst (handleFBSRequest srv W r t st) = False"
    and "fw_client (snd (handleFBSRequest srv W r t st)) = fw_client st"
    and "fw_table (snd (handleFBSRequest srv W r t st)) = fw_table st"
    and "fw_writer (snd (handleFBSRequest srv W r t st)) = http_Error W msg code (fw_writer st)"
  using assms
  by (auto simp: handleFBSRequest_def classify_def http_NotFound_def Let_def split: if_splits)

text \<open>The middleware around a handler: the state it leaves on the connection.\<close>

lemma loggingMiddleware_fields:
  assumes "nxt \<lparr>fw_client = fw_client st, fw_table = fw_table st, fw_log = fw_log st,
      fw_writer = \<lparr>rr_ResponseWriter = fw_writer st, rr_status = 200, rr_body = []\<rparr>\<rparr> = (p, st1)"
  shows "fst (loggingMiddleware r nxt st) = p"
    and "fw_client (snd (loggingMiddleware r nxt st)) = fw_client st1"
    and "fw_table (snd (loggingMiddleware r nxt st)) = fw_table st1"
    and "fw_writer (snd (loggingMiddleware r nxt st)) = rr_ResponseWriter (fw_writer st1)"
  using assms by (simp_all add: loggingMiddleware_def Let_def)

lemma recoverMiddleware_fields:
  "fw_client (recoverMiddleware W safe nxt st) = fw_client (snd (nxt st))"
  "fw_table (recoverMiddleware W safe nxt st) = fw_table (snd (nxt st))"
  "fw_writer (recoverMiddleware W safe nxt st)
     = (if fst (nxt st) then writeFBS W safe (fw_writer (snd (nxt st))) else fw_writer (snd (nxt st)))"
  by (simp_all add: recoverMiddleware_def split: prod.split bool.split)

lemma serve_tool_refused:
  assumes "classify r = Refused code msg"
  shows "fw_client (serve_tool srv t r st) = fw_client st"
    and "fw_table (serve_tool srv t r st) = fw_table st"
    and "fw_writer (serve_tool srv t r st) = http_Error http_writer msg code (fw_writer st)"
proof -
  let ?st = "\<lparr>fw_client = fw_client st, fw_table = fw_table st, fw_log = fw_log st,
      fw_writer = \<lparr>rr_ResponseWriter = fw_writer st, rr_status = 200, rr_body = []\<rparr>\<rparr>"
  obtain p st1 where h: "handleFBSRequest srv (recorder_writer http_writer) r t ?st = (p, st1)"
    by (metis prod.exhaust)
  note mw = loggingMiddleware_fields [where nxt = "handleFBSRequest srv (recorder_writer http_writer) r t"
      and st = st, OF h]
  note handler = handleFBSRequest_refused [OF assms, of srv "recorder_writer http_writer" t ?st,
      unfolded h fst_conv snd_conv]
  show "fw_client (serve_tool srv t r st) = fw_client st"
    and "fw_table (serve_tool srv t r st) = fw_table st"
    and "fw_writer (serve_tool srv t r st) = http_Error http_writer msg code (fw_writer st)"
    by (simp_all add: serve_tool_def recoverMiddleware_fields mw handler
        recorded.conn_http_Error)
qed

lemma serve_tool_answer:
  assumes "classify r = q" and "\<And>code msg. q \<noteq> Refused code msg"
    and "device_says srv t q (fw_client st) = (res, c)"
  shows "fw_client (serve_tool srv t r st) = c"
    and "fw_table (serve_tool srv t r st) = published srv t res (fw_table st)"
    and "fw_writer (serve_tool srv t r st) = writeFBS http_writer (answer_state srv res) (fw_writer st)"
proof -
  let ?st = "\<lparr>fw_client = fw_client st, fw_table = fw_table st, fw_log = fw_log st,
      fw_writer = \<lparr>rr_ResponseWriter = fw_writer st, rr_status = 200, rr_body = []\<rparr>\<rparr>"
  obtain p st1 where h: "handleFBSRequest srv (recorder_writer http_writer) r t ?st = (p, st1)"
    by (metis prod.exhaust)
  note mw = loggingMiddleware_fields [where nxt = "handleFBSRequest srv (recorder_writer http_writer) r t"
      and st = st, OF h]
  have "device_says srv t q (fw_client ?st) = (res, c)" using assms(3) by simp
  from handleFBSRequest_handled [OF assms(1,2) this, of "recorder_writer http_writer"] h
  have handler: "p = (res = Panicked)" "fw_client st1 = c"
    "fw_table st1 = published srv t res (fw_table st)"
    "rr_ResponseWriter (fw_writer st1) = (if res = Panicked then fw_writer st
       else writeFBS http_writer (answer_state srv res) (fw_writer st))"
    by (simp_all add: handled_def recorded.conn_writeFBS)
  show "fw_client (serve_tool srv t r st) = c"
    and "fw_table (serve_tool srv t r st) = published srv t res (fw_table st)"
    and "fw_writer (serve_tool srv t r st) = writeFBS http_writer (answer_state srv res) (fw_writer st)"
    by (simp_all add: serve_tool_def recoverMiddleware_fields mw handler
        answer_state_def)
qed

section \<open>What is published\<close>

context status_recorder_laws begin

lemma published_rows:
  assumes "fs_statusRecorder srv = Some R" and "invar s" and "issued s \<noteq> - 1" and "res \<noteq> Panicked"
  shows "\<exists>r row. rows (published srv t res s) = (rows s)(tool_port t \<mapsto> row)
    \<and> ts_output row = answer_state srv res \<and> ts_connected row = (\<exists>b. res = Returned (Inr b))
    \<and> ts_revision row = r \<and> issued s < r \<and> issued (published srv t res s) = r
    \<and> invar (published srv t res s)"
proof -
  obtain r s1 where step: "next_revision R s = (r, s1)" by fastforce
  obtain x where res: "res = Returned x" using assms(4) by (cases res) auto
  show ?thesis
  proof (cases x)
    case (Inl err)
    from fresh_failure [OF assms(2,3) step, of t "fs_safeOutput srv" "Some (error_text err)"] Inl
    show ?thesis
      by (auto simp: published_def assms(1) res step failure_row_def answer_state_def)
  next
    case (Inr b)
    from fresh_success [OF assms(2,3) step, of t b] Inr
    show ?thesis
      by (auto simp: published_def assms(1) res step success_row_def answer_state_def)
  qed
qed

end

section \<open>The log\<close>

lemma writeFBS_recorded:
  "rr_status (writeFBS (recorder_writer W) state rr) = 200"
  "rr_body (writeFBS (recorder_writer W) state rr) = rr_body rr @ (if state then fbsOn else fbsOff)"
  by (simp_all add: writeFBS_def recorder_writer_def rr_WriteHeader_def rr_Write_snd Let_def)

lemma http_Error_recorded:
  "rr_status (http_Error (recorder_writer W) msg code rr) = code"
  "rr_body (http_Error (recorder_writer W) msg code rr) = rr_body rr @ msg @ [CHR 0x0A]"
  by (simp_all add: http_Error_def recorder_writer_def rr_WriteHeader_def rr_Write_snd Let_def)

lemma loggingMiddleware_log:
  assumes "nxt \<lparr>fw_client = fw_client st, fw_table = fw_table st, fw_log = fw_log st,
      fw_writer = \<lparr>rr_ResponseWriter = fw_writer st, rr_status = 200, rr_body = []\<rparr>\<rparr> = (False, st1)"
  shows "fw_log (snd (loggingMiddleware r nxt st)) = fw_log st1
    @ [FBS_OUT (rq_method r) (rq_url r) (rr_status (fw_writer st1))
        (if 2048 < length (rr_body (fw_writer st1))
         then take 2048 (rr_body (fw_writer st1)) @ ''...[truncated]'' else rr_body (fw_writer st1))]"
  using assms by (simp add: loggingMiddleware_def Let_def)

lemma recoverMiddleware_log:
  "\<not> fst (nxt st) \<Longrightarrow> fw_log (recoverMiddleware W safe nxt st) = fw_log (snd (nxt st))"
  by (cases "nxt st") (simp add: recoverMiddleware_def)

section \<open>Properties\<close>

text \<open>
  C2. The contract with the booking system, for every request on a new connection, whatever the
  device, its client (a panic included) and the status table do. Anything but a GET without a
  query on /status, /on or /off is refused with 405, 400 or 404 and neither device nor table is
  touched (to a HEAD net/http sends the 405 without the body written). Every other request is answered 200 with exactly one of the two 23-byte bodies: the
  state the device reported or acknowledged, and the configured fail-safe state when the
  operation failed or panicked.
\<close>

theorem booking_system_contract:
  assumes "fw_writer st = fresh_answer"
  shows "case classify r of
      Refused code msg \<Rightarrow>
        fw_client (serve_tool srv t r st) = fw_client st
        \<and> fw_table (serve_tool srv t r st) = fw_table st
        \<and> (\<exists>hdr. ha_sent (fw_writer (serve_tool srv t r st)) = Some (code, hdr))
        \<and> ha_body (fw_writer (serve_tool srv t r st)) = msg @ [CHR 0x0A]
    | q \<Rightarrow>
        fw_client (serve_tool srv t r st) = snd (device_says srv t q (fw_client st))
        \<and> ha_sent (fw_writer (serve_tool srv t r st)) = Some (200, json_header 23)
        \<and> ha_body (fw_writer (serve_tool srv t r st))
            = (if answer_state srv (fst (device_says srv t q (fw_client st))) then fbsOn else fbsOff)"
proof (cases "classify r")
  case (Refused code msg)
  from serve_tool_refused [OF this, of srv t st] Refused assms show ?thesis
    by (simp add: http_Error_fresh)
next
  case Ask
  obtain res c where "device_says srv t Ask (fw_client st) = (res, c)" by fastforce
  with serve_tool_answer [OF Ask _ this] Ask assms show ?thesis by (simp add: writeFBS_fresh)
next
  case (Command on)
  obtain res c where "device_says srv t (Command on) (fw_client st) = (res, c)" by fastforce
  with serve_tool_answer [OF Command _ this] Command assms show ?thesis by (simp add: writeFBS_fresh)
qed

text \<open>A server whose device answers as told, for concrete runs.\<close>

definition scripted :: "(go_error + switch_status) outcome \<Rightarrow> go_error option outcome \<Rightarrow> nat shelly_client" where
  "scripted status_answer set_answer =
     \<lparr>sc_GetStatus = (\<lambda>t n. (status_answer, Suc n)), sc_Set = (\<lambda>t on n. (set_answer, Suc n))\<rparr>"

definition get_request :: "string \<Rightarrow> http_request" where
  "get_request path = \<lparr>rq_method = ''GET'', rq_path = path, rq_raw_query = [], rq_url = path,
     rq_content_length = 0, rq_body = [], rq_body_error = False\<rparr>"

definition lab_state :: "status_store \<Rightarrow> (nat, status_store, http_answer) fbs_state" where
  "lab_state s = \<lparr>fw_client = 0, fw_table = s, fw_log = [], fw_writer = fresh_answer\<rparr>"

definition empty_store :: status_store where
  "empty_store = \<lparr>statuses = Map.empty, st_order = [], st_next = 0\<rparr>"

lemma classify_get:
  "classify (get_request ''/on'') = Command True" "classify (get_request ''/status'') = Ask"
  "classify (get_request ''/off'') = Command False"
  by (simp_all add: classify_def get_request_def)

theorem booking_system_contract_witness:
  "ha_body (fw_writer (serve_tool (NewServer [] False (scripted Panicked Panicked) (Some store_recorder))
      lab_tool (get_request ''/on'') (lab_state empty_store))) = fbsOff"
  using booking_system_contract [where st = "lab_state empty_store" and r = "get_request ''/on''"
      and srv = "NewServer [] False (scripted Panicked Panicked) (Some store_recorder)" and t = lab_tool]
  by (simp add: lab_state_def classify_get device_says_def scripted_def NewServer_def answer_state_def)

text \<open>
  C6. The dashboard shows what the booking system was told: when a request is answered (no
  panic), the shared status table gets one new row, under the tool's port, whose output is the
  answered state, connected exactly when the device answered, with a revision newer than every
  one before; all other rows stay and the table stays well formed.
\<close>

theorem published_row_is_the_answer:
  assumes "fs_statusRecorder srv = Some store_recorder" and "classify r = q"
    and "\<And>code msg. q \<noteq> Refused code msg" and "device_says srv t q (fw_client st) = (res, c)"
    and "res \<noteq> Panicked" and "store_inv (fw_table st)" and "st_next (fw_table st) \<noteq> - 1"
    and "fw_writer st = fresh_answer"
  shows "\<exists>row. statuses (fw_table (serve_tool srv t r st)) = (statuses (fw_table st))(tool_port t \<mapsto> row)
    \<and> ha_body (fw_writer (serve_tool srv t r st)) = (if ts_output row then fbsOn else fbsOff)
    \<and> ts_connected row = (\<exists>b. res = Returned (Inr b))
    \<and> (\<forall>p old. statuses (fw_table st) p = Some old \<longrightarrow> ts_revision old < ts_revision row)
    \<and> store_inv (fw_table (serve_tool srv t r st))"
proof -
  note served = serve_tool_answer [OF assms(2,3,4)]
  obtain n row where row: "statuses (published srv t res (fw_table st))
        = (statuses (fw_table st))(tool_port t \<mapsto> row)"
    "ts_output row = answer_state srv res" "ts_connected row = (\<exists>b. res = Returned (Inr b))"
    "ts_revision row = n" "st_next (fw_table st) < n" "store_inv (published srv t res (fw_table st))"
    using store.published_rows [OF assms(1,6,7,5), of t] by blast
  have "ts_revision old < n" if "statuses (fw_table st) p = Some old" for p old
    using store.invar_bound [OF assms(6) that] row(5) by simp
  with row show ?thesis
    by (intro exI [of _ row]) (simp add: served assms(8) writeFBS_fresh)
qed

theorem published_row_is_the_answer_witness:
  "\<exists>row. statuses (fw_table (serve_tool
        (NewServer [] False (scripted Panicked (Returned None)) (Some store_recorder))
        lab_tool (get_request ''/on'') (lab_state empty_store))) = [8081 \<mapsto> row] \<and> ts_connected row"
  using published_row_is_the_answer [of "NewServer [] False (scripted Panicked (Returned None)) (Some store_recorder)"
      "get_request ''/on''" "Command True" lab_tool "lab_state empty_store" "Returned (Inr True)" 1]
  by (auto simp: lab_state_def classify_get device_says_def scripted_def NewServer_def
      empty_store_def store_inv_def lab_tool_def)

lemma serve_tool_log:
  assumes "handleFBSRequest srv (recorder_writer http_writer) r t
      \<lparr>fw_client = fw_client st, fw_table = fw_table st, fw_log = fw_log st,
       fw_writer = \<lparr>rr_ResponseWriter = fw_writer st, rr_status = 200, rr_body = []\<rparr>\<rparr> = (False, st1)"
    and "length (rr_body (fw_writer st1)) \<le> 2048"
  shows "fw_writer (serve_tool srv t r st) = rr_ResponseWriter (fw_writer st1)"
    and "last (fw_log (serve_tool srv t r st))
      = FBS_OUT (rq_method r) (rq_url r) (rr_status (fw_writer st1)) (rr_body (fw_writer st1))"
proof -
  note mw = loggingMiddleware_fields [where nxt = "handleFBSRequest srv (recorder_writer http_writer) r t"
      and st = st, OF assms(1)]
  note log = loggingMiddleware_log [where nxt = "handleFBSRequest srv (recorder_writer http_writer) r t"
      and st = st, OF assms(1)]
  show "fw_writer (serve_tool srv t r st) = rr_ResponseWriter (fw_writer st1)"
    by (simp add: serve_tool_def recoverMiddleware_fields mw)
  show "last (fw_log (serve_tool srv t r st))
      = FBS_OUT (rq_method r) (rq_url r) (rr_status (fw_writer st1)) (rr_body (fw_writer st1))"
    using assms(2) by (simp add: serve_tool_def recoverMiddleware_log mw log)
qed

text \<open>
  C28. The access log tells what was answered: unless the operation panicked, the last log line
  of a request on a new connection carries the request's method and URL, the status that was sent
  and the whole body the handler wrote. For every method but HEAD that is the body that went out;
  a HEAD is refused with 405, and the text the line shows is not sent.
\<close>

theorem access_log_is_truthful:
  assumes fresh: "fw_writer st = fresh_answer"
    and quiet: "fst (device_says srv t (classify r) (fw_client st)) = Panicked \<Longrightarrow>
      \<exists>code msg. classify r = Refused code msg"
  shows "\<exists>code hdr written. ha_sent (fw_writer (serve_tool srv t r st)) = Some (code, hdr)
    \<and> last (fw_log (serve_tool srv t r st)) = FBS_OUT (rq_method r) (rq_url r) code written
    \<and> ha_body (fw_writer (serve_tool srv t r st)) = written
    \<and> (if rq_method r = ''HEAD''
       then code = 405 \<and> written = ''method not allowed'' @ [CHR 0x0A]
         \<and> sent_body (rq_method r) (fw_writer (serve_tool srv t r st)) = []
       else sent_body (rq_method r) (fw_writer (serve_tool srv t r st)) = written)"
proof -
  let ?W = "recorder_writer http_writer"
  let ?st = "\<lparr>fw_client = fw_client st, fw_table = fw_table st, fw_log = fw_log st,
      fw_writer = \<lparr>rr_ResponseWriter = fw_writer st, rr_status = 200, rr_body = []\<rparr>\<rparr>"
  obtain p st1 where h: "handleFBSRequest srv ?W r t ?st = (p, st1)" by (metis prod.exhaust)
  have head: "classify r = Refused 405 ''method not allowed''" if "rq_method r = ''HEAD''"
    using that by (simp add: classify_def)
  show ?thesis
  proof (cases "\<exists>code msg. classify r = Refused code msg")
    case True
    then obtain code msg where q: "classify r = Refused code msg" by blast
    then have short: "length (msg @ [CHR 0x0A]) \<le> 2048" by (auto simp: classify_def split: if_splits)
    from handleFBSRequest_refused [OF q, of srv ?W t ?st] h
    have st1: "p = False" "fw_writer st1 = http_Error ?W msg code (fw_writer ?st)" by simp_all
    from serve_tool_log [OF h [unfolded st1(1)]] short head q show ?thesis
      by (auto simp: st1(2) http_Error_recorded recorded.conn_http_Error fresh http_Error_fresh
          sent_body_def)
  next
    case False
    with head have get: "rq_method r \<noteq> ''HEAD''" by auto
    obtain res c where d: "device_says srv t (classify r) (fw_client ?st) = (res, c)" by fastforce
    with quiet False have "res \<noteq> Panicked" by auto
    with handleFBSRequest_handled [OF refl _ d, of ?W] False h
    have st1: "p = False" "fw_writer st1 = writeFBS ?W (answer_state srv res) (fw_writer ?st)"
      by (auto simp: handled_def)
    from serve_tool_log [OF h [unfolded st1(1)]] get show ?thesis
      by (simp add: st1(2) writeFBS_recorded recorded.conn_writeFBS fresh writeFBS_fresh fbs_length
          sent_body_def)
  qed
qed

theorem access_log_is_truthful_witness:
  "let st = serve_tool (NewServer [] True (scripted Panicked Panicked) None)
        lab_tool ((get_request ''/status'')\<lparr>rq_method := ''HEAD''\<rparr>) (lab_state empty_store)
   in last (fw_log st) = FBS_OUT ''HEAD'' ''/status'' 405 (''method not allowed'' @ [CHR 0x0A])
      \<and> sent_body ''HEAD'' (fw_writer st) = []"
  using access_log_is_truthful [where st = "lab_state empty_store"
      and r = "(get_request ''/status'')\<lparr>rq_method := ''HEAD''\<rparr>"
      and srv = "NewServer [] True (scripted Panicked Panicked) None" and t = lab_tool]
  by (auto simp: lab_state_def classify_def get_request_def Let_def)

end
