(* ===== verification/Shelly_Slot.thy ===== *)
theory Shelly_Slot
  imports Main
begin

text \<open>
  The request slot of one device (internal/shelly/client.go, type deviceAuthState): a channel
  of capacity one that holds a token while no request is active, the number of FBS requests
  that have registered and not yet been served, and the cancel function of the active Admin
  request. Requests run concurrently; each is a number, with a program counter for the point
  its goroutine has reached in \<open>acquireFBS\<close>, \<open>acquireAdmin\<close> or in the release function it was
  given. What runs under the mutex \<open>s.mu\<close> is one step; a channel operation is one step; so is
  a call of a cancel function. \<open>cause\<close> is the cause a request's context was cancelled with, if
  it was: the first call of a cancel function fixes it, as in Go's WithCancelCause.
\<close>

section \<open>State\<close>

datatype cancel_cause = AdminStatusDeferred | NilCause | ParentDone

datatype slot_pc =
    NotStarted
  | FRegistered "nat option"
  | FWaiting
  | FGot
  | FGaveUp
  | FHolding
  | FFailed
  | FReleased
  | AHolding
  | AClearing
  | ACancelled
  | AReleased
  | ADeferred
  | AFailed

record slot =
  gate :: nat
  fbsWaiters :: nat
  activeAdminCancel :: "nat option"
  cause :: "nat \<Rightarrow> cancel_cause option"
  pc :: "nat \<Rightarrow> slot_pc"

definition newDeviceAuthState :: slot where
  "newDeviceAuthState =
     \<lparr>gate = 1, fbsWaiters = 0, activeAdminCancel = None, cause = (\<lambda>_. None),
      pc = (\<lambda>_. NotStarted)\<rparr>"

definition cancel_context :: "nat \<Rightarrow> cancel_cause \<Rightarrow> slot \<Rightarrow> slot" where
  "cancel_context a c s =
     (if cause s a = None then s\<lparr>cause := (cause s)(a := Some c)\<rparr> else s)"

definition goto :: "nat \<Rightarrow> slot_pc \<Rightarrow> slot \<Rightarrow> slot" where
  "goto p l s = s\<lparr>pc := (pc s)(p := l)\<rparr>"

section \<open>The atomic steps\<close>

text \<open>\<open>acquireFBS\<close>: register under the mutex and read the cancel function; call it; receive
  from the gate or give up with the context; unregister under the mutex.\<close>

definition fbs_register :: "nat \<Rightarrow> slot \<Rightarrow> slot" where
  "fbs_register p s =
     goto p (FRegistered (activeAdminCancel s)) (s\<lparr>fbsWaiters := fbsWaiters s + 1\<rparr>)"

definition fbs_cancel_admin :: "nat \<Rightarrow> nat option \<Rightarrow> slot \<Rightarrow> slot" where
  "fbs_cancel_admin p cancelAdmin s =
     goto p FWaiting
       (case cancelAdmin of None \<Rightarrow> s | Some a \<Rightarrow> cancel_context a AdminStatusDeferred s)"

definition fbs_receive :: "nat \<Rightarrow> slot \<Rightarrow> slot" where
  "fbs_receive p s = goto p FGot (s\<lparr>gate := gate s - 1\<rparr>)"

definition fbs_give_up :: "nat \<Rightarrow> slot \<Rightarrow> slot" where
  "fbs_give_up p s = goto p FGaveUp s"

definition fbs_unregister :: "nat \<Rightarrow> slot_pc \<Rightarrow> slot \<Rightarrow> slot" where
  "fbs_unregister p l s = goto p l (s\<lparr>fbsWaiters := fbsWaiters s - 1\<rparr>)"

text \<open>\<open>release\<close>: send the token back; enabled while the channel has room.\<close>

definition release_gate :: "nat \<Rightarrow> slot_pc \<Rightarrow> slot \<Rightarrow> slot" where
  "release_gate p l s = goto p l (s\<lparr>gate := gate s + 1\<rparr>)"

text \<open>\<open>acquireAdmin\<close>, all of it under the mutex: the three outcomes.\<close>

definition acquireAdmin :: "nat \<Rightarrow> slot \<Rightarrow> slot" where
  "acquireAdmin p s =
     (if 0 < fbsWaiters s then goto p ADeferred s
      else if gate s = 0 then goto p ADeferred s
      else goto p AHolding (s\<lparr>gate := gate s - 1, activeAdminCancel := Some p\<rparr>))"

text \<open>The release function of an Admin request, up to the send on the gate.\<close>

definition admin_clear :: "nat \<Rightarrow> slot \<Rightarrow> slot" where
  "admin_clear p s = goto p AClearing (s\<lparr>activeAdminCancel := None\<rparr>)"

definition admin_cancel_nil :: "nat \<Rightarrow> slot \<Rightarrow> slot" where
  "admin_cancel_nil p s = goto p ACancelled (cancel_context p NilCause s)"

inductive slot_step :: "slot \<Rightarrow> slot \<Rightarrow> bool" where
  register: "pc s p = NotStarted \<Longrightarrow> slot_step s (fbs_register p s)"
| cancel_admin: "pc s p = FRegistered c \<Longrightarrow> slot_step s (fbs_cancel_admin p c s)"
| receive: "pc s p = FWaiting \<Longrightarrow> 0 < gate s \<Longrightarrow> slot_step s (fbs_receive p s)"
| give_up: "pc s p = FWaiting \<Longrightarrow> slot_step s (fbs_give_up p s)"
| got: "pc s p = FGot \<Longrightarrow> slot_step s (fbs_unregister p FHolding s)"
| gave_up: "pc s p = FGaveUp \<Longrightarrow> slot_step s (fbs_unregister p FFailed s)"
| fbs_release: "pc s p = FHolding \<Longrightarrow> gate s < 1 \<Longrightarrow> slot_step s (release_gate p FReleased s)"
| admin: "pc s p = NotStarted \<Longrightarrow> slot_step s (acquireAdmin p s)"
| admin_done: "pc s p = NotStarted \<Longrightarrow> slot_step s (goto p AFailed s)"
| admin_parent: "pc s p = AHolding \<Longrightarrow> slot_step s (cancel_context p ParentDone s)"
| clear: "pc s p = AHolding \<Longrightarrow> slot_step s (admin_clear p s)"
| cancel_nil: "pc s p = AClearing \<Longrightarrow> slot_step s (admin_cancel_nil p s)"
| admin_release: "pc s p = ACancelled \<Longrightarrow> gate s < 1 \<Longrightarrow> slot_step s (release_gate p AReleased s)"

inductive slot_reachable :: "slot \<Rightarrow> bool" where
  start: "slot_reachable newDeviceAuthState"
| step: "slot_reachable s \<Longrightarrow> slot_step s t \<Longrightarrow> slot_reachable t"

lemmas slot_defs = fbs_register_def fbs_cancel_admin_def
  fbs_receive_def fbs_give_up_def fbs_unregister_def release_gate_def acquireAdmin_def
  admin_clear_def admin_cancel_nil_def

section \<open>The invariant\<close>

definition holding :: "slot_pc \<Rightarrow> bool" where
  "holding l \<longleftrightarrow> l \<in> {FGot, FHolding, AHolding, AClearing, ACancelled}"

definition waiting :: "slot_pc \<Rightarrow> bool" where
  "waiting l \<longleftrightarrow> l \<in> {FWaiting, FGot, FGaveUp} \<or> (\<exists>c. l = FRegistered c)"

definition holders :: "slot \<Rightarrow> nat set" where
  "holders s = {p. holding (pc s p)}"

definition waiters :: "slot \<Rightarrow> nat set" where
  "waiters s = {p. waiting (pc s p)}"

lemma holding_simps [simp]:
  "\<not> holding NotStarted" "\<not> holding (FRegistered c)" "\<not> holding FWaiting" "holding FGot"
  "\<not> holding FGaveUp" "holding FHolding" "\<not> holding FFailed" "\<not> holding FReleased"
  "holding AHolding" "holding AClearing" "holding ACancelled" "\<not> holding AReleased"
  "\<not> holding ADeferred" "\<not> holding AFailed"
  by (simp_all add: holding_def)

lemma waiting_simps [simp]:
  "\<not> waiting NotStarted" "waiting (FRegistered c)" "waiting FWaiting" "waiting FGot"
  "waiting FGaveUp" "\<not> waiting FHolding" "\<not> waiting FFailed" "\<not> waiting FReleased"
  "\<not> waiting AHolding" "\<not> waiting AClearing" "\<not> waiting ACancelled" "\<not> waiting AReleased"
  "\<not> waiting ADeferred" "\<not> waiting AFailed"
  by (simp_all add: waiting_def)

text \<open>
  The token is either in the gate or with exactly one request; the counter counts the waiting
  requests; the registered cancel function is that of the active Admin request; and an Admin
  request that is active while an FBS request waits has been cancelled, or is about to be by
  that FBS request.
\<close>

definition token_inv :: "slot \<Rightarrow> bool" where
  "token_inv s \<longleftrightarrow> finite (holders s) \<and> gate s + card (holders s) = 1"

definition count_inv :: "slot \<Rightarrow> bool" where
  "count_inv s \<longleftrightarrow> finite (waiters s) \<and> fbsWaiters s = card (waiters s)"

definition admin_inv :: "slot \<Rightarrow> bool" where
  "admin_inv s \<longleftrightarrow> (\<forall>a. activeAdminCancel s = Some a \<longleftrightarrow> pc s a = AHolding)"

definition preempt_inv :: "slot \<Rightarrow> bool" where
  "preempt_inv s \<longleftrightarrow>
     (\<forall>a p. pc s a = AHolding \<and> waiting (pc s p) \<and> pc s p \<noteq> FRegistered (Some a)
        \<longrightarrow> cause s a \<noteq> None)"

definition slot_inv :: "slot \<Rightarrow> bool" where
  "slot_inv s \<longleftrightarrow> token_inv s \<and> count_inv s \<and> admin_inv s \<and> preempt_inv s"

lemmas slot_inv_defs = slot_inv_def token_inv_def count_inv_def admin_inv_def preempt_inv_def

lemma holders_goto [simp]:
  "holders (goto p l s) = (if holding l then insert p (holders s) else holders s - {p})"
  by (auto simp: holders_def goto_def)

lemma waiters_goto [simp]:
  "waiters (goto p l s) = (if waiting l then insert p (waiters s) else waiters s - {p})"
  by (auto simp: waiters_def goto_def)

lemma goto_fields [simp]:
  "gate (goto p l s) = gate s" "fbsWaiters (goto p l s) = fbsWaiters s"
  "activeAdminCancel (goto p l s) = activeAdminCancel s" "cause (goto p l s) = cause s"
  "pc (goto p l s) = (pc s)(p := l)"
  by (simp_all add: goto_def)

lemma cancel_context_fields [simp]:
  "gate (cancel_context a c s) = gate s" "fbsWaiters (cancel_context a c s) = fbsWaiters s"
  "activeAdminCancel (cancel_context a c s) = activeAdminCancel s"
  "pc (cancel_context a c s) = pc s"
  by (simp_all add: cancel_context_def)

lemma cancel_context_cause [simp]: "cause (cancel_context a c s) a \<noteq> None"
  by (simp add: cancel_context_def)

lemma cancel_context_keeps: "cause s b \<noteq> None \<Longrightarrow> cause (cancel_context a c s) b \<noteq> None"
  by (simp add: cancel_context_def)

lemma sets_upd [simp]:
  "holders (s\<lparr>gate := g\<rparr>) = holders s" "waiters (s\<lparr>gate := g\<rparr>) = waiters s"
  "holders (s\<lparr>fbsWaiters := n\<rparr>) = holders s" "waiters (s\<lparr>fbsWaiters := n\<rparr>) = waiters s"
  "holders (s\<lparr>activeAdminCancel := a\<rparr>) = holders s"
  "waiters (s\<lparr>activeAdminCancel := a\<rparr>) = waiters s"
  "holders (cancel_context b c s) = holders s" "waiters (cancel_context b c s) = waiters s"
  by (simp_all add: holders_def waiters_def)

lemma mem_holders: "p \<in> holders s \<longleftrightarrow> holding (pc s p)"
  by (simp add: holders_def)

lemma mem_waiters: "p \<in> waiters s \<longleftrightarrow> waiting (pc s p)"
  by (simp add: waiters_def)

lemma token_free:
  assumes "token_inv s" and "0 < gate s"
  shows "gate s = 1" and "holders s = {}"
proof -
  have sum: "gate s + card (holders s) = 1" and fin: "finite (holders s)"
    using assms(1) by (simp_all add: token_inv_def)
  from sum assms(2) have "card (holders s) = 0" by linarith
  with sum fin show "gate s = 1" and "holders s = {}" by simp_all
qed

lemma token_inv_step: "slot_step s t \<Longrightarrow> token_inv s \<Longrightarrow> token_inv t"
proof (induction rule: slot_step.induct)
  case (register s p)
  then show ?case by (simp add: token_inv_def slot_defs mem_holders)
next
  case (cancel_admin s p c)
  then show ?case by (simp add: token_inv_def slot_defs mem_holders split: option.split)
next
  case (receive s p)
  with token_free [OF receive(3,2)] show ?case by (simp add: token_inv_def slot_defs)
next
  case (give_up s p)
  then show ?case by (simp add: token_inv_def slot_defs mem_holders)
next
  case (got s p)
  then show ?case by (simp add: token_inv_def slot_defs mem_holders insert_absorb)
next
  case (gave_up s p)
  then show ?case by (simp add: token_inv_def slot_defs mem_holders)
next
  case (fbs_release s p)
  then show ?case by (simp add: token_inv_def slot_defs mem_holders card_Diff_singleton)
next
  case (admin s p)
  show ?case
  proof (cases "0 < gate s \<and> fbsWaiters s = 0")
    case True
    with token_free [OF admin(2)] show ?thesis by (simp add: token_inv_def slot_defs)
  next
    case False
    with admin show ?thesis by (auto simp: token_inv_def slot_defs mem_holders)
  qed
next
  case (clear s p)
  then show ?case by (simp add: token_inv_def slot_defs mem_holders insert_absorb)
next
  case (cancel_nil s p)
  then show ?case by (simp add: token_inv_def slot_defs mem_holders insert_absorb)
next
  case (admin_release s p)
  then show ?case by (simp add: token_inv_def slot_defs mem_holders card_Diff_singleton)
qed (simp_all add: token_inv_def mem_holders)

lemma count_inv_step: "slot_step s t \<Longrightarrow> count_inv s \<Longrightarrow> count_inv t"
proof (induction rule: slot_step.induct)
  case (cancel_admin s p c)
  then show ?case
    by (simp add: count_inv_def slot_defs mem_waiters insert_absorb split: option.split)
next
  case (got s p)
  then show ?case by (simp add: count_inv_def slot_defs mem_waiters card_Diff_singleton)
next
  case (gave_up s p)
  then show ?case by (simp add: count_inv_def slot_defs mem_waiters card_Diff_singleton)
qed (auto simp: count_inv_def slot_defs mem_waiters insert_absorb)

text \<open>At most one request holds the slot, and while one does the gate is empty.\<close>

lemma token_unique:
  assumes "token_inv s" and "holding (pc s p)"
  shows "gate s = 0" and "holding (pc s q) \<Longrightarrow> q = p"
proof -
  from assms have p: "p \<in> holders s" and fin: "finite (holders s)"
    by (auto simp: token_inv_def mem_holders)
  then have pos: "0 < card (holders s)" by (auto simp: card_gt_0_iff)
  with assms(1) show "gate s = 0" by (simp add: token_inv_def)
  from assms(1) pos have "card (holders s) = 1" by (simp add: token_inv_def)
  with p fin show "holding (pc s q) \<Longrightarrow> q = p"
    by (auto simp: mem_holders [symmetric] card_1_singleton_iff)
qed

lemma admin_inv_step:
  "slot_step s t \<Longrightarrow> token_inv s \<Longrightarrow> admin_inv s \<Longrightarrow> admin_inv t"
proof (induction rule: slot_step.induct)
  case (admin s p)
  have "pc s a \<noteq> AHolding" if "0 < gate s" for a
    using token_unique(1) [OF admin(2), of a] that by auto
  with admin show ?case by (auto simp: admin_inv_def slot_defs)
next
  case (clear s p)
  then have "pc s a \<noteq> AHolding" if "a \<noteq> p" for a
    using token_unique(2) [OF clear(2), of p a] that by auto
  with clear show ?case by (auto simp: admin_inv_def slot_defs)
qed (auto simp: admin_inv_def slot_defs split: option.split)

lemma preempt_invD:
  "preempt_inv s \<Longrightarrow> pc s a = AHolding \<Longrightarrow> waiting (pc s p) \<Longrightarrow>
     pc s p \<noteq> FRegistered (Some a) \<Longrightarrow> cause s a \<noteq> None"
  by (simp add: preempt_inv_def) blast

lemma preempt_inv_cancel: "preempt_inv s \<Longrightarrow> preempt_inv (cancel_context b c s)"
  using cancel_context_keeps [of s] unfolding preempt_inv_def
  by (simp del: not_None_eq)

lemma preempt_inv_step:
  assumes "slot_step s t" and "token_inv s" and "count_inv s" and "admin_inv s" and "preempt_inv s"
  shows "preempt_inv t"
  using assms
proof (induction rule: slot_step.induct)
  case (register s p)
  then show ?case by (auto simp: preempt_inv_def slot_defs admin_inv_def)
next
  case (cancel_admin s p c)
  show ?case
  proof (cases c)
    case None
    have "cause s a \<noteq> None" if "pc s a = AHolding" for a
      using preempt_invD [OF cancel_admin(5) that, of p] cancel_admin(1) None by simp
    with None show ?thesis by (auto simp: preempt_inv_def slot_defs)
  next
    case (Some b)
    have "cause (cancel_context b AdminStatusDeferred s) a \<noteq> None" if "pc s a = AHolding" for a
    proof (cases "a = b")
      case False
      then have "cause s a \<noteq> None"
        using preempt_invD [OF cancel_admin(5) that, of p] cancel_admin(1) Some by simp
      then show ?thesis by (rule cancel_context_keeps)
    qed simp
    with Some show ?thesis by (auto simp: preempt_inv_def slot_defs)
  qed
next
  case (receive s p)
  then have "pc s a \<noteq> AHolding" for a
    using token_unique(1) [OF receive(3), of a] by auto
  then show ?case by (auto simp: preempt_inv_def slot_defs)
next
  case (give_up s p)
  have "cause s a \<noteq> None" if "pc s a = AHolding" for a
    using preempt_invD [OF give_up(5) that, of p] give_up(1) by simp
  then show ?case by (auto simp: preempt_inv_def slot_defs)
next
  case (admin s p)
  have none: "\<not> waiting (pc s q)" if "fbsWaiters s = 0" for q
    using admin(3) that by (auto simp: count_inv_def mem_waiters [symmetric])
  with admin show ?case by (auto simp: preempt_inv_def slot_defs)
next
  case (admin_parent s p)
  then show ?case by (simp add: preempt_inv_cancel)
next
  case (cancel_nil s p)
  from preempt_inv_cancel [OF cancel_nil(5), of p NilCause] show ?case
    by (auto simp: preempt_inv_def slot_defs)
qed (auto simp: preempt_inv_def slot_defs)

lemma slot_inv_step: "slot_step s t \<Longrightarrow> slot_inv s \<Longrightarrow> slot_inv t"
  by (auto simp: slot_inv_def intro: token_inv_step count_inv_step admin_inv_step
      preempt_inv_step)

lemma slot_inv_start: "slot_inv newDeviceAuthState"
  by (simp add: slot_inv_defs newDeviceAuthState_def holders_def waiters_def)

lemma reachable_slot_inv: "slot_reachable s \<Longrightarrow> slot_inv s"
  by (induction rule: slot_reachable.induct) (auto intro: slot_inv_start slot_inv_step)

section \<open>What the slot guarantees\<close>

lemma reachable_unique:
  assumes "slot_reachable s" and "holding (pc s p)" and "holding (pc s q)"
  shows "p = q"
  using token_unique(2) [of s p q] reachable_slot_inv [OF assms(1)] assms(2,3)
  by (simp add: slot_inv_def)

lemma reachable_gate_empty:
  "slot_reachable s \<Longrightarrow> holding (pc s p) \<Longrightarrow> gate s = 0"
  using token_unique(1) reachable_slot_inv by (auto simp: slot_inv_def)

lemma reachable_preempted:
  assumes "slot_reachable s" and "pc s a = AHolding" and "pc s p \<in> {FWaiting, FGaveUp}"
  shows "cause s a \<noteq> None"
  using preempt_invD [of s a p] reachable_slot_inv [OF assms(1)] assms(2,3)
  by (auto simp: slot_inv_def)

inductive_cases slot_stepE: "slot_step s t"

lemma admin_start_step:
  assumes "slot_step s t" and "pc s a \<noteq> AHolding" and "pc t a = AHolding"
  shows "fbsWaiters s = 0 \<and> 0 < gate s \<and> t = acquireAdmin a s"
  using assms by cases (auto simp: slot_defs split: if_splits option.splits)

lemma reachable_admin_start:
  assumes "slot_reachable s" and "slot_step s t" and "pc s a \<noteq> AHolding" and "pc t a = AHolding"
  shows "\<not> waiting (pc s p) \<and> \<not> holding (pc s p)"
proof -
  from assms(1) have inv: "token_inv s" "count_inv s"
    by (auto simp: slot_inv_def dest: reachable_slot_inv)
  from admin_start_step [OF assms(2-4)] have "fbsWaiters s = 0" "0 < gate s" by auto
  with inv token_free(2) [OF inv(1)] show ?thesis
    by (auto simp: count_inv_def mem_waiters [symmetric] mem_holders [symmetric])
qed

text \<open>
  The holder of the slot can always take the step that brings it closer to giving the token
  back, whatever the other requests do.
\<close>

fun steps_to_release :: "slot_pc \<Rightarrow> nat" where
  "steps_to_release AHolding = 3"
| "steps_to_release AClearing = 2"
| "steps_to_release ACancelled = 1"
| "steps_to_release FGot = 2"
| "steps_to_release FHolding = 1"
| "steps_to_release _ = 0"

lemma holder_step:
  assumes "token_inv s" and "holding (pc s q)"
  shows "\<exists>t. slot_step s t \<and> (\<forall>r. r \<noteq> q \<longrightarrow> pc t r = pc s r) \<and>
      steps_to_release (pc t q) < steps_to_release (pc s q) \<and>
      (holding (pc t q) \<or> gate t = 1)"
proof -
  have gate: "gate s = 0" using token_unique(1) [OF assms] .
  from assms(2) consider "pc s q = FGot" | "pc s q = FHolding" | "pc s q = AHolding"
    | "pc s q = AClearing" | "pc s q = ACancelled"
    by (auto simp: holding_def)
  then show ?thesis
  proof cases
    case 1
    from slot_step.got [OF 1] show ?thesis
      by (intro exI [of _ "fbs_unregister q FHolding s"]) (auto simp: 1 slot_defs)
  next
    case 2
    from slot_step.fbs_release [OF 2] gate show ?thesis
      by (intro exI [of _ "release_gate q FReleased s"]) (auto simp: 2 slot_defs)
  next
    case 3
    from slot_step.clear [OF 3] show ?thesis
      by (intro exI [of _ "admin_clear q s"]) (auto simp: 3 slot_defs)
  next
    case 4
    from slot_step.cancel_nil [OF 4] show ?thesis
      by (intro exI [of _ "admin_cancel_nil q s"]) (auto simp: 4 slot_defs)
  next
    case 5
    from slot_step.admin_release [OF 5] gate show ?thesis
      by (intro exI [of _ "release_gate q AReleased s"]) (auto simp: 5 slot_defs)
  qed
qed

lemma holder_releases:
  assumes "slot_inv s" and "holding (pc s q)" and "p \<noteq> q"
  shows "\<exists>t. slot_step\<^sup>*\<^sup>* s t \<and> pc t p = pc s p \<and> gate t = 1"
  using assms
proof (induction "steps_to_release (pc s q)" arbitrary: s rule: less_induct)
  case (less s)
  from less.prems holder_step [of s q] obtain t where t: "slot_step s t"
      "\<And>r. r \<noteq> q \<Longrightarrow> pc t r = pc s r"
      "steps_to_release (pc t q) < steps_to_release (pc s q)"
      "holding (pc t q) \<or> gate t = 1"
    by (auto simp: slot_inv_def)
  have inv: "slot_inv t" using t(1) less.prems(1) by (rule slot_inv_step)
  from t(4) show ?case
  proof
    assume "gate t = 1"
    with t less.prems(3) show ?thesis by (intro exI [of _ t]) auto
  next
    assume "holding (pc t q)"
    with less.hyps [OF t(3) inv] less.prems(3) obtain u where
      "slot_step\<^sup>*\<^sup>* t u" "pc u p = pc t p" "gate u = 1" by blast
    with t less.prems(3) show ?thesis
      by (intro exI [of _ u]) (auto intro: converse_rtranclp_into_rtranclp)
  qed
qed

lemma waiting_request_served:
  assumes "slot_reachable s" and "pc s p = FWaiting"
  shows "\<exists>t. slot_step\<^sup>*\<^sup>* s t \<and> pc t p = FHolding"
proof -
  have inv: "slot_inv s" using assms(1) by (rule reachable_slot_inv)
  have "\<exists>t. slot_step\<^sup>*\<^sup>* s t \<and> pc t p = FWaiting \<and> gate t = 1"
  proof (cases "holders s = {}")
    case True
    with inv assms(2) show ?thesis by (intro exI [of _ s]) (simp add: slot_inv_defs)
  next
    case False
    then obtain q where "holding (pc s q)" by (auto simp: holders_def)
    moreover from this assms(2) have "p \<noteq> q" by auto
    ultimately show ?thesis using holder_releases [OF inv] assms(2) by metis
  qed
  then obtain t where t: "slot_step\<^sup>*\<^sup>* s t" "pc t p = FWaiting" "gate t = 1" by blast
  let ?u = "fbs_receive p t"
  have "slot_step t ?u" using t by (intro slot_step.receive) simp_all
  moreover have "slot_step ?u (fbs_unregister p FHolding ?u)"
    by (rule slot_step.got) (simp add: slot_defs)
  ultimately have "slot_step\<^sup>*\<^sup>* s (fbs_unregister p FHolding ?u)"
    using t(1) by (meson rtranclp.rtrancl_into_rtrancl)
  then show ?thesis by (intro exI [of _ "fbs_unregister p FHolding ?u"]) (simp add: slot_defs)
qed

section \<open>Properties\<close>

text \<open>An Admin request holds the slot, and an FBS request arrived and cancelled it.\<close>

definition contended :: slot where
  "contended = fbs_cancel_admin 1 (Some 0) (fbs_register 1 (acquireAdmin 0 newDeviceAuthState))"

lemma contended_pc: "pc contended 0 = AHolding" "pc contended 1 = FWaiting"
  by (simp_all add: contended_def slot_defs newDeviceAuthState_def)

lemma contended_reachable: "slot_reachable contended"
proof -
  let ?a = "acquireAdmin 0 newDeviceAuthState"
  let ?b = "fbs_register 1 ?a"
  have "slot_step newDeviceAuthState ?a"
    by (rule slot_step.admin) (simp add: newDeviceAuthState_def)
  moreover have "slot_step ?a ?b"
    by (rule slot_step.register) (simp add: slot_defs newDeviceAuthState_def)
  moreover have "slot_step ?b contended"
    unfolding contended_def
    by (rule slot_step.cancel_admin) (simp add: slot_defs newDeviceAuthState_def)
  ultimately show ?thesis by (blast intro: slot_reachable.intros)
qed

text \<open>
  C4. One request at a time per device: in every reachable state of the slot, under any
  interleaving of FBS and Admin requests, arrivals, time-outs and releases, at most one request
  holds it, and while one does the gate holds no token.
\<close>

theorem one_request_per_device:
  assumes "slot_reachable s" and "holding (pc s p)" and "holding (pc s q)"
  shows "p = q \<and> gate s = 0"
  using reachable_unique [OF assms] reachable_gate_empty [OF assms(1,2)] by simp

theorem one_request_per_device_witness: "gate contended = 0 \<and> holding (pc contended 0)"
  using one_request_per_device [OF contended_reachable, of 0 0] by (simp add: contended_pc)

text \<open>
  C5. Production traffic comes first: an Admin request starts only when no request holds the
  slot and no FBS request waits for it, and an Admin request that is active while an FBS request
  has joined the queue has already been cancelled.
\<close>

theorem production_comes_first:
  assumes "slot_reachable s"
  shows "(slot_step s t \<and> pc s a \<noteq> AHolding \<and> pc t a = AHolding
        \<longrightarrow> (\<forall>p. \<not> waiting (pc s p) \<and> \<not> holding (pc s p)))
    \<and> (pc s a = AHolding \<and> pc s p \<in> {FWaiting, FGaveUp} \<longrightarrow> cause s a \<noteq> None)"
  using reachable_admin_start [OF assms, of t a] reachable_preempted [OF assms, of a p] by blast

theorem production_comes_first_witness: "cause contended 0 \<noteq> None"
  using production_comes_first [OF contended_reachable, of contended 0 1]
  by (simp add: contended_pc [simplified])

text \<open>
  C27. No FBS request is locked out: from every reachable state in which an FBS request waits,
  there is an execution that ends with that request holding the slot.
\<close>

theorem waiting_request_can_be_served:
  assumes "slot_reachable s" and "pc s p = FWaiting"
  shows "\<exists>t. slot_step\<^sup>*\<^sup>* s t \<and> pc t p = FHolding"
  using assms by (rule waiting_request_served)

theorem waiting_request_can_be_served_witness:
  "\<exists>t. slot_step\<^sup>*\<^sup>* contended t \<and> pc t 1 = FHolding"
  by (rule waiting_request_can_be_served [OF contended_reachable contended_pc(2)])

end
