(* ===== verification/Config_Store.thy ===== *)
theory Config_Store
  imports Config_Model
begin

text \<open>
  The configuration database (internal/configstore/store.go). SQLite itself is not modelled; the
  tables, constraints and statements are, as the schema and the SQL of the code give them: a row
  is a record, a table the list of its rows, a CHECK a predicate, a UNIQUE a condition on the
  rows already there. A statement can also fail for reasons of its own (disk, lock); \<open>faults\<close>
  says which do. A transaction works on a copy of the database that replaces it on commit.
  Times are the texts the code stores.
\<close>

section \<open>Schema\<close>

record settings_row =
  sr_bind :: string
  sr_timeout_ms :: int
  sr_safe_state_on_error :: string
  sr_server_ca_file :: string
  sr_client_cert_file :: string
  sr_client_key_file :: string
  sr_updated_at :: string

record tool_row =
  tr_id :: int
  tr_sort_order :: int
  tr_interlock_name :: string
  tr_ip :: string
  tr_protocol :: string
  tr_port :: int
  tr_switch_id :: int
  tr_username :: "string option"
  tr_password :: "string option"
  tr_enabled :: int
  tr_created_at :: string
  tr_updated_at :: string

record database =
  db_user_version :: int
  db_schema :: bool
  db_gateway_settings :: "settings_row option"
  db_tools :: "tool_row list"

text \<open>
  SQLite's \<open>trim\<close> takes spaces off both ends, \<open>lower\<close> folds ASCII letters, \<open>length\<close> counts the
  characters of a text (a byte that continues a UTF-8 character is not counted), and
  \<open>NOT GLOB '*[^...]*'\<close> says that every character is one of the set.
\<close>

definition sql_trim :: "string \<Rightarrow> string" where
  "sql_trim s = rev (dropWhile (\<lambda>c. c = CHR '' '') (rev (dropWhile (\<lambda>c. c = CHR '' '') s)))"

definition sql_lower :: "string \<Rightarrow> string" where
  "sql_lower s = map ascii_lower s"

definition sql_length :: "string \<Rightarrow> nat" where
  "sql_length s = length (filter (\<lambda>c. (of_char c :: nat) < 128 \<or> 192 \<le> (of_char c :: nat))
     (takeWhile (\<lambda>c. c \<noteq> CHR 0x00) s))"

definition alphanumeric :: string where
  "alphanumeric = ''0123456789ABCDEFGHIJKLMNOPQRSTUVWXYZabcdefghijklmnopqrstuvwxyz''"

datatype sql_error =
    CheckFailed string
  | UniqueFailed string
  | StatementFailed string

definition settings_check :: "settings_row \<Rightarrow> sql_error option" where
  "settings_check r =
     (if sr_timeout_ms r \<le> 0 then Some (CheckFailed ''timeout_ms'')
      else if sql_lower (sr_safe_state_on_error r) \<notin> {''on'', ''off''}
        then Some (CheckFailed ''safe_state_on_error'')
      else None)"

definition tool_check :: "tool_row \<Rightarrow> sql_error option" where
  "tool_check r =
     (if tr_sort_order r < 0 then Some (CheckFailed ''sort_order'')
      else if tr_interlock_name r \<noteq> sql_trim (tr_interlock_name r)
          \<or> sql_length (tr_interlock_name r) < 1 \<or> 16 < sql_length (tr_interlock_name r)
        then Some (CheckFailed ''interlock_name'')
      else if sql_length (sql_trim (tr_ip r)) = 0 then Some (CheckFailed ''ip'')
      else if tr_protocol r \<noteq> ''http'' \<and> tr_protocol r \<noteq> ''https'' then Some (CheckFailed ''protocol'')
      else if tr_port r < 8081 \<or> 8981 < tr_port r then Some (CheckFailed ''port'')
      else if tr_switch_id r < 0 then Some (CheckFailed ''switch_id'')
      else if (case tr_password r of None \<Rightarrow> False
          | Some pw \<Rightarrow> sql_length pw \<noteq> 32 \<or> \<not> list_all (\<lambda>c. c \<in> set alphanumeric) pw)
        then Some (CheckFailed ''password'')
      else if tr_enabled r \<noteq> 0 \<and> tr_enabled r \<noteq> 1 then Some (CheckFailed ''enabled'')
      else None)"

definition tool_unique :: "tool_row \<Rightarrow> tool_row list \<Rightarrow> sql_error option" where
  "tool_unique r rows =
     (if list_ex (\<lambda>q. tr_id q = tr_id r) rows then Some (UniqueFailed ''id'')
      else if list_ex (\<lambda>q. tr_interlock_name q = tr_interlock_name r) rows
        then Some (UniqueFailed ''interlock_name'')
      else if list_ex (\<lambda>q. tr_ip q = tr_ip r) rows then Some (UniqueFailed ''ip'')
      else if list_ex (\<lambda>q. tr_port q = tr_port r) rows then Some (UniqueFailed ''port'')
      else if list_ex (\<lambda>q. tr_sort_order q = tr_sort_order r) rows
        then Some (UniqueFailed ''sort_order'')
      else None)"

section \<open>The transaction\<close>

datatype sql_call = BeginTx | QueryExisting | UpsertSettings | DeleteTools | InsertTool nat | CommitTx

datatype store_error =
    ErrUninitialized
  | InvalidConfig config_error
  | InvalidStored config_error
  | SchemaTooNew int
  | SQL string sql_error

record existingTool =
  et_id :: int
  et_port :: int
  et_name :: string
  et_createdAt :: string

definition loadExistingTools :: "database \<Rightarrow> existingTool list" where
  "loadExistingTools db =
     map (\<lambda>r. \<lparr>et_id = tr_id r, et_port = tr_port r, et_name = tr_interlock_name r,
                et_createdAt = tr_created_at r\<rparr>) (db_tools db)"

definition boolInt :: "bool \<Rightarrow> int" where
  "boolInt v = (if v then 1 else 0)"

definition stringPtrValue :: "string option \<Rightarrow> string option" where
  "stringPtrValue v = (case v of None \<Rightarrow> None | Some s \<Rightarrow> Some s)"

definition nullStringPtr :: "string option \<Rightarrow> string option" where
  "nullStringPtr v = (case v of None \<Rightarrow> None | Some s \<Rightarrow> Some s)"

definition insertTool ::
  "sql_error option \<Rightarrow> int \<Rightarrow> nat \<Rightarrow> tool \<Rightarrow> string \<Rightarrow> string \<Rightarrow> string \<Rightarrow> tool_row list
     \<Rightarrow> store_error + tool_row list" where
  "insertTool fault rid sortOrder t protocol createdAt updatedAt rows =
     (let row = \<lparr>tr_id = rid, tr_sort_order = int sortOrder,
                 tr_interlock_name = TrimSpace (tool_interlock_name t),
                 tr_ip = TrimSpace (tool_ip t), tr_protocol = protocol, tr_port = tool_port t,
                 tr_switch_id = tool_switch_id t, tr_username = stringPtrValue (tool_username t),
                 tr_password = stringPtrValue (tool_password t),
                 tr_enabled = boolInt (tool_enabled t), tr_created_at = createdAt,
                 tr_updated_at = updatedAt\<rparr>;
          failed = (case fault of Some e \<Rightarrow> Some e | None \<Rightarrow>
                     (case tool_check row of Some e \<Rightarrow> Some e | None \<Rightarrow> tool_unique row rows))
      in case failed of
           Some e \<Rightarrow> Inl (SQL (''insert tool '' @ tool_interlock_name t) e)
         | None \<Rightarrow> Inr (rows @ [row]))"

text \<open>The key under which a stored name is looked up, and the three maps of the loop.\<close>

definition name_key :: "string \<Rightarrow> string" where
  "name_key name = ToLower (TrimSpace name)"

definition byPort :: "existingTool list \<Rightarrow> int \<rightharpoonup> existingTool" where
  "byPort existing = fold (\<lambda>item m. m(et_port item \<mapsto> item)) existing Map.empty"

definition nameCount :: "existingTool list \<Rightarrow> string \<Rightarrow> nat" where
  "nameCount existing key = length (filter (\<lambda>item. name_key (et_name item) = key) existing)"

definition byName :: "existingTool list \<Rightarrow> string \<rightharpoonup> existingTool" where
  "byName existing = fold (\<lambda>item m. m(name_key (et_name item) \<mapsto> item)) existing Map.empty"

definition first_free_id :: "existingTool list \<Rightarrow> int" where
  "first_free_id existing =
     fold (\<lambda>item nextID. if nextID \<le> et_id item then et_id item + 1 else nextID) existing 1"

definition preserved :: "existingTool list \<Rightarrow> tool \<Rightarrow> existingTool option" where
  "preserved existing t =
     (let key = name_key (tool_interlock_name t);
          by_name = (if nameCount existing key = 1 then byName existing key else None)
      in case by_name of Some item \<Rightarrow> Some item | None \<Rightarrow> byPort existing (tool_port t))"

text \<open>The loop over the new tools, with the next free identity, the index and the rows so far.\<close>

fun write_tools ::
  "(sql_call \<Rightarrow> sql_error option) \<Rightarrow> string \<Rightarrow> existingTool list \<Rightarrow> int \<Rightarrow> nat \<Rightarrow> tool list
     \<Rightarrow> tool_row list \<Rightarrow> store_error + tool_row list" where
  "write_tools faults now existing nextID index [] rows = Inr rows"
| "write_tools faults now existing nextID index (t # ts) rows =
     (let (rid, createdAt, nextID1) =
        (case preserved existing t of
           Some item \<Rightarrow> (et_id item, et_createdAt item, nextID)
         | None \<Rightarrow> (nextID, now, nextID + 1))
      in case insertTool (faults (InsertTool index)) rid index t (ToolProtocol t) createdAt now rows of
           Inl e \<Rightarrow> Inl e
         | Inr rows1 \<Rightarrow> write_tools faults now existing nextID1 (Suc index) ts rows1)"

definition settings_of :: "config \<Rightarrow> string \<Rightarrow> settings_row" where
  "settings_of cfg now =
     \<lparr>sr_bind = cfg_bind cfg, sr_timeout_ms = timeout_ms (cfg_defaults cfg),
      sr_safe_state_on_error = ToLower (TrimSpace (safe_state_on_error (cfg_defaults cfg))),
      sr_server_ca_file = server_ca_file (shelly_tls (cfg_defaults cfg)),
      sr_client_cert_file = client_cert_file (shelly_tls (cfg_defaults cfg)),
      sr_client_key_file = client_key_file (shelly_tls (cfg_defaults cfg)),
      sr_updated_at = now\<rparr>"

definition exec :: "sql_error option \<Rightarrow> string \<Rightarrow> (store_error + unit)" where
  "exec fault what = (case fault of Some e \<Rightarrow> Inl (SQL what e) | None \<Rightarrow> Inr ())"

definition replace_tx ::
  "(sql_call \<Rightarrow> sql_error option) \<Rightarrow> string \<Rightarrow> config \<Rightarrow> database \<Rightarrow> store_error + database" where
  "replace_tx faults now cfg db =
     (case exec (faults BeginTx) ''begin config transaction'' of Inl e \<Rightarrow> Inl e | Inr _ \<Rightarrow>
      (case exec (faults QueryExisting) ''load existing tool identities'' of Inl e \<Rightarrow> Inl e | Inr _ \<Rightarrow>
       (let existing = loadExistingTools db; settings = settings_of cfg now
        in case (case faults UpsertSettings of Some e \<Rightarrow> Some e | None \<Rightarrow> settings_check settings) of
             Some e \<Rightarrow> Inl (SQL ''write gateway settings'' e)
           | None \<Rightarrow>
               (case exec (faults DeleteTools) ''replace tools'' of Inl e \<Rightarrow> Inl e | Inr _ \<Rightarrow>
                (case write_tools faults now existing (first_free_id existing) 0 (cfg_tools cfg) [] of
                   Inl e \<Rightarrow> Inl e
                 | Inr rows \<Rightarrow>
                     (case exec (faults CommitTx) ''commit config transaction'' of Inl e \<Rightarrow> Inl e
                      | Inr _ \<Rightarrow> Inr (db\<lparr>db_gateway_settings := Some settings, db_tools := rows\<rparr>)))))))"

text \<open>
  \<open>Replace\<close> and \<open>Initialize\<close>: the result, the database after it, and the configuration the
  compatibility mirror is asked to hold, if it is written (a failure to write it is only logged).
\<close>

definition replace ::
  "(sql_call \<Rightarrow> sql_error option) \<Rightarrow> string \<Rightarrow> string \<Rightarrow> bool \<Rightarrow> config \<Rightarrow> database
     \<Rightarrow> store_error option \<times> database \<times> config option" where
  "replace faults mirrorPath now writeMirror cfg0 db =
     (let cfg = Clone (ApplyDefaults cfg0)
      in case Validate cfg of
           Some e \<Rightarrow> (Some (InvalidConfig e), db, None)
         | None \<Rightarrow>
             (case replace_tx faults now cfg db of
                Inl e \<Rightarrow> (Some e, db, None)
              | Inr db1 \<Rightarrow> (None, db1, if writeMirror \<and> mirrorPath \<noteq> [] then Some cfg else None)))"

definition Replace where "Replace faults mirrorPath now cfg db = replace faults mirrorPath now True cfg db"
definition Initialize where "Initialize faults mirrorPath now cfg db = replace faults mirrorPath now False cfg db"

section \<open>Loading\<close>

definition load_tool :: "tool_row \<Rightarrow> tool" where
  "load_tool r =
     \<lparr>tool_interlock_name = tr_interlock_name r, tool_ip = tr_ip r, tool_protocol = tr_protocol r,
      tool_port = tr_port r, tool_switch_id = tr_switch_id r,
      tool_username = nullStringPtr (tr_username r), tool_password = nullStringPtr (tr_password r),
      tool_enabled = (tr_enabled r \<noteq> 0)\<rparr>"

definition Load :: "database \<Rightarrow> store_error + config" where
  "Load db =
     (case db_gateway_settings db of
        None \<Rightarrow> Inl ErrUninitialized
      | Some s \<Rightarrow>
          (let cfg = ApplyDefaults
             \<lparr>cfg_bind = sr_bind s,
              cfg_defaults = \<lparr>timeout_ms = sr_timeout_ms s,
                safe_state_on_error = sr_safe_state_on_error s,
                shelly_tls = \<lparr>server_ca_file = sr_server_ca_file s,
                  client_cert_file = sr_client_cert_file s, client_key_file = sr_client_key_file s\<rparr>\<rparr>,
              cfg_tools = map load_tool (sort_key tr_sort_order (db_tools db))\<rparr>
           in case Validate cfg of
                Some e \<Rightarrow> Inl (InvalidStored e)
              | None \<Rightarrow> Inr (Clone cfg)))"

section \<open>Opening\<close>

definition schemaVersion :: int where "schemaVersion = 1"

definition migrate :: "(sql_call \<Rightarrow> sql_error option) \<Rightarrow> database \<Rightarrow> store_error option \<times> database" where
  "migrate faults db =
     (let version = db_user_version db
      in if schemaVersion < version then (Some (SchemaTooNew version), db)
         else if version = schemaVersion then (None, db)
         else
           (case exec (faults BeginTx) ''begin schema migration'' of
              Inl e \<Rightarrow> (Some e, db)
            | Inr _ \<Rightarrow>
                if version = 0 \<and> db_schema db
                then (Some (SQL ''create sqlite schema v1'' (StatementFailed ''table exists'')), db)
                else (let db1 = (if version = 0
                   then db\<lparr>db_schema := True, db_gateway_settings := None, db_tools := [],
                           db_user_version := 1\<rparr> else db)
                 in case exec (faults CommitTx) ''commit schema migration'' of
                      Inl e \<Rightarrow> (Some e, db)
                    | Inr _ \<Rightarrow> (None, db1))))"

section \<open>What a table holds\<close>

definition table_ok :: "tool_row list \<Rightarrow> bool" where
  "table_ok rows \<longleftrightarrow>
     list_all (\<lambda>r. tool_check r = None) rows \<and> distinct (map tr_id rows) \<and>
     distinct (map tr_interlock_name rows) \<and> distinct (map tr_ip rows) \<and>
     distinct (map tr_port rows) \<and> distinct (map tr_sort_order rows)"

definition db_ok :: "database \<Rightarrow> bool" where
  "db_ok db \<longleftrightarrow>
     table_ok (db_tools db) \<and>
     (\<forall>s. db_gateway_settings db = Some s \<longrightarrow> settings_check s = None)"

text \<open>The tool and the configuration that come back for what was saved.\<close>

definition stored_tool :: "tool \<Rightarrow> tool" where
  "stored_tool t = t\<lparr>tool_interlock_name := TrimSpace (tool_interlock_name t),
     tool_ip := TrimSpace (tool_ip t), tool_protocol := ToolProtocol t\<rparr>"

definition stored_config :: "config \<Rightarrow> config" where
  "stored_config cfg =
     cfg\<lparr>cfg_defaults := (cfg_defaults cfg)\<lparr>safe_state_on_error :=
           ToLower (TrimSpace (safe_state_on_error (cfg_defaults cfg)))\<rparr>,
         cfg_tools := map stored_tool (cfg_tools cfg)\<rparr>"

lemma table_ok_snoc:
  "table_ok rows \<Longrightarrow> tool_check r = None \<Longrightarrow> tool_unique r rows = None \<Longrightarrow> table_ok (rows @ [r])"
  by (auto simp: table_ok_def tool_unique_def list_ex_iff split: if_splits)

text \<open>What inserting one tool does when it succeeds.\<close>

lemma insertTool_Inr:
  assumes "insertTool fault rid k t (ToolProtocol t) createdAt now rows = Inr rows'"
  obtains r where "rows' = rows @ [r]" "tool_check r = None" "tool_unique r rows = None"
    "load_tool r = stored_tool t" "tr_sort_order r = int k" "tr_id r = rid"
    "tr_created_at r = createdAt" "tr_updated_at r = now"
  using assms
  by (cases t)
    (auto simp: insertTool_def Let_def load_tool_def stored_tool_def boolInt_def
      stringPtrValue_def nullStringPtr_def split: option.splits if_splits)

lemma write_tools_Inr:
  assumes "write_tools faults now existing n k ts rows = Inr rows'"
  shows "\<exists>new. rows' = rows @ new \<and> map load_tool new = map stored_tool ts
    \<and> map tr_sort_order new = map int [k..<k + length ts]
    \<and> (table_ok rows \<longrightarrow> table_ok rows')"
  using assms
proof (induction ts arbitrary: n k rows)
  case Nil
  then show ?case by simp
next
  case (Cons t ts)
  from Cons.prems obtain rid createdAt n1 rows1 where
      ins: "insertTool (faults (InsertTool k)) rid k t (ToolProtocol t) createdAt now rows = Inr rows1"
    and rest: "write_tools faults now existing n1 (Suc k) ts rows1 = Inr rows'"
    by (auto simp: Let_def split: prod.splits sum.splits)
  from insertTool_Inr [OF ins] obtain r where r: "rows1 = rows @ [r]" "tool_check r = None"
      "tool_unique r rows = None" "load_tool r = stored_tool t" "tr_sort_order r = int k"
    by metis
  from Cons.IH [OF rest] obtain new where new: "rows' = rows1 @ new"
      "map load_tool new = map stored_tool ts"
      "map tr_sort_order new = map int [Suc k..<Suc k + length ts]"
      "table_ok rows1 \<longrightarrow> table_ok rows'"
    by blast
  have "[k..<k + length (t # ts)] = k # [Suc k..<Suc k + length ts]"
    by (simp add: upt_conv_Cons [of k] del: upt_Suc)
  with r new table_ok_snoc [of rows r] show ?case
    by (intro exI [of _ "r # new"]) (simp del: upt_Suc)
qed

lemma table_ok_Nil [simp]: "table_ok []"
  by (simp add: table_ok_def)

lemma replace_tx_Inr:
  assumes "replace_tx faults now cfg db = Inr db'"
  shows "db_gateway_settings db' = Some (settings_of cfg now)"
    and "settings_check (settings_of cfg now) = None"
    and "map load_tool (db_tools db') = map stored_tool (cfg_tools cfg)"
    and "sorted (map tr_sort_order (db_tools db'))"
    and "db_ok db'"
proof -
  from assms obtain rows where rows:
      "write_tools faults now (loadExistingTools db) (first_free_id (loadExistingTools db)) 0
         (cfg_tools cfg) [] = Inr rows"
    and db': "db' = db\<lparr>db_gateway_settings := Some (settings_of cfg now), db_tools := rows\<rparr>"
    and check: "settings_check (settings_of cfg now) = None"
    by (auto simp: replace_tx_def Let_def split: sum.splits option.splits)
  from write_tools_Inr [OF rows] have *: "map load_tool rows = map stored_tool (cfg_tools cfg)"
      "map tr_sort_order rows = map int [0..<length (cfg_tools cfg)]" "table_ok rows"
    by auto
  have "sorted (map int [0..<n])" for n by (simp add: sorted_map)
  with * check show "db_gateway_settings db' = Some (settings_of cfg now)"
    "settings_check (settings_of cfg now) = None"
    "map load_tool (db_tools db') = map stored_tool (cfg_tools cfg)"
    "sorted (map tr_sort_order (db_tools db'))" "db_ok db'"
    by (simp_all add: db' db_ok_def)
qed

section \<open>Saving and loading\<close>

lemma ToolProtocol_fixed:
  "TrimSpace p = p \<Longrightarrow> ToLower p = p \<Longrightarrow> p \<noteq> [] \<Longrightarrow> tool_protocol t = p \<Longrightarrow> ToolProtocol t = p"
  by (simp add: ToolProtocol_def Let_def)

lemma ToolProtocol_stored [simp]:
  assumes "ToolProtocol t \<in> {''http'', ''https''}"
  shows "ToolProtocol (stored_tool t) = ToolProtocol t"
proof -
  have fixed: "TrimSpace ''http'' = ''http''" "TrimSpace ''https'' = ''https''"
    "ToLower ''http'' = ''http''" "ToLower ''https'' = ''https''"
    by code_simp+
  have "tool_protocol (stored_tool t) = ToolProtocol t" by (simp add: stored_tool_def)
  with assms fixed show ?thesis by (intro ToolProtocol_fixed) auto
qed

lemma tool_ok_stored: "tool_ok t \<Longrightarrow> tool_ok (stored_tool t)"
  using ToolProtocol_stored [of t]
  by (auto simp: tool_ok_def stored_tool_def TrimSpace_idem Contains_TrimSpace)

lemma config_ok_stored:
  assumes "config_ok cfg"
  shows "config_ok (stored_config cfg)"
proof -
  have ports: "map (tool_port \<circ> stored_tool) ts = map tool_port ts" for ts
    by (simp add: stored_tool_def)
  have proto: "ToolProtocol (stored_tool t) = ToolProtocol t" if "tool_ok t" for t
    using that by (simp add: tool_ok_def)
  from assms show ?thesis
    by (auto simp: config_ok_def tools_config_ok_def stored_config_def list_all_iff list_ex_iff
        tool_ok_stored ports proto)
qed

lemma stored_config_ApplyDefaults:
  assumes "ApplyDefaults cfg = cfg" and "settings_check (settings_of cfg now) = None"
  shows "ApplyDefaults (stored_config cfg) = stored_config cfg"
proof (rule ApplyDefaults_fixed)
  show "cfg_bind (stored_config cfg) \<noteq> []" and "0 < timeout_ms (cfg_defaults (stored_config cfg))"
    using ApplyDefaults_set [of cfg] assms(1) by (simp_all add: stored_config_def)
  from assms(2) have "sql_lower (ToLower (TrimSpace (safe_state_on_error (cfg_defaults cfg)))) \<noteq> []"
    by (auto simp: settings_check_def settings_of_def split: if_splits)
  then show "safe_state_on_error (cfg_defaults (stored_config cfg)) \<noteq> []"
    by (auto simp: stored_config_def sql_lower_def)
qed

lemma Load_replaced:
  assumes "replace_tx faults now cfg db = Inr db'" and "ApplyDefaults cfg = cfg" and "config_ok cfg"
  shows "Load db' = Inr (stored_config cfg)"
proof -
  note saved = replace_tx_Inr [OF assms(1)]
  have "sort_key tr_sort_order (db_tools db') = db_tools db'"
    using saved(4) by (rule sort_key_id_if_sorted)
  then have "Load db' = (let c = ApplyDefaults (stored_config cfg)
      in case Validate c of Some e \<Rightarrow> Inl (InvalidStored e) | None \<Rightarrow> Inr (Clone c))"
    using saved(1,3)
    by (cases cfg; cases "cfg_defaults cfg"; cases "shelly_tls (cfg_defaults cfg)")
      (simp add: Load_def stored_config_def settings_of_def)
  moreover have "Validate (stored_config cfg) = None"
    using config_ok_stored [OF assms(3)] by (simp add: Validate_None_iff)
  ultimately show ?thesis
    using stored_config_ApplyDefaults [OF assms(2) saved(2)] by simp
qed

lemma replace_cases:
  obtains (refused) e where "replace faults mp now w cfg db = (Some e, db, None)"
  | (saved) db' where
      "replace faults mp now w cfg db
         = (None, db', if w \<and> mp \<noteq> [] then Some (ApplyDefaults cfg) else None)"
      "replace_tx faults now (ApplyDefaults cfg) db = Inr db'" "config_ok (ApplyDefaults cfg)"
proof (cases "Validate (ApplyDefaults cfg)")
  case (Some e)
  then show ?thesis by - (rule refused; simp add: replace_def Let_def)
next
  case None
  show ?thesis
  proof (cases "replace_tx faults now (ApplyDefaults cfg) db")
    case (Inl e)
    with None show ?thesis by - (rule refused; simp add: replace_def Let_def)
  next
    case (Inr db')
    have ok: "config_ok (ApplyDefaults cfg)" using None by (simp add: Validate_None_iff)
    from None Inr show ?thesis by - (rule saved [OF _ Inr ok]; simp add: replace_def Let_def)
  qed
qed

section \<open>Identities\<close>

lemma write_tools_identities:
  assumes "write_tools faults now existing n k ts rows = Inr rows'" and "i < length ts"
  shows "length rows' = length rows + length ts
    \<and> (\<forall>item. preserved existing (ts ! i) = Some item \<longrightarrow>
        tr_id (rows' ! (length rows + i)) = et_id item
        \<and> tr_created_at (rows' ! (length rows + i)) = et_createdAt item)
    \<and> (preserved existing (ts ! i) = None \<longrightarrow>
        n \<le> tr_id (rows' ! (length rows + i)) \<and> tr_created_at (rows' ! (length rows + i)) = now)"
  using assms
proof (induction ts arbitrary: n k rows i)
  case Nil
  then show ?case by simp
next
  case (Cons t ts)
  define rid createdAt n1 where
    "rid = (case preserved existing t of Some item \<Rightarrow> et_id item | None \<Rightarrow> n)"
    and "createdAt = (case preserved existing t of Some item \<Rightarrow> et_createdAt item | None \<Rightarrow> now)"
    and "n1 = (case preserved existing t of Some item \<Rightarrow> n | None \<Rightarrow> n + 1)"
  from Cons.prems(1) obtain rows1 where
      ins: "insertTool (faults (InsertTool k)) rid k t (ToolProtocol t) createdAt now rows = Inr rows1"
    and rest: "write_tools faults now existing n1 (Suc k) ts rows1 = Inr rows'"
    by (auto simp: rid_def createdAt_def n1_def Let_def split: option.splits sum.splits)
  from insertTool_Inr [OF ins] obtain r where r: "rows1 = rows @ [r]" "tr_id r = rid"
      "tr_created_at r = createdAt"
    by metis
  from write_tools_Inr [OF rest] obtain new where new: "rows' = rows1 @ new"
      "map load_tool new = map stored_tool ts" by blast
  from new(2) have len: "length new = length ts" by (metis length_map)
  have n1: "n \<le> n1" by (simp add: n1_def split: option.split)
  show ?case
  proof (cases i)
    case 0
    with r new len show ?thesis
      by (auto simp: nth_append rid_def createdAt_def)
  next
    case (Suc j)
    from Cons.IH [OF rest, of j] Cons.prems(2) Suc n1 r(1) show ?thesis by auto
  qed
qed

text \<open>The first free identity is above every identity in use.\<close>

lemma first_free_fold:
  "n \<le> fold (\<lambda>item nextID. if nextID \<le> et_id item then et_id item + 1 else nextID) xs n
   \<and> (\<forall>x \<in> set xs. et_id x < fold (\<lambda>item nextID. if nextID \<le> et_id item then et_id item + 1 else nextID) xs n)"
proof (induction xs arbitrary: n)
  case Nil
  then show ?case by simp
next
  case (Cons x xs)
  from Cons [of "et_id x + 1"] Cons [of n] show ?case by force
qed

lemma first_free_above: "item \<in> set existing \<Longrightarrow> et_id item < first_free_id existing"
  using first_free_fold [of 1 existing] by (simp add: first_free_id_def)

lemma fold_lookup:
  "fold (\<lambda>x m. m(f x \<mapsto> x)) xs m k
     = (case filter (\<lambda>x. f x = k) xs of [] \<Rightarrow> m k | ys \<Rightarrow> Some (last ys))"
  by (induction xs arbitrary: m) (auto split: list.splits)

lemma byName_single:
  assumes "filter (\<lambda>x. name_key (et_name x) = key) existing = [item]"
  shows "nameCount existing key = 1 \<and> byName existing key = Some item"
  using fold_lookup [of "\<lambda>x. name_key (et_name x)" existing Map.empty key] assms
  by (simp add: nameCount_def byName_def)

lemma preserved_by_name:
  "filter (\<lambda>x. name_key (et_name x) = name_key (tool_interlock_name t)) existing = [item] \<Longrightarrow>
   preserved existing t = Some item"
  by (drule byName_single) (simp add: preserved_def Let_def)

section \<open>Properties\<close>

text \<open>
  C29. Saving the configuration is all or nothing: whatever the configuration, the database and
  the statements that fail, either an error is returned and the database and the mirror are
  untouched, or the next load returns exactly the configuration saved, with the names and
  addresses trimmed, the protocols and the fail-safe state normalised, and every row satisfies
  every constraint of the schema.
\<close>

theorem save_is_all_or_nothing:
  "case replace faults mirrorPath now writeMirror cfg db of
     (Some e, db', mirror) \<Rightarrow> db' = db \<and> mirror = None
   | (None, db', mirror) \<Rightarrow> Load db' = Inr (stored_config (ApplyDefaults cfg)) \<and> db_ok db'"
proof (cases faults mirrorPath now writeMirror cfg db rule: replace_cases)
  case refused
  then show ?thesis by simp
next
  case (saved db')
  with Load_replaced [OF saved(2) ApplyDefaults_idem saved(3)] replace_tx_Inr(5) [OF saved(2)]
  show ?thesis by simp
qed

text \<open>
  C30. Tools keep their identity: after a save, a tool whose name (trimmed, ignoring case) only
  one stored tool had keeps the identity and creation time of that tool, even when its port,
  address or place in the list changed.
\<close>

theorem renumbered_tools_keep_identity:
  assumes "replace faults mirrorPath now writeMirror cfg db = (None, db', mirror)"
    and "i < length (cfg_tools cfg)"
    and "filter (\<lambda>r. name_key (tr_interlock_name r) = name_key (tool_interlock_name (cfg_tools cfg ! i)))
           (db_tools db) = [old]"
  shows "tr_id (db_tools db' ! i) = tr_id old \<and> tr_created_at (db_tools db' ! i) = tr_created_at old
    \<and> load_tool (db_tools db' ! i) = stored_tool (cfg_tools cfg ! i)"
proof -
  from assms(1) have tx: "replace_tx faults now (ApplyDefaults cfg) db = Inr db'"
    by (cases faults mirrorPath now writeMirror cfg db rule: replace_cases) auto
  let ?ex = "loadExistingTools db" and ?t = "cfg_tools cfg ! i"
  from tx have rows: "write_tools faults now ?ex (first_free_id ?ex) 0 (cfg_tools cfg) [] = Inr (db_tools db')"
    by (auto simp: replace_tx_def Let_def split: sum.splits option.splits)
  let ?item = "\<lparr>et_id = tr_id old, et_port = tr_port old, et_name = tr_interlock_name old,
      et_createdAt = tr_created_at old\<rparr>"
  have "filter (\<lambda>x. name_key (et_name x) = name_key (tool_interlock_name ?t)) ?ex = [?item]"
    using assms(3) by (simp add: loadExistingTools_def filter_map comp_def)
  from preserved_by_name [OF this] write_tools_identities [OF rows assms(2)]
  have "tr_id (db_tools db' ! i) = tr_id old \<and> tr_created_at (db_tools db' ! i) = tr_created_at old"
    by simp
  moreover have "load_tool (db_tools db' ! i) = stored_tool ?t"
    using replace_tx_Inr(3) [OF tx] assms(2)
    by (metis ApplyDefaults_tools length_map nth_map)
  ultimately show ?thesis by simp
qed

text \<open>A small fleet, and the database after its first save.\<close>

definition shop_tool :: "string \<Rightarrow> string \<Rightarrow> int \<Rightarrow> tool" where
  "shop_tool name ip port = \<lparr>tool_interlock_name = name, tool_ip = ip, tool_protocol = ''http'',
     tool_port = port, tool_switch_id = 0, tool_username = None, tool_password = None,
     tool_enabled = True\<rparr>"

definition shop_config :: "tool list \<Rightarrow> config" where
  "shop_config ts = \<lparr>cfg_bind = ''0.0.0.0'', cfg_defaults = \<lparr>timeout_ms = 3000,
     safe_state_on_error = ''off'', shelly_tls = \<lparr>server_ca_file = [], client_cert_file = [],
       client_key_file = []\<rparr>\<rparr>, cfg_tools = ts\<rparr>"

definition empty_db :: database where
  "empty_db = \<lparr>db_user_version = 1, db_schema = True, db_gateway_settings = None, db_tools = []\<rparr>"

definition shop_db :: database where
  "shop_db = fst (snd (replace (\<lambda>c. None) [] ''t0'' False
     (shop_config [shop_tool ''A'' ''10.0.0.1'' 8081, shop_tool ''B'' ''10.0.0.2'' 8082]) empty_db))"

lemma shop_db_rows:
  "map (\<lambda>r. (tr_id r, tr_interlock_name r, tr_port r)) (db_tools shop_db)
     = [(1, ''A'', 8081), (2, ''B'', 8082)]"
  by code_simp

text \<open>The second tool moves to another port and is listed first.\<close>

definition moved_config :: config where
  "moved_config = shop_config [shop_tool ''B'' ''10.0.0.2'' 8083, shop_tool ''A'' ''10.0.0.1'' 8081]"

theorem renumbered_tools_keep_identity_witness:
  "tr_id (db_tools (fst (snd (replace (\<lambda>c. None) [] ''t1'' True moved_config shop_db))) ! 0) = 2"
proof -
  let ?r = "replace (\<lambda>c. None) [] ''t1'' True moved_config shop_db"
  define old where "old = db_tools shop_db ! 1"
  have saved: "fst ?r = None" by code_simp
  have names: "map tr_interlock_name (db_tools shop_db) = [''A'', ''B'']"
    and two: "tr_id (db_tools shop_db ! 1) = 2" by code_simp+
  then obtain a b where ab: "db_tools shop_db = [a, b]" "tr_interlock_name a = ''A''"
      "tr_interlock_name b = ''B''"
    by (auto simp: map_eq_Cons_conv)
  have keys: "name_key ''A'' \<noteq> name_key ''B''" by code_simp
  have "tool_interlock_name (cfg_tools moved_config ! 0) = ''B''"
    by (simp add: moved_config_def shop_config_def shop_tool_def)
  then have "filter (\<lambda>r. name_key (tr_interlock_name r) = name_key (tool_interlock_name (cfg_tools moved_config ! 0)))
      (db_tools shop_db) = [old]"
    using ab keys by (simp add: old_def)
  moreover have "0 < length (cfg_tools moved_config)" by (simp add: moved_config_def shop_config_def)
  ultimately have "tr_id (db_tools (fst (snd ?r)) ! 0) = tr_id old"
    using renumbered_tools_keep_identity [of "\<lambda>c. None" "[]" "''t1''" True moved_config shop_db] saved
    by (metis prod.collapse)
  with two show ?thesis by (simp add: old_def)
qed

text \<open>
  A valid configuration can be refused for its identities: with tools A on 8081 and B on
  8082 stored, the configuration in which B moves to 8081 and a new tool C takes 8082 passes
  validation and every constraint on its own, and yet cannot be saved: B keeps its identity by
  name, C is given the same one by port, and the insert fails on the primary key.
\<close>

definition taken_over_config :: config where
  "taken_over_config = shop_config [shop_tool ''B'' ''10.0.0.2'' 8081, shop_tool ''C'' ''10.0.0.3'' 8082]"

lemma taken_over_port_blocks_save:
  "Validate taken_over_config = None
   \<and> fst (replace (\<lambda>c. None) [] ''t1'' True taken_over_config empty_db) = None
   \<and> fst (replace (\<lambda>c. None) [] ''t1'' True taken_over_config shop_db)
       = Some (SQL ''insert tool C'' (UniqueFailed ''id''))"
  by (intro conjI; code_simp)

text \<open>
  The fail-safe state in memory and the stored one can differ: a configuration whose
  safe_state_on_error has a space in front is accepted and saved; the gateway that saved it
  fails safe to off, the one that loads it after a restart fails safe to on.
\<close>

definition padded_config :: config where
  "padded_config = (shop_config [])\<lparr>cfg_defaults := (cfg_defaults (shop_config []))
     \<lparr>safe_state_on_error := '' on''\<rparr>\<rparr>"

lemma padded_safe_state_flips_on_restart:
  "Validate padded_config = None \<and> \<not> SafeOutput padded_config
   \<and> (case Load (fst (snd (replace (\<lambda>c. None) [] ''t1'' True padded_config empty_db))) of
        Inl e \<Rightarrow> False | Inr cfg \<Rightarrow> SafeOutput cfg)"
  by (intro conjI; code_simp)

end
