(* ===== verification/Shelly_Transport.thy ===== *)
theory Shelly_Transport
  imports Shelly_Requests
begin

text \<open>
  Building the Shelly client (internal/shelly/client.go, newClient, loadTLSConfig): its time-outs,
  its initial state and its TLS settings. Reading a file and what crypto/x509 and crypto/tls make
  of its contents are arguments (\<open>tls_files\<close>). Durations are nanoseconds.
\<close>

section \<open>Time-outs\<close>

definition maxDialTimeout :: int where "maxDialTimeout = 3 * 1000000000"
definition authenticationThrottleDelay :: int where "authenticationThrottleDelay = 2 * 1000000000"
definition statusRetryDelay :: int where "statusRetryDelay = 150 * 1000000"

definition phaseTimeout :: "int \<Rightarrow> int \<Rightarrow> int" where
  "phaseTimeout budget maximum = (if budget < maximum then budget else maximum)"

section \<open>TLS\<close>

record tls_files =
  read_file :: "string \<Rightarrow> go_error + string"
  has_certs :: "string \<Rightarrow> bool"
  load_pair :: "string \<Rightarrow> string \<Rightarrow> go_error option"

record tls_settings =
  min_version :: int
  root_pem :: string
  cert_and_key :: "string \<times> string"
  session_cache :: nat

definition VersionTLS12 :: int where "VersionTLS12 = 771"

definition tlsConfigured :: "tls_config \<Rightarrow> bool" where
  "tlsConfigured cfg \<longleftrightarrow>
     TrimSpace (server_ca_file cfg) \<noteq> [] \<or> TrimSpace (client_cert_file cfg) \<noteq> [] \<or>
     TrimSpace (client_key_file cfg) \<noteq> []"

definition loadTLSConfig :: "tls_files \<Rightarrow> tls_config \<Rightarrow> go_error + tls_settings" where
  "loadTLSConfig fs cfg =
     (if TrimSpace (server_ca_file cfg) = []
        then Inl (Plain ''shelly TLS server CA file is required'')
      else if TrimSpace (client_cert_file cfg) = []
        then Inl (Plain ''shelly TLS client certificate file is required'')
      else if TrimSpace (client_key_file cfg) = []
        then Inl (Plain ''shelly TLS client key file is required'')
      else
        (case read_file fs (server_ca_file cfg) of
           Inl err \<Rightarrow> Inl (Wrapf (''read Shelly server CA '' @ server_ca_file cfg) err)
         | Inr caPEM \<Rightarrow>
             if \<not> has_certs fs caPEM
             then Inl (Plain ''shelly server CA file contains no valid certificates'')
             else
               (case load_pair fs (client_cert_file cfg) (client_key_file cfg) of
                  Some err \<Rightarrow> Inl (Wrapf ''load gateway client certificate and key'' err)
                | None \<Rightarrow>
                    Inr \<lparr>min_version = VersionTLS12, root_pem = caPEM,
                         cert_and_key = (client_cert_file cfg, client_key_file cfg),
                         session_cache = 256\<rparr>)))"

section \<open>The client\<close>

text \<open>
  \<open>tp_proxy_from_environment\<close> is \<open>Proxy: http.ProxyFromEnvironment\<close>; which proxy the environment
  names is part of what \<open>env_send\<close> stands for.
\<close>

record transport =
  tp_proxy_from_environment :: bool
  tp_dial_timeout :: int
  tp_keep_alive :: int
  tp_force_http2 :: bool
  tp_max_idle_conns :: nat
  tp_max_idle_per_host :: nat
  tp_max_conns_per_host :: nat
  tp_idle_timeout :: int
  tp_tls_handshake_timeout :: int
  tp_response_header_timeout :: int
  tp_expect_continue_timeout :: int
  tp_tls :: "tls_settings option"

record built_client =
  bc_transport :: transport
  bc_request_timeout :: int
  bc_state :: client

definition newClient :: "tls_files \<Rightarrow> int \<Rightarrow> tls_config \<Rightarrow> go_error + built_client" where
  "newClient fs timeout cfg =
     (if timeout \<le> 0 then Inl (Plain ''shelly request timeout must be greater than zero'')
      else
        let plain = \<lparr>tp_proxy_from_environment = True, tp_dial_timeout = phaseTimeout timeout maxDialTimeout,
              tp_keep_alive = 30 * 1000000000, tp_force_http2 = False, tp_max_idle_conns = 256,
              tp_max_idle_per_host = 2, tp_max_conns_per_host = 2,
              tp_idle_timeout = 90 * 1000000000, tp_tls_handshake_timeout = timeout,
              tp_response_header_timeout = timeout,
              tp_expect_continue_timeout = 1000000000, tp_tls = None\<rparr>;
            state = \<lparr>c_statusRetryDelay = statusRetryDelay,
              c_throttleDelay = authenticationThrottleDelay,
              c_rebootCooldown = defaultRebootCooldown, c_auth = Map.empty,
              c_recovery = Map.empty, c_reboots = []\<rparr>
        in case (if tlsConfigured cfg
                 then (case loadTLSConfig fs cfg of Inl err \<Rightarrow> Inl err | Inr tls \<Rightarrow> Inr (Some tls))
                 else Inr None) of
             Inl err \<Rightarrow> Inl err
           | Inr tls \<Rightarrow>
               Inr \<lparr>bc_transport = plain\<lparr>tp_tls := tls\<rparr>, bc_request_timeout = timeout,
                    bc_state = state\<rparr>)"

definition NewClientWithTLS where "NewClientWithTLS fs timeout cfg = newClient fs timeout cfg"

section \<open>Lemmas\<close>

lemma loadTLSConfig_Inr:
  assumes "loadTLSConfig fs cfg = Inr tls"
  shows "tls_paths_ok cfg" and "read_file fs (server_ca_file cfg) = Inr (root_pem tls)"
    and "has_certs fs (root_pem tls)" and "load_pair fs (client_cert_file cfg) (client_key_file cfg) = None"
    and "min_version tls = 771"
  using assms
  by (auto simp: loadTLSConfig_def tls_paths_ok_def VersionTLS12_def split: if_splits sum.splits option.splits)

lemma newClient_Inr:
  assumes "newClient fs timeout cfg = Inr c"
  shows "0 < timeout" and "bc_request_timeout c = timeout"
    and "tp_dial_timeout (bc_transport c) = min timeout maxDialTimeout"
    and "tp_tls (bc_transport c) = None \<longleftrightarrow> \<not> tlsConfigured cfg"
    and "tp_tls (bc_transport c) = Some tls \<Longrightarrow> loadTLSConfig fs cfg = Inr tls"
    and "c_auth (bc_state c) = Map.empty" and "c_recovery (bc_state c) = Map.empty"
    and "c_reboots (bc_state c) = []"
  using assms
  by (auto simp: newClient_def Let_def phaseTimeout_def split: if_splits sum.splits)

end
