(* ===== verification/Gateway_Core.thy ===== *)
theory Gateway_Core
  imports Config_Store Status_Store Shelly_Transport
begin

text \<open>
  The gateway (internal/gateway/gateway.go): the configuration in memory with the fail-safe
  state derived from it, the persistence store behind it, and what Run starts. A persistence
  store is an interface value, a function over the state it keeps; the locale states what the
  gateway relies on, and the configuration database is an interpretation. The mutex is held for
  each access to the fields; the write of the store happens outside it, so an update is two
  steps, and \<open>update_step\<close> is what several updates running at once can do.
\<close>

section \<open>Persistence\<close>

type_synonym ('e, 'p) persistence = "config \<Rightarrow> 'p \<Rightarrow> 'e option \<times> 'p"

locale config_persistence =
  fixes save :: "('e, 'p) persistence"
    and fetch :: "'p \<Rightarrow> config option"
    and normal :: "config \<Rightarrow> config"
  assumes save_failed: "save cfg p = (Some e, p') \<Longrightarrow> p' = p"
    and save_saved: "save cfg p = (None, p') \<Longrightarrow> ApplyDefaults cfg = cfg \<Longrightarrow> fetch p' = Some (normal cfg)"

definition database_persistence ::
  "(sql_call \<Rightarrow> sql_error option) \<Rightarrow> string \<Rightarrow> string \<Rightarrow> (store_error, database) persistence" where
  "database_persistence faults mirrorPath now cfg db =
     (case Replace faults mirrorPath now cfg db of (err, db1, mirror) \<Rightarrow> (err, db1))"

definition database_fetch :: "database \<Rightarrow> config option" where
  "database_fetch db = (case Load db of Inl e \<Rightarrow> None | Inr cfg \<Rightarrow> Some cfg)"

interpretation database: config_persistence "database_persistence faults mirrorPath now"
  database_fetch stored_config
proof (unfold_locales, goal_cases)
  case (1 cfg db e db')
  then show ?case
    by (cases faults mirrorPath now True cfg db rule: replace_cases)
      (auto simp: database_persistence_def Replace_def)
next
  case (2 cfg db db')
  then show ?case
    using Load_replaced [of faults now cfg db db']
    by (cases faults mirrorPath now True cfg db rule: replace_cases)
      (auto simp: database_persistence_def Replace_def database_fetch_def)
qed

section \<open>The gateway's state\<close>

datatype 'e gateway_error =
    InvalidConfiguration config_error
  | NoPersistence
  | WriteFailed 'e
  | InitFailed go_error
  | ServerFailed string

record ('e, 'p) gateway =
  gw_cfg :: config
  gw_persistence :: "('e, 'p) persistence option"
  gw_adminAddr :: string
  gw_logExporter :: bool
  gw_safeOutput :: bool
  gw_shelly :: "built_client option"
  gw_statusStore :: status_store
  gw_initErr :: "go_error option"

text \<open>
  \<open>time.Duration(ms) * time.Millisecond\<close>: a product of 64-bit integers, which wraps around.
\<close>

definition duration_ms :: "int \<Rightarrow> int" where
  "duration_ms ms = sint (word_of_int ms * 1000000 :: 64 word)"

definition NewWithStore ::
  "tls_files \<Rightarrow> config \<Rightarrow> ('e, 'p) persistence option \<Rightarrow> string \<Rightarrow> ('e, 'p) gateway" where
  "NewWithStore fs cfg0 persistence adminAddr =
     (let cfg = Clone (ApplyDefaults cfg0);
          client = NewClientWithTLS fs (duration_ms (timeout_ms (cfg_defaults cfg)))
                     (shelly_tls (cfg_defaults cfg))
      in \<lparr>gw_cfg = cfg, gw_persistence = persistence, gw_adminAddr = adminAddr,
          gw_logExporter = False, gw_safeOutput = SafeOutput cfg,
          gw_shelly = (case client of Inl err \<Rightarrow> None | Inr c \<Rightarrow> Some c),
          gw_statusStore = Status_Store.New cfg (SafeOutput cfg),
          gw_initErr = (case client of Inl err \<Rightarrow> Some err | Inr c \<Rightarrow> None)\<rparr>)"

definition SetLogExporter :: "bool \<Rightarrow> ('e, 'p) gateway \<Rightarrow> ('e, 'p) gateway" where
  "SetLogExporter exporter g = g\<lparr>gw_logExporter := exporter\<rparr>"

definition ConfigSnapshot :: "('e, 'p) gateway \<Rightarrow> config" where
  "ConfigSnapshot g = Clone (gw_cfg g)"

definition gateway_SafeOutput :: "('e, 'p) gateway \<Rightarrow> bool" where
  "gateway_SafeOutput g = gw_safeOutput g"

text \<open>An update, in its two parts: everything up to the write of the store, and the lock.\<close>

definition update_persist ::
  "('e, 'p) persistence option \<Rightarrow> config \<Rightarrow> 'p \<Rightarrow> ('e gateway_error + config) \<times> 'p" where
  "update_persist persistence newCfg0 p =
     (let newCfg = Clone (ApplyDefaults newCfg0)
      in case Validate newCfg of
           Some e \<Rightarrow> (Inl (InvalidConfiguration e), p)
         | None \<Rightarrow>
             (case persistence of
                None \<Rightarrow> (Inl NoPersistence, p)
              | Some save \<Rightarrow>
                  (case save newCfg p of
                     (Some e, p1) \<Rightarrow> (Inl (WriteFailed e), p1)
                   | (None, p1) \<Rightarrow> (Inr newCfg, p1))))"

definition update_publish :: "config \<Rightarrow> ('e, 'p) gateway \<Rightarrow> ('e, 'p) gateway" where
  "update_publish newCfg g = g\<lparr>gw_cfg := newCfg, gw_safeOutput := SafeOutput newCfg\<rparr>"

definition UpdateConfig ::
  "config \<Rightarrow> ('e, 'p) gateway \<Rightarrow> 'p \<Rightarrow> 'e gateway_error option \<times> ('e, 'p) gateway \<times> 'p" where
  "UpdateConfig newCfg g p =
     (case update_persist (gw_persistence g) newCfg p of
        (Inl e, p1) \<Rightarrow> (Some e, g, p1)
      | (Inr cfg, p1) \<Rightarrow> (None, update_publish cfg g, p1))"

section \<open>Run\<close>

text \<open>
  What Run starts: the admin server when it has an address, and one tool server per enabled
  tool, in configuration order, each after an attempt to clear its port.
\<close>

datatype started = AdminServer string | KillPort int | ToolServer tool

datatype run_end = Shutdown | RestartRequested | Failed string

definition run_servers :: "('e, 'p) gateway \<Rightarrow> started list" where
  "run_servers g =
     (if gw_adminAddr g \<noteq> [] then [AdminServer (gw_adminAddr g)] else [])
     @ concat (map (\<lambda>t. if tool_enabled t then [KillPort (tool_port t), ToolServer t] else [])
         (cfg_tools (gw_cfg g)))"

definition Run ::
  "run_end \<Rightarrow> ('e, 'p) gateway \<Rightarrow> 'e gateway_error option \<times> started list" where
  "Run ending g =
     (case gw_initErr g of
        Some err \<Rightarrow> (Some (InitFailed err), [])
      | None \<Rightarrow>
          (case ValidateEnabledTools (gw_cfg g) of
             Some e \<Rightarrow> (Some (InvalidConfiguration e), [])
           | None \<Rightarrow>
               (case ending of Failed msg \<Rightarrow> Some (ServerFailed msg) | _ \<Rightarrow> None, run_servers g)))"

section \<open>Updates\<close>

context config_persistence begin

lemma update_persist_cases:
  assumes "update_persist (Some save) newCfg p = (res, p')"
  obtains (refused) e where "res = Inl e" "p' = p"
  | (saved) "res = Inr (ApplyDefaults newCfg)" "config_ok (ApplyDefaults newCfg)"
      "fetch p' = Some (normal (ApplyDefaults newCfg))"
proof (cases "Validate (ApplyDefaults newCfg)")
  case (Some e)
  with assms have "res = Inl (InvalidConfiguration e)" "p' = p" by (simp_all add: update_persist_def)
  then show ?thesis by (rule refused)
next
  case None
  then have ok: "config_ok (ApplyDefaults newCfg)" by (simp add: Validate_None_iff)
  show ?thesis
  proof (cases "save (ApplyDefaults newCfg) p")
    case (Pair err p1)
    show ?thesis
    proof (cases err)
      case (Some e)
      with assms None Pair save_failed [of "ApplyDefaults newCfg" p e p1]
      have "res = Inl (WriteFailed e)" "p' = p" by (simp_all add: update_persist_def)
      then show ?thesis by (rule refused)
    next
      case None2: None
      from assms None Pair None2 have "res = Inr (ApplyDefaults newCfg)" "p' = p1"
        by (simp_all add: update_persist_def)
      with save_saved [of "ApplyDefaults newCfg" p p1] Pair None2 ok saved show ?thesis by simp
    qed
  qed
qed

lemma UpdateConfig_outcome:
  assumes "gw_persistence g = Some save" and "UpdateConfig newCfg g p = (err, g', p')"
  shows "(case err of
      Some e \<Rightarrow> g' = g \<and> p' = p
    | None \<Rightarrow> ConfigSnapshot g' = ApplyDefaults newCfg \<and> config_ok (ConfigSnapshot g')
        \<and> gw_safeOutput g' = SafeOutput (ConfigSnapshot g')
        \<and> fetch p' = Some (normal (ConfigSnapshot g')))"
proof -
  obtain res p1 where step: "update_persist (Some save) newCfg p = (res, p1)" by fastforce
  from step show ?thesis
    by (cases rule: update_persist_cases)
      (use assms step in \<open>auto simp: UpdateConfig_def update_publish_def ConfigSnapshot_def\<close>)
qed

end

text \<open>
  Updates that run at once: each writes the store and later takes the lock. The last component
  holds the configurations written and not yet published.
\<close>

inductive update_step ::
  "('e, 'p) gateway \<times> 'p \<times> config list \<Rightarrow> ('e, 'p) gateway \<times> 'p \<times> config list \<Rightarrow> bool" where
  persist: "update_persist (gw_persistence g) newCfg p = (Inr cfg, p1) \<Longrightarrow>
     update_step (g, p, pending) (g, p1, pending @ [cfg])"
| reject: "update_persist (gw_persistence g) newCfg p = (Inl e, p1) \<Longrightarrow>
     update_step (g, p, pending) (g, p1, pending)"
| publish: "update_step (g, p, us @ cfg # vs) (update_publish cfg g, p, us @ vs)"

inductive_cases update_stepE: "update_step (g, p, pending) st"

definition safe_in_step :: "('e, 'p) gateway \<times> 'p \<times> config list \<Rightarrow> bool" where
  "safe_in_step st \<longleftrightarrow>
     (case st of (g, p, pending) \<Rightarrow>
        gw_safeOutput g = SafeOutput (gw_cfg g) \<and> list_all config_ok pending)"

lemma update_step_safe:
  "update_step st st' \<Longrightarrow> safe_in_step st \<Longrightarrow> safe_in_step st'"
proof (induction rule: update_step.induct)
  case (persist g newCfg p cfg p1 pending)
  then have "config_ok cfg"
    by (auto simp: update_persist_def Let_def Validate_None_iff
        split: option.splits prod.splits)
  with persist show ?case by (simp add: safe_in_step_def)
qed (auto simp: safe_in_step_def update_publish_def)

section \<open>Starting\<close>

lemma duration_ms_exact:
  assumes "0 < ms" and "ms \<le> 9223372036854"
  shows "duration_ms ms = ms * 1000000"
proof -
  have "(word_of_int ms * 1000000 :: 64 word) = word_of_int (ms * 1000000)" by simp
  moreover have "sint (word_of_int (ms * 1000000) :: 64 word) = ms * 1000000"
    using assms by (simp add: signed_of_int signed_take_bit_int_eq_self del: of_int_mult)
  ultimately show ?thesis by (simp add: duration_ms_def)
qed

lemma Run_started:
  assumes "Run ending g = (err, starts)" and "starts \<noteq> []"
  shows "gw_initErr g = None" and "ValidateEnabledTools (gw_cfg g) = None" and "starts = run_servers g"
  using assms by (auto simp: Run_def split: option.splits)

lemma run_servers_tools:
  "[t. ToolServer t \<leftarrow> run_servers g] = filter tool_enabled (cfg_tools (gw_cfg g))"
proof -
  have "[t. ToolServer t \<leftarrow> concat (map (\<lambda>t. if tool_enabled t then [KillPort (tool_port t), ToolServer t] else []) ts)]
      = filter tool_enabled ts" for ts
    by (induction ts) auto
  then show ?thesis by (simp add: run_servers_def)
qed

lemma update_persist_saved:
  assumes "gw_persistence g = Some (database_persistence faults mirrorPath now)"
    and "UpdateConfig newCfg g db = (None, g', db')"
  shows "Load db' = Inr (stored_config (ApplyDefaults newCfg))"
  using database.UpdateConfig_outcome [OF assms]
  by (auto simp: database_fetch_def split: sum.splits)

section \<open>Properties\<close>

text \<open>
  An update is accepted as a whole or not at all: UpdateConfig of a gateway on the
  configuration database either fails and leaves memory and database as they were, or from then
  on the snapshot is the new configuration with its defaults, valid, the fail-safe state is the
  one it asks for, and a restart would load it back from the database in stored form.
\<close>

lemma update_is_all_or_nothing:
  assumes "gw_persistence g = Some (database_persistence faults mirrorPath now)"
  shows "case UpdateConfig newCfg g db of
      (Some e, g', db') \<Rightarrow> g' = g \<and> db' = db
    | (None, g', db') \<Rightarrow> ConfigSnapshot g' = ApplyDefaults newCfg \<and> config_ok (ConfigSnapshot g')
        \<and> gw_safeOutput g' = SafeOutput (ConfigSnapshot g')
        \<and> Load db' = Inr (stored_config (ConfigSnapshot g'))"
proof -
  obtain err g' db' where step: "UpdateConfig newCfg g db = (err, g', db')" by (metis prod_cases3)
  from database.UpdateConfig_outcome [OF assms step] show ?thesis
    by (auto simp: step database_fetch_def split: option.splits sum.splits)
qed

definition no_files :: tls_files where
  "no_files = \<lparr>read_file = (\<lambda>p. Inl (Plain ''no such file'')), has_certs = (\<lambda>pem. False),
     load_pair = (\<lambda>c k. Some (Plain ''no such file''))\<rparr>"

definition shop_gateway :: "(store_error, database) gateway" where
  "shop_gateway = NewWithStore no_files (shop_config [])
     (Some (database_persistence (\<lambda>c. None) [] ''t0'')) ''127.0.0.1:18090''"

lemma shop_gateway_persistence:
  "gw_persistence shop_gateway = Some (database_persistence (\<lambda>c. None) [] ''t0'')"
  by (simp add: shop_gateway_def NewWithStore_def Let_def)

text \<open>
  Updates that overlap can part memory and database: an update writes the database before it
  takes the gateway's lock, so two updates can write in one order and publish in the other. Then
  both have returned success, none is pending, and the configuration in memory is one while the
  database holds the other.
\<close>

lemma overlapping_updates_diverge:
  "\<exists>g db. (update_step\<^sup>*\<^sup>*) (shop_gateway, empty_db, []) (g, db, [])
     \<and> cfg_tools (ConfigSnapshot g) = [shop_tool ''A'' ''10.0.0.1'' 8081]
     \<and> (case Load db of Inl e \<Rightarrow> False | Inr cfg \<Rightarrow> map tool_interlock_name (cfg_tools cfg) = [''B''])"
proof -
  define a b where "a = shop_config [shop_tool ''A'' ''10.0.0.1'' 8081]"
    and "b = shop_config [shop_tool ''B'' ''10.0.0.2'' 8082]"
  let ?save = "database_persistence (\<lambda>c. None) [] ''t0''"
  have defaults: "ApplyDefaults (shop_config ts) = shop_config ts" for ts
    by (simp add: ApplyDefaults_fixed shop_config_def)
  define db1 db2 where "db1 = snd (?save a empty_db)" and "db2 = snd (?save b db1)"
  have saves: "fst (?save a empty_db) = None" "fst (?save b db1) = None"
    unfolding db1_def a_def b_def by code_simp+
  have valid: "Validate a = None" "Validate b = None"
    unfolding a_def b_def by code_simp+
  have first: "update_persist (gw_persistence shop_gateway) a empty_db = (Inr a, db1)"
    and second: "update_persist (gw_persistence shop_gateway) b db1 = (Inr b, db2)"
    using saves valid
    by (simp_all add: update_persist_def shop_gateway_persistence a_def b_def defaults Let_def
        db1_def db2_def prod_eq_iff split: prod.split)
  let ?g1 = "update_publish b shop_gateway"
  have "update_step (shop_gateway, empty_db, []) (shop_gateway, db1, [a])"
    using update_step.persist [OF first, of "[]"] by simp
  moreover have "update_step (shop_gateway, db1, [a]) (shop_gateway, db2, [a, b])"
    using update_step.persist [OF second, of "[a]"] by simp
  moreover have "update_step (shop_gateway, db2, [a, b]) (?g1, db2, [a])"
    using update_step.publish [of shop_gateway db2 "[a]" b "[]"] by simp
  moreover have "update_step (?g1, db2, [a]) (update_publish a ?g1, db2, [])"
    using update_step.publish [of ?g1 db2 "[]" a "[]"] by simp
  ultimately have "update_step\<^sup>*\<^sup>* (shop_gateway, empty_db, []) (update_publish a ?g1, db2, [])"
    by (meson rtranclp.rtrancl_into_rtrancl rtranclp.rtrancl_refl)
  moreover have "cfg_tools (ConfigSnapshot (update_publish a ?g1)) = [shop_tool ''A'' ''10.0.0.1'' 8081]"
    by (simp add: ConfigSnapshot_def update_publish_def a_def shop_config_def)
  moreover have "case Load db2 of Inl e \<Rightarrow> False | Inr cfg \<Rightarrow> map tool_interlock_name (cfg_tools cfg) = [''B'']"
    unfolding db2_def db1_def a_def b_def by code_simp
  ultimately show ?thesis by blast
qed

text \<open>
  The fail-safe state follows the configuration: however updates overlap, fail or finish, the
  gateway's fail-safe state is always the one its configuration in memory asks for, and what
  waits to be published is valid.
\<close>

lemma safe_state_follows_configuration:
  assumes "(update_step\<^sup>*\<^sup>*) (NewWithStore fs cfg persistence addr, p, []) (g, p', pending)"
  shows "gw_safeOutput g = SafeOutput (ConfigSnapshot g) \<and> list_all config_ok pending"
proof -
  have "safe_in_step (NewWithStore fs cfg persistence addr, p, [])"
    by (simp add: safe_in_step_def NewWithStore_def Let_def)
  with assms have "safe_in_step (g, p', pending)"
    by (induction rule: rtranclp_induct) (auto intro: update_step_safe)
  then show ?thesis by (simp add: safe_in_step_def ConfigSnapshot_def)
qed

text \<open>
  C35. What runs is in order: when Run starts servers at all, it starts one tool server for each
  enabled tool, in configuration order, on different ports, each tool valid; and if any of them
  speaks HTTPS, the Shelly client was built with TLS settings whose root certificates come from
  the configured CA file and whose certificate and key loaded.
\<close>

theorem started_tools_are_in_order:
  assumes "Run ending (NewWithStore fs cfg persistence addr) = (err, starts)" and "starts \<noteq> []"
  shows "[t. ToolServer t \<leftarrow> starts] = filter tool_enabled (cfg_tools cfg)
    \<and> distinct (map tool_port [t. ToolServer t \<leftarrow> starts]) \<and> list_all tool_ok [t. ToolServer t \<leftarrow> starts]
    \<and> (list_ex (\<lambda>t. ToolProtocol t = ''https'') [t. ToolServer t \<leftarrow> starts] \<longrightarrow>
        (\<exists>c tls. gw_shelly (NewWithStore fs cfg persistence addr) = Some c
           \<and> tp_tls (bc_transport c) = Some tls
           \<and> read_file fs (server_ca_file (shelly_tls (cfg_defaults cfg))) = Inr (root_pem tls)
           \<and> has_certs fs (root_pem tls)
           \<and> load_pair fs (client_cert_file (shelly_tls (cfg_defaults cfg)))
               (client_key_file (shelly_tls (cfg_defaults cfg))) = None))"
proof -
  let ?g = "NewWithStore fs cfg persistence addr" and ?tls = "shelly_tls (cfg_defaults cfg)"
  note run = Run_started [OF assms]
  have g: "gw_cfg ?g = ApplyDefaults cfg" by (simp add: NewWithStore_def Let_def)
  have tools: "[t. ToolServer t \<leftarrow> starts] = filter tool_enabled (cfg_tools cfg)"
    by (simp add: run(3) run_servers_tools g)
  from run(2) have ok: "tools_config_ok ?tls (filter tool_enabled (cfg_tools cfg))"
    by (simp add: g ValidateEnabledTools_None_iff config_ok_def)
  have "\<exists>c tls. gw_shelly ?g = Some c \<and> tp_tls (bc_transport c) = Some tls
      \<and> read_file fs (server_ca_file ?tls) = Inr (root_pem tls) \<and> has_certs fs (root_pem tls)
      \<and> load_pair fs (client_cert_file ?tls) (client_key_file ?tls) = None"
    if "list_ex (\<lambda>t. ToolProtocol t = ''https'') (filter tool_enabled (cfg_tools cfg))"
  proof -
    from ok that have paths: "tls_paths_ok ?tls" by (simp add: tools_config_ok_def)
    from run(1) obtain c where c: "newClient fs (duration_ms (timeout_ms (cfg_defaults (ApplyDefaults cfg)))) ?tls = Inr c"
      and shelly: "gw_shelly ?g = Some c"
      by (auto simp: NewWithStore_def NewClientWithTLS_def Let_def split: sum.splits)
    from paths newClient_Inr(4) [OF c] obtain tls where tls: "tp_tls (bc_transport c) = Some tls"
      by (auto simp: tls_paths_ok_def tlsConfigured_def)
    from loadTLSConfig_Inr(2-4) [OF newClient_Inr(5) [OF c tls]] shelly tls show ?thesis by blast
  qed
  with ok show ?thesis unfolding tools tools_config_ok_def by blast
qed

theorem started_tools_are_in_order_witness:
  "distinct (map tool_port [t. ToolServer t \<leftarrow> snd (Run Shutdown (NewWithStore no_files moved_config
      (None :: (store_error, database) persistence option) []))])"
proof -
  let ?g = "NewWithStore no_files moved_config (None :: (store_error, database) persistence option) []"
  have "length (snd (Run Shutdown ?g)) = 4" by code_simp
  then have some: "snd (Run Shutdown ?g) \<noteq> []" by auto
  obtain err starts where run: "Run Shutdown ?g = (err, starts)" by fastforce
  from some have "starts \<noteq> []" by (simp add: run)
  from started_tools_are_in_order [OF run this]
  have "distinct (map tool_port [t. ToolServer t \<leftarrow> starts])" by blast
  then show ?thesis by (simp only: run snd_conv)
qed

text \<open>
  A time-out can be too long: a configuration with timeout_ms 9223372036855 is valid and
  saved, and at the next start its conversion to nanoseconds overflows to a negative duration,
  so the client is refused and the gateway does not run; up to 9223372036854 the conversion is
  exact.
\<close>

definition patient_config :: config where
  "patient_config = (shop_config [])\<lparr>cfg_defaults := (cfg_defaults (shop_config []))
     \<lparr>timeout_ms := 9223372036855\<rparr>\<rparr>"

lemma accepted_timeout_can_stop_the_gateway:
  "(0 < ms \<and> ms \<le> 9223372036854 \<longrightarrow> duration_ms ms = ms * 1000000)
   \<and> (case UpdateConfig patient_config shop_gateway empty_db of (err, g, db) \<Rightarrow>
        err = None \<and> Load db = Inr patient_config)
   \<and> Run Shutdown (NewWithStore no_files patient_config (gw_persistence shop_gateway) [])
       = (Some (InitFailed (Plain ''shelly request timeout must be greater than zero'')), [])"
proof (intro conjI)
  show "0 < ms \<and> ms \<le> 9223372036854 \<longrightarrow> duration_ms ms = ms * 1000000"
    using duration_ms_exact by blast
  obtain err g db where step: "UpdateConfig patient_config shop_gateway empty_db = (err, g, db)"
    by (metis prod_cases3)
  have "fst (UpdateConfig patient_config shop_gateway empty_db) = None" by code_simp
  with step have err: "err = None" by simp
  have fixed: "ApplyDefaults patient_config = patient_config"
    "stored_config patient_config = patient_config"
    by code_simp+
  from update_persist_saved [OF shop_gateway_persistence step [unfolded err]] fixed
  show "case UpdateConfig patient_config shop_gateway empty_db of (err, g, db) \<Rightarrow>
      err = None \<and> Load db = Inr patient_config"
    by (simp add: step err)
  have "duration_ms 9223372036855 = - 9223372036854551616"
    by (simp add: duration_ms_def)
  moreover have "timeout_ms (cfg_defaults patient_config) = 9223372036855"
    by (simp add: patient_config_def)
  ultimately show "Run Shutdown (NewWithStore no_files patient_config (gw_persistence shop_gateway) [])
       = (Some (InitFailed (Plain ''shelly request timeout must be greater than zero'')), [])"
    by (simp add: Run_def NewWithStore_def Let_def fixed(1) NewClientWithTLS_def newClient_def)
qed

end
