(* ===== verification/Admin_Config.thy ===== *)
theory Admin_Config
  imports Config_Model
begin

text \<open>
  The configuration as the admin interface shows and takes it (internal/admin/server.go,
  handleGetConfig, buildUpdatedConfig, requestedPassword). A password is never shown; a form that
  comes back without one keeps the stored password of the tool with that name, else of the tool
  with that port.
\<close>

section \<open>Data\<close>

record adminToolRequest =
  aq_interlock_name :: string
  aq_ip :: string
  aq_protocol :: string
  aq_port :: int
  aq_switch_id :: int
  aq_username :: "string option"
  aq_password :: "string option"
  aq_password_set :: bool
  aq_clear_password :: bool
  aq_enabled :: bool

record adminConfigRequest =
  acq_bind :: string
  acq_defaults :: defaults
  acq_tools :: "adminToolRequest list"

record adminToolResponse =
  ap_interlock_name :: string
  ap_ip :: string
  ap_protocol :: string
  ap_port :: int
  ap_switch_id :: int
  ap_username :: "string option"
  ap_password_set :: bool
  ap_enabled :: bool

record adminDefaultsResponse =
  adr_timeout_ms :: int
  adr_safe_state_on_error :: string
  adr_shelly_tls :: tls_config

record adminConfigResponse =
  acp_bind :: string
  acp_defaults :: adminDefaultsResponse
  acp_tools :: "adminToolResponse list"

section \<open>Strings\<close>

definition normalizeToolName :: "string \<Rightarrow> string" where
  "normalizeToolName value = ToLower (TrimSpace value)"

definition normalizeOptionalString :: "string option \<Rightarrow> string option" where
  "normalizeOptionalString value =
     (case value of None \<Rightarrow> None
      | Some v \<Rightarrow> let trimmed = TrimSpace v in if trimmed = [] then None else Some trimmed)"

definition cloneTrimmedStringPointer :: "string option \<Rightarrow> string option" where
  "cloneTrimmedStringPointer value =
     (case value of None \<Rightarrow> None
      | Some v \<Rightarrow> let trimmed = TrimSpace v in if trimmed = [] then None else Some trimmed)"

definition hasNonEmptyString :: "string option \<Rightarrow> bool" where
  "hasNonEmptyString value = (case value of None \<Rightarrow> False | Some v \<Rightarrow> TrimSpace v \<noteq> [])"

definition cloneStringPointer :: "string option \<Rightarrow> string option" where
  "cloneStringPointer value = (case value of None \<Rightarrow> None | Some v \<Rightarrow> Some v)"

section \<open>Showing\<close>

definition tool_response :: "tool \<Rightarrow> adminToolResponse" where
  "tool_response t =
     \<lparr>ap_interlock_name = tool_interlock_name t, ap_ip = tool_ip t, ap_protocol = ToolProtocol t,
      ap_port = tool_port t, ap_switch_id = tool_switch_id t,
      ap_username = cloneStringPointer (tool_username t),
      ap_password_set = hasNonEmptyString (tool_password t), ap_enabled = tool_enabled t\<rparr>"

definition config_response :: "config \<Rightarrow> adminConfigResponse" where
  "config_response cfg =
     \<lparr>acp_bind = cfg_bind cfg,
      acp_defaults = \<lparr>adr_timeout_ms = timeout_ms (cfg_defaults cfg),
        adr_safe_state_on_error = safe_state_on_error (cfg_defaults cfg),
        adr_shelly_tls = shelly_tls (cfg_defaults cfg)\<rparr>,
      acp_tools = map tool_response (cfg_tools cfg)\<rparr>"

section \<open>Taking\<close>

definition password_step ::
  "tool \<Rightarrow> (int \<rightharpoonup> string option) \<times> (string \<rightharpoonup> string option)
     \<Rightarrow> (int \<rightharpoonup> string option) \<times> (string \<rightharpoonup> string option)" where
  "password_step t maps =
     (case maps of (passwordsByPort, passwordsByName) \<Rightarrow>
        let password = cloneStringPointer (tool_password t);
            normalizedName = normalizeToolName (tool_interlock_name t)
        in (passwordsByPort(tool_port t \<mapsto> password),
            if normalizedName \<noteq> []
            then passwordsByName(normalizedName \<mapsto> cloneStringPointer (tool_password t))
            else passwordsByName))"

definition requestedPassword ::
  "adminToolRequest \<Rightarrow> (int \<rightharpoonup> string option) \<Rightarrow> (string \<rightharpoonup> string option) \<Rightarrow> string option" where
  "requestedPassword incoming passwordsByPort passwordsByName =
     (if aq_clear_password incoming then None
      else if hasNonEmptyString (aq_password incoming)
        then cloneTrimmedStringPointer (aq_password incoming)
      else
        let normalizedName = normalizeToolName (aq_interlock_name incoming)
        in case (if normalizedName \<noteq> [] then passwordsByName normalizedName else None) of
             Some password \<Rightarrow> cloneStringPointer password
           | None \<Rightarrow>
               (case passwordsByPort (aq_port incoming) of
                  Some password \<Rightarrow> cloneStringPointer password
                | None \<Rightarrow> None))"

definition request_protocol :: "string \<Rightarrow> string" where
  "request_protocol p =
     ToolProtocol \<lparr>tool_interlock_name = [], tool_ip = [], tool_protocol = p, tool_port = 0,
       tool_switch_id = 0, tool_username = None, tool_password = None, tool_enabled = False\<rparr>"

definition buildUpdatedConfig :: "config \<Rightarrow> adminConfigRequest \<Rightarrow> config" where
  "buildUpdatedConfig current request =
     (case fold password_step (cfg_tools current) (Map.empty, Map.empty) of
        (passwordsByPort, passwordsByName) \<Rightarrow>
          \<lparr>cfg_bind = TrimSpace (acq_bind request), cfg_defaults = acq_defaults request,
           cfg_tools = map (\<lambda>incoming.
             \<lparr>tool_interlock_name = TrimSpace (aq_interlock_name incoming),
              tool_ip = TrimSpace (aq_ip incoming),
              tool_protocol = request_protocol (aq_protocol incoming),
              tool_port = aq_port incoming, tool_switch_id = aq_switch_id incoming,
              tool_username = normalizeOptionalString (aq_username incoming),
              tool_password = requestedPassword incoming passwordsByPort passwordsByName,
              tool_enabled = aq_enabled incoming\<rparr>) (acq_tools request)\<rparr>)"

section \<open>Lemmas\<close>

lemma clones [simp]:
  "cloneStringPointer v = v" "cloneTrimmedStringPointer v = normalizeOptionalString v"
  by (simp_all add: cloneStringPointer_def cloneTrimmedStringPointer_def normalizeOptionalString_def
      split: option.split)

lemma normalizeOptionalString_nonempty:
  "hasNonEmptyString v \<Longrightarrow> normalizeOptionalString v = map_option TrimSpace v"
  by (auto simp: hasNonEmptyString_def normalizeOptionalString_def Let_def split: option.splits)

lemma passwords_by_port:
  "fst (fold password_step ts (m, n)) p
     = (case filter (\<lambda>t. tool_port t = p) ts of [] \<Rightarrow> m p | us \<Rightarrow> Some (tool_password (last us)))"
proof (induction ts arbitrary: m n)
  case Nil
  then show ?case by simp
next
  case (Cons t ts)
  then show ?case by (auto simp: password_step_def Let_def split: list.splits)
qed

lemma passwords_by_name:
  assumes "k \<noteq> []"
  shows "snd (fold password_step ts (m, n)) k
     = (case filter (\<lambda>t. normalizeToolName (tool_interlock_name t) = k) ts of
          [] \<Rightarrow> n k | us \<Rightarrow> Some (tool_password (last us)))"
proof (induction ts arbitrary: m n)
  case Nil
  then show ?case by simp
next
  case (Cons t ts)
  from assms Cons show ?case by (auto simp: password_step_def Let_def split: list.splits)
qed

text \<open>The password a form without one gets, in one equation.\<close>

definition kept_password :: "config \<Rightarrow> string \<Rightarrow> int \<Rightarrow> string option" where
  "kept_password cfg name port =
     (case filter (\<lambda>t. normalizeToolName (tool_interlock_name t) = normalizeToolName name) (cfg_tools cfg) of
        us \<Rightarrow> if us \<noteq> [] \<and> normalizeToolName name \<noteq> [] then tool_password (last us)
          else (case filter (\<lambda>t. tool_port t = port) (cfg_tools cfg) of
                  [] \<Rightarrow> None | vs \<Rightarrow> tool_password (last vs)))"

lemma requestedPassword_kept:
  assumes "\<not> aq_clear_password q" and "\<not> hasNonEmptyString (aq_password q)"
  shows "requestedPassword q (fst (fold password_step (cfg_tools cfg) (Map.empty, Map.empty)))
      (snd (fold password_step (cfg_tools cfg) (Map.empty, Map.empty)))
    = kept_password cfg (aq_interlock_name q) (aq_port q)"
  using assms
  by (auto simp: requestedPassword_def kept_password_def passwords_by_port passwords_by_name Let_def
      split: list.splits)

lemma buildUpdatedConfig_tools:
  "cfg_tools (buildUpdatedConfig cfg request) = map (\<lambda>q.
      \<lparr>tool_interlock_name = TrimSpace (aq_interlock_name q), tool_ip = TrimSpace (aq_ip q),
       tool_protocol = request_protocol (aq_protocol q), tool_port = aq_port q,
       tool_switch_id = aq_switch_id q, tool_username = normalizeOptionalString (aq_username q),
       tool_password =
         (if aq_clear_password q then None
          else if hasNonEmptyString (aq_password q) then map_option TrimSpace (aq_password q)
          else kept_password cfg (aq_interlock_name q) (aq_port q)),
       tool_enabled = aq_enabled q\<rparr>) (acq_tools request)"
proof -
  have "requestedPassword q (fst (fold password_step (cfg_tools cfg) (Map.empty, Map.empty)))
      (snd (fold password_step (cfg_tools cfg) (Map.empty, Map.empty)))
    = (if aq_clear_password q then None
       else if hasNonEmptyString (aq_password q) then map_option TrimSpace (aq_password q)
       else kept_password cfg (aq_interlock_name q) (aq_port q))" for q
    using requestedPassword_kept [of q cfg] normalizeOptionalString_nonempty [of "aq_password q"]
    by (auto simp: requestedPassword_def [of q])
  then show ?thesis by (simp add: buildUpdatedConfig_def case_prod_beta)
qed

section \<open>Properties\<close>

definition masked :: "tool \<Rightarrow> tool" where
  "masked t = t\<lparr>tool_password := (if hasNonEmptyString (tool_password t) then Some ''*'' else None)\<rparr>"

text \<open>
  Passwords do not leave the gateway: what the admin interface shows of a configuration
  depends on the passwords only through whether each is set; replacing every password by any
  other text, or by one star, gives the same response.
\<close>

lemma passwords_are_not_shown:
  "config_response (cfg\<lparr>cfg_tools := map masked (cfg_tools cfg)\<rparr>) = config_response cfg"
proof -
  have star: "hasNonEmptyString (Some ''*'')" by code_simp
  have "tool_response (masked t) = tool_response t" for t
    using star by (auto simp: tool_response_def masked_def ToolProtocol_def hasNonEmptyString_def)
  then show ?thesis by (simp add: config_response_def)
qed

text \<open>The form the page sends back when nothing was changed in what it was shown.\<close>

definition form_of :: "adminConfigResponse \<Rightarrow> adminConfigRequest" where
  "form_of r =
     \<lparr>acq_bind = acp_bind r,
      acq_defaults = \<lparr>timeout_ms = adr_timeout_ms (acp_defaults r),
        safe_state_on_error = adr_safe_state_on_error (acp_defaults r),
        shelly_tls = adr_shelly_tls (acp_defaults r)\<rparr>,
      acq_tools = map (\<lambda>p. \<lparr>aq_interlock_name = ap_interlock_name p, aq_ip = ap_ip p,
        aq_protocol = ap_protocol p, aq_port = ap_port p, aq_switch_id = ap_switch_id p,
        aq_username = ap_username p, aq_password = None, aq_password_set = ap_password_set p,
        aq_clear_password = False, aq_enabled = ap_enabled p\<rparr>) (acp_tools r)\<rparr>"

definition tidy_tool :: "tool \<Rightarrow> bool" where
  "tidy_tool t \<longleftrightarrow>
     TrimSpace (tool_interlock_name t) = tool_interlock_name t \<and> tool_interlock_name t \<noteq> [] \<and>
     TrimSpace (tool_ip t) = tool_ip t \<and> tool_protocol t \<in> {''http'', ''https''} \<and>
     normalizeOptionalString (tool_username t) = tool_username t"

lemma request_protocol_tidy:
  assumes "tool_protocol t \<in> {''http'', ''https''}"
  shows "request_protocol (ToolProtocol t) = tool_protocol t"
proof -
  have fixed: "TrimSpace ''http'' = ''http''" "TrimSpace ''https'' = ''https''"
    "ToLower ''http'' = ''http''" "ToLower ''https'' = ''https''"
    by code_simp+
  from assms fixed have "ToolProtocol t = tool_protocol t"
    by (auto simp: ToolProtocol_def Let_def)
  with assms fixed show ?thesis by (auto simp: request_protocol_def ToolProtocol_def Let_def)
qed

lemma kept_password_own:
  assumes "distinct (map (\<lambda>t. normalizeToolName (tool_interlock_name t)) (cfg_tools cfg))"
    and "t \<in> set (cfg_tools cfg)" and "normalizeToolName (tool_interlock_name t) \<noteq> []"
  shows "kept_password cfg (tool_interlock_name t) port = tool_password t"
proof -
  have "filter (\<lambda>u. normalizeToolName (tool_interlock_name u) = normalizeToolName (tool_interlock_name t)) ts = [t]"
    if "distinct (map (\<lambda>t. normalizeToolName (tool_interlock_name t)) ts)" "t \<in> set ts" for ts
    using that
  proof (induction ts)
    case (Cons u us)
    show ?case
    proof (cases "u = t")
      case True
      with Cons.prems(1) have "normalizeToolName (tool_interlock_name v) \<noteq> normalizeToolName (tool_interlock_name t)"
        if "v \<in> set us" for v
        using that by (metis (mono_tags, lifting) distinct.simps(2) image_eqI list.set_map list.simps(9))
      with True show ?thesis by (simp add: filter_empty_conv)
    next
      case False
      with Cons show ?thesis by auto
    qed
  qed simp
  from this [OF assms(1,2)] assms(3) show ?thesis by (simp add: kept_password_def)
qed

text \<open>
  C34. Saving the form unchanged changes nothing: for a configuration as the database stores it
  (names, addresses, protocols and user names in normal form, names different when case is
  ignored), the form that comes back as it was shown, without passwords, builds the same
  configuration again, every stored password included.
\<close>

theorem unchanged_form_keeps_everything:
  assumes "distinct (map (\<lambda>t. normalizeToolName (tool_interlock_name t)) (cfg_tools cfg))"
    and "\<forall>t \<in> set (cfg_tools cfg). tidy_tool t" and "TrimSpace (cfg_bind cfg) = cfg_bind cfg"
  shows "buildUpdatedConfig cfg (form_of (config_response cfg)) = cfg"
proof -
  have own: "\<lparr>tool_interlock_name = TrimSpace (tool_interlock_name t), tool_ip = TrimSpace (tool_ip t),
       tool_protocol = request_protocol (ToolProtocol t), tool_port = tool_port t,
       tool_switch_id = tool_switch_id t, tool_username = normalizeOptionalString (tool_username t),
       tool_password = kept_password cfg (tool_interlock_name t) (tool_port t),
       tool_enabled = tool_enabled t\<rparr> = t" if t: "t \<in> set (cfg_tools cfg)" for t
  proof -
    from assms(2) t have tidy: "tidy_tool t" by blast
    then have "normalizeToolName (tool_interlock_name t) \<noteq> []"
      by (simp add: tidy_tool_def normalizeToolName_def)
    from kept_password_own [OF assms(1) t this] tidy request_protocol_tidy [of t] show ?thesis
      by (simp add: tidy_tool_def)
  qed
  have blank: "\<not> hasNonEmptyString None" by (simp add: hasNonEmptyString_def)
  have tools: "cfg_tools (buildUpdatedConfig cfg (form_of (config_response cfg))) = cfg_tools cfg"
    using own by (simp add: buildUpdatedConfig_tools form_of_def config_response_def tool_response_def
        blank comp_def map_idI)
  have rest: "cfg_bind (buildUpdatedConfig cfg (form_of (config_response cfg))) = cfg_bind cfg"
    "cfg_defaults (buildUpdatedConfig cfg (form_of (config_response cfg))) = cfg_defaults cfg"
    using assms(3) by (simp_all add: buildUpdatedConfig_def form_of_def config_response_def case_prod_beta)
  from tools rest show ?thesis by (intro config.equality) simp_all
qed

definition secret_tool :: "string \<Rightarrow> int \<Rightarrow> string option \<Rightarrow> tool" where
  "secret_tool name port pw = \<lparr>tool_interlock_name = name, tool_ip = ''10.0.0.1'',
     tool_protocol = ''http'', tool_port = port, tool_switch_id = 0, tool_username = None,
     tool_password = pw, tool_enabled = True\<rparr>"

definition secret_config :: "tool list \<Rightarrow> config" where
  "secret_config ts = \<lparr>cfg_bind = ''0.0.0.0'', cfg_defaults = \<lparr>timeout_ms = 3000,
     safe_state_on_error = ''off'', shelly_tls = \<lparr>server_ca_file = [], client_cert_file = [],
       client_key_file = []\<rparr>\<rparr>, cfg_tools = ts\<rparr>"

theorem unchanged_form_keeps_everything_witness:
  "buildUpdatedConfig (secret_config [secret_tool ''A'' 8081 (Some ''s3cret''), secret_tool ''B'' 8082 None])
     (form_of (config_response (secret_config [secret_tool ''A'' 8081 (Some ''s3cret''), secret_tool ''B'' 8082 None])))
   = secret_config [secret_tool ''A'' 8081 (Some ''s3cret''), secret_tool ''B'' 8082 None]"
proof -
  let ?cfg = "secret_config [secret_tool ''A'' 8081 (Some ''s3cret''), secret_tool ''B'' 8082 None]"
  have tools: "cfg_tools ?cfg = [secret_tool ''A'' 8081 (Some ''s3cret''), secret_tool ''B'' 8082 None]"
    by (simp add: secret_config_def)
  have keys: "distinct (map (\<lambda>t. normalizeToolName (tool_interlock_name t)) (cfg_tools ?cfg))"
    by code_simp
  have "tidy_tool (secret_tool ''A'' 8081 (Some ''s3cret''))" "tidy_tool (secret_tool ''B'' 8082 None)"
    by code_simp+
  then have tidy: "\<forall>t \<in> set (cfg_tools ?cfg). tidy_tool t" by (simp add: tools)
  have bind: "TrimSpace (cfg_bind ?cfg) = cfg_bind ?cfg" by code_simp
  show ?thesis by (rule unchanged_form_keeps_everything [OF keys tidy bind])
qed

text \<open>
  A new device can be given another device's password: when tool A moves from port 8081 to
  8090 and a new tool C is added on 8081 without a password, A keeps its password by name and C,
  another device at another address, silently gets the same one by port.
\<close>

definition takeover_form :: adminConfigRequest where
  "takeover_form =
     (let form = form_of (config_response (secret_config
        [secret_tool ''A'' 8090 None, (secret_tool ''C'' 8081 None)\<lparr>tool_ip := ''10.0.0.66''\<rparr>]))
      in form)"

lemma new_tool_inherits_password:
  "map (\<lambda>t. (tool_interlock_name t, tool_ip t, tool_password t))
     (cfg_tools (buildUpdatedConfig (secret_config [secret_tool ''A'' 8081 (Some ''s3cret'')]) takeover_form))
   = [(''A'', ''10.0.0.1'', Some ''s3cret''), (''C'', ''10.0.0.66'', Some ''s3cret'')]"
  by code_simp

end
