(* ===== verification/Admin_Status.thy ===== *)
theory Admin_Status
  imports Status_Store Shelly_Errors
begin

text \<open>
  The status page and its fleet refresh (internal/admin/server.go, statusSnapshot,
  refreshStatuses, collectStatuses). A refresh runs a bounded pool of workers fed by one sender
  over an unbuffered channel; each worker checks the context, asks one device and records the
  result under the revision the refresh drew when it was started. The refresh is a step
  relation: a hand-over, a worker's step, the context ending, the sender stopping, the end; steps
  of the tool servers, which record newer results meanwhile, are interleaved with it. What a
  device answers is any result.
\<close>

section \<open>State\<close>

definition maxConcurrentStatusRequests :: nat where "maxConcurrentStatusRequests = 32"

datatype worker = Idle | Received tool | Probing tool | Exited

record refresh =
  rf_revision :: revision
  rf_safeOutput :: bool
  rf_queue :: "tool list"
  rf_closed :: bool
  rf_done :: bool
  rf_workers :: "worker list"
  rf_probed :: "tool list"
  rf_dropped :: "tool list"

record admin_status =
  as_inFlight :: bool
  as_table :: status_store
  as_spawned :: "revision option"
  as_refresh :: "refresh option"

section \<open>Operations\<close>

text \<open>\<open>adminToolStatus\<close> builds the same row as the table's own \<open>toolStatus\<close>.\<close>

definition adminToolStatus :: "tool \<Rightarrow> tool_status" where
  "adminToolStatus t =
     \<lparr>ts_interlock_name = tool_interlock_name t, ts_ip = tool_ip t,
      ts_protocol = ToolProtocol t, ts_port = tool_port t, ts_switch_id = tool_switch_id t,
      ts_enabled = tool_enabled t, ts_connected = False, ts_output = False, ts_error = [],
      ts_revision = 0\<rparr>"

definition record_disabled :: "revision \<Rightarrow> tool list \<Rightarrow> status_store \<Rightarrow> status_store" where
  "record_disabled r ts s =
     fold (\<lambda>t s. if tool_enabled t then s else Record (adminToolStatus t) r s) ts s"

definition start_refresh :: "config \<Rightarrow> bool \<Rightarrow> revision \<Rightarrow> refresh" where
  "start_refresh cfg safeOutput r =
     (let enabled = filter tool_enabled (cfg_tools cfg);
          workerCount = min (length enabled) maxConcurrentStatusRequests
      in \<lparr>rf_revision = r, rf_safeOutput = safeOutput, rf_queue = enabled, rf_closed = False,
          rf_done = False, rf_workers = replicate workerCount Idle, rf_probed = [], rf_dropped = []\<rparr>)"

text \<open>
  \<open>statusSnapshot\<close>: under the lock, draw a revision and raise the flag unless a refresh is in
  flight. The goroutine it spawns reads the configuration when it gets to run.
\<close>

definition statusSnapshot ::
  "bool \<Rightarrow> admin_status \<Rightarrow> (tool_status list \<times> bool) \<times> admin_status" where
  "statusSnapshot refreshRequested st =
     (let startRefresh = refreshRequested \<and> \<not> as_inFlight st;
          st1 = (if startRefresh
                 then (case NextRevision (as_table st) of
                         (r, table) \<Rightarrow>
                           st\<lparr>as_inFlight := True, as_table := table, as_spawned := Some r\<rparr>)
                 else st)
      in ((Snapshot (as_table st1), as_inFlight st1), st1))"

definition collectStatuses :: "config \<Rightarrow> bool \<Rightarrow> revision \<Rightarrow> admin_status \<Rightarrow> admin_status" where
  "collectStatuses cfg safeOutput r st =
     st\<lparr>as_spawned := None, as_table := record_disabled r (cfg_tools cfg) (as_table st),
        as_refresh := Some (start_refresh cfg safeOutput r)\<rparr>"

definition publish_probe ::
  "refresh \<Rightarrow> tool \<Rightarrow> go_error + bool \<Rightarrow> status_store \<Rightarrow> status_store" where
  "publish_probe rf t res s =
     (case res of
        Inl err \<Rightarrow>
          if errors_Is (Some err) ErrAdminStatusDeferred then s
          else RecordFailure t (rf_safeOutput rf) (Some (error_text err)) (rf_revision rf) s
      | Inr out \<Rightarrow> RecordSuccess t out (rf_revision rf) s)"

definition set_worker :: "nat \<Rightarrow> worker \<Rightarrow> refresh \<Rightarrow> refresh" where
  "set_worker i w rf = rf\<lparr>rf_workers := (rf_workers rf)[i := w]\<rparr>"

inductive refresh_step :: "refresh \<times> status_store \<Rightarrow> refresh \<times> status_store \<Rightarrow> bool" where
  hand_over: "rf_queue rf = t # ts \<Longrightarrow> \<not> rf_closed rf \<Longrightarrow> i < length (rf_workers rf) \<Longrightarrow>
     rf_workers rf ! i = Idle \<Longrightarrow>
     refresh_step (rf, s) (set_worker i (Received t) (rf\<lparr>rf_queue := ts\<rparr>), s)"
| check_ended: "i < length (rf_workers rf) \<Longrightarrow> rf_workers rf ! i = Received t \<Longrightarrow> rf_done rf \<Longrightarrow>
     refresh_step (rf, s) (set_worker i Exited (rf\<lparr>rf_dropped := t # rf_dropped rf\<rparr>), s)"
| check_running: "i < length (rf_workers rf) \<Longrightarrow> rf_workers rf ! i = Received t \<Longrightarrow> \<not> rf_done rf \<Longrightarrow>
     refresh_step (rf, s) (set_worker i (Probing t) (rf\<lparr>rf_probed := t # rf_probed rf\<rparr>), s)"
| answered: "i < length (rf_workers rf) \<Longrightarrow> rf_workers rf ! i = Probing t \<Longrightarrow>
     refresh_step (rf, s) (set_worker i Idle rf, publish_probe rf t res s)"
| context_ends: "\<not> rf_done rf \<Longrightarrow> refresh_step (rf, s) (rf\<lparr>rf_done := True\<rparr>, s)"
| sender_stops: "rf_done rf \<Longrightarrow> \<not> rf_closed rf \<Longrightarrow> rf_queue rf \<noteq> [] \<Longrightarrow>
     refresh_step (rf, s)
       (rf\<lparr>rf_closed := True, rf_dropped := rf_queue rf @ rf_dropped rf, rf_queue := []\<rparr>, s)"
| sender_ends: "\<not> rf_closed rf \<Longrightarrow> rf_queue rf = [] \<Longrightarrow> refresh_step (rf, s) (rf\<lparr>rf_closed := True\<rparr>, s)"
| worker_ends: "rf_closed rf \<Longrightarrow> i < length (rf_workers rf) \<Longrightarrow> rf_workers rf ! i = Idle \<Longrightarrow>
     refresh_step (rf, s) (set_worker i Exited rf, s)"

definition refresh_over :: "refresh \<Rightarrow> bool" where
  "refresh_over rf \<longleftrightarrow> rf_closed rf \<and> list_all (\<lambda>w. w = Exited) (rf_workers rf)"

text \<open>
  The whole: requests for the page, the spawned goroutine getting to run, steps of the refresh in
  flight, its end, which the deferred function makes visible by clearing the flag, and the tool
  servers, which draw revisions and later publish results under them.
\<close>

inductive admin_step :: "admin_status \<Rightarrow> admin_status \<Rightarrow> bool" where
  requested: "statusSnapshot refreshRequested st = (shown, st') \<Longrightarrow> admin_step st st'"
| collecting: "as_spawned st = Some r \<Longrightarrow> admin_step st (collectStatuses cfg safeOutput r st)"
| refreshing: "as_refresh st = Some rf \<Longrightarrow> refresh_step (rf, as_table st) (rf', s') \<Longrightarrow>
     admin_step st (st\<lparr>as_refresh := Some rf', as_table := s'\<rparr>)"
| refreshed: "as_refresh st = Some rf \<Longrightarrow> refresh_over rf \<Longrightarrow>
     admin_step st (st\<lparr>as_refresh := None, as_inFlight := False\<rparr>)"
| drawn: "NextRevision (as_table st) = (r, s) \<Longrightarrow> admin_step st (st\<lparr>as_table := s\<rparr>)"
| published: "r \<le> st_next (as_table st) \<Longrightarrow>
     admin_step st (st\<lparr>as_table := Record row r (as_table st)\<rparr>)"

inductive_cases admin_stepE: "admin_step st st'"

inductive_cases refresh_stepE: "refresh_step (rf, s) st"

section \<open>The pool\<close>

fun carried :: "worker \<Rightarrow> tool list" where
  "carried (Received t) = [t]"
| "carried _ = []"

definition in_hands :: "worker list \<Rightarrow> tool multiset" where
  "in_hands ws = mset (concat (map carried ws))"

definition probing :: "worker list \<Rightarrow> nat" where
  "probing ws = length (filter (\<lambda>w. case w of Probing t \<Rightarrow> True | _ \<Rightarrow> False) ws)"

text \<open>Every enabled tool is waiting, in the hands of one worker, asked once, or given up.\<close>

definition pool_inv :: "tool list \<Rightarrow> refresh \<Rightarrow> bool" where
  "pool_inv enabled rf \<longleftrightarrow>
     mset enabled = mset (rf_queue rf) + in_hands (rf_workers rf) + mset (rf_probed rf)
       + mset (rf_dropped rf) \<and>
     length (rf_workers rf) = min (length enabled) maxConcurrentStatusRequests \<and>
     (rf_closed rf \<longrightarrow> rf_queue rf = []) \<and>
     (rf_done rf \<or> rf_dropped rf = [] \<and> (rf_closed rf \<or> Exited \<notin> set (rf_workers rf)))"

lemma in_hands_update:
  assumes "i < length ws"
  shows "in_hands (ws[i := w]) + mset (carried (ws ! i)) = in_hands ws + mset (carried w)"
  using assms
proof (induction ws arbitrary: i)
  case Nil
  then show ?case by simp
next
  case (Cons v ws)
  then show ?case
    by (cases i) (auto simp: in_hands_def ac_simps)
qed

lemma set_worker_fields [simp]:
  "rf_queue (set_worker i w rf) = rf_queue rf" "rf_closed (set_worker i w rf) = rf_closed rf"
  "rf_done (set_worker i w rf) = rf_done rf" "rf_probed (set_worker i w rf) = rf_probed rf"
  "rf_dropped (set_worker i w rf) = rf_dropped rf" "rf_revision (set_worker i w rf) = rf_revision rf"
  "rf_safeOutput (set_worker i w rf) = rf_safeOutput rf"
  "rf_workers (set_worker i w rf) = (rf_workers rf)[i := w]"
  by (simp_all add: set_worker_def)

lemma pool_inv_start: "pool_inv (filter tool_enabled (cfg_tools cfg)) (start_refresh cfg safeOutput r)"
  by (auto simp: pool_inv_def start_refresh_def Let_def in_hands_def)

lemma pool_inv_step:
  "refresh_step st st' \<Longrightarrow> pool_inv enabled (fst st) \<Longrightarrow> pool_inv enabled (fst st')"
proof (induction rule: refresh_step.induct)
  case (hand_over rf t ts i s)
  with in_hands_update [of i "rf_workers rf" "Received t"] show ?case
    by (auto simp: pool_inv_def ac_simps dest: set_update_subset_insert [THEN subsetD])
next
  case (check_ended i rf t s)
  with in_hands_update [of i "rf_workers rf" Exited] show ?case
    by (auto simp: pool_inv_def ac_simps)
next
  case (check_running i rf t s)
  with in_hands_update [of i "rf_workers rf" "Probing t"] show ?case
    by (auto simp: pool_inv_def ac_simps dest: set_update_subset_insert [THEN subsetD])
next
  case (answered i rf t s res)
  with in_hands_update [of i "rf_workers rf" Idle] show ?case
    by (auto simp: pool_inv_def ac_simps dest: set_update_subset_insert [THEN subsetD])
next
  case (worker_ends rf i s)
  with in_hands_update [of i "rf_workers rf" Exited] show ?case
    by (auto simp: pool_inv_def ac_simps)
qed (auto simp: pool_inv_def ac_simps)

lemma reachable_pool_inv:
  assumes "refresh_step\<^sup>*\<^sup>* (start_refresh cfg safeOutput r, s) (rf, s')"
  shows "pool_inv (filter tool_enabled (cfg_tools cfg)) rf"
proof -
  have "pool_inv (filter tool_enabled (cfg_tools cfg)) (fst (rf, s'))"
    using assms by (induction rule: rtranclp_induct) (auto simp: pool_inv_start intro: pool_inv_step)
  then show ?thesis by simp
qed

lemma probing_bound: "pool_inv enabled rf \<Longrightarrow> probing (rf_workers rf) \<le> maxConcurrentStatusRequests"
  unfolding pool_inv_def probing_def by (metis length_filter_le min.cobounded2 order_trans)

section \<open>Progress\<close>

fun worker_steps :: "worker \<Rightarrow> nat" where
  "worker_steps (Received t) = 3"
| "worker_steps (Probing t) = 2"
| "worker_steps Idle = 1"
| "worker_steps Exited = 0"

definition refresh_measure :: "refresh \<Rightarrow> nat" where
  "refresh_measure rf =
     4 * length (rf_queue rf) + sum_list (map worker_steps (rf_workers rf))
     + (if rf_done rf then 0 else 1) + (if rf_closed rf then 0 else 1)"

lemma sum_worker_update:
  "i < length ws \<Longrightarrow>
   sum_list (map worker_steps (ws[i := w])) + worker_steps (ws ! i)
     = sum_list (map worker_steps ws) + worker_steps w"
proof (induction ws arbitrary: i)
  case (Cons v ws)
  then show ?case by (cases i) auto
qed simp

lemma refresh_step_measure:
  "refresh_step st st' \<Longrightarrow> refresh_measure (fst st') < refresh_measure (fst st)"
proof (induction rule: refresh_step.induct)
  case (hand_over rf t ts i s)
  with sum_worker_update [of i "rf_workers rf" "Received t"] show ?case
    by (simp add: refresh_measure_def)
next
  case (check_ended i rf t s)
  with sum_worker_update [of i "rf_workers rf" Exited] show ?case by (simp add: refresh_measure_def)
next
  case (check_running i rf t s)
  with sum_worker_update [of i "rf_workers rf" "Probing t"] show ?case
    by (simp add: refresh_measure_def)
next
  case (answered i rf t s res)
  with sum_worker_update [of i "rf_workers rf" Idle] show ?case by (simp add: refresh_measure_def)
next
  case (worker_ends rf i s)
  with sum_worker_update [of i "rf_workers rf" Exited] show ?case by (simp add: refresh_measure_def)
qed (auto simp: refresh_measure_def)

lemma refresh_steps_bounded:
  "(refresh_step ^^ n) st st' \<Longrightarrow> n + refresh_measure (fst st') \<le> refresh_measure (fst st)"
proof (induction n arbitrary: st')
  case (Suc n)
  then obtain mid where "(refresh_step ^^ n) st mid" "refresh_step mid st'" by auto
  with Suc.IH [of mid] refresh_step_measure [of mid st'] show ?case by simp
qed simp

lemma refresh_progress:
  assumes inv: "pool_inv enabled rf" and going: "\<not> refresh_over rf"
  shows "\<exists>st. refresh_step (rf, s) st"
proof (cases "\<exists>i < length (rf_workers rf). rf_workers rf ! i \<noteq> Exited")
  case True
  then obtain i where i: "i < length (rf_workers rf)" "rf_workers rf ! i \<noteq> Exited" by blast
  show ?thesis
  proof (cases "rf_workers rf ! i")
    case Idle
    show ?thesis
    proof (cases "rf_closed rf")
      case True
      with refresh_step.worker_ends [OF _ i(1) Idle] show ?thesis by blast
    next
      case False
      with i Idle refresh_step.hand_over refresh_step.sender_ends show ?thesis
        by (cases "rf_queue rf") blast+
    qed
  next
    case (Received t)
    with i refresh_step.check_ended refresh_step.check_running show ?thesis
      by (cases "rf_done rf") blast+
  next
    case (Probing t)
    with i refresh_step.answered show ?thesis by blast
  next
    case Exited
    with i show ?thesis by blast
  qed
next
  case False
  then have exited: "list_all (\<lambda>w. w = Exited) (rf_workers rf)" by (simp add: list_all_length)
  with going have sending: "\<not> rf_closed rf" by (simp add: refresh_over_def)
  show ?thesis
  proof (cases "rf_queue rf")
    case Nil
    with sending refresh_step.sender_ends show ?thesis by blast
  next
    case (Cons t ts)
    have "rf_done rf"
    proof (rule ccontr)
      assume "\<not> rf_done rf"
      with inv sending have "Exited \<notin> set (rf_workers rf)" by (simp add: pool_inv_def)
      with exited have none: "rf_workers rf = []" by (cases "rf_workers rf") auto
      with inv have "min (length enabled) maxConcurrentStatusRequests = 0"
        by (simp add: pool_inv_def)
      then have "enabled = []" by (cases enabled) (simp_all add: maxConcurrentStatusRequests_def)
      with inv Cons show False by (simp add: pool_inv_def)
    qed
    from refresh_step.sender_stops [OF this sending, of s] Cons show ?thesis by auto
  qed
qed

section \<open>The table under a refresh\<close>

lemma Record_keeps_newer:
  "statuses s p = Some row \<Longrightarrow> r < ts_revision row \<Longrightarrow> statuses (Record new r s) p = Some row"
  by (auto simp: Record_def Let_def)

lemma publish_keeps_newer:
  "statuses s p = Some row \<Longrightarrow> rf_revision rf < ts_revision row \<Longrightarrow>
   statuses (publish_probe rf t res s) p = Some row"
  by (auto simp: publish_probe_def RecordFailure_def RecordSuccess_def Record_keeps_newer Let_def
      split: sum.split)

lemma refresh_step_keeps_newer:
  assumes "refresh_step (rf, s) (rf', s')"
  shows "rf_revision rf' = rf_revision rf"
    and "statuses s p = Some row \<Longrightarrow> rf_revision rf < ts_revision row \<Longrightarrow> statuses s' p = Some row"
  using assms by (auto elim!: refresh_stepE intro: publish_keeps_newer)

lemma record_disabled_keeps_newer:
  "statuses s p = Some row \<Longrightarrow> r < ts_revision row \<Longrightarrow> statuses (record_disabled r ts s) p = Some row"
  by (induction ts arbitrary: s) (simp_all add: record_disabled_def Record_keeps_newer)

lemma refresh_steps_keep_newer:
  assumes "refresh_step\<^sup>*\<^sup>* (rf, s) (rf', s')" and "statuses s p = Some row"
    and "rf_revision rf < ts_revision row"
  shows "rf_revision rf' = rf_revision rf \<and> statuses s' p = Some row"
proof -
  have "rf_revision (fst (rf', s')) = rf_revision rf \<and> statuses (snd (rf', s')) p = Some row"
    using assms
  proof (induction rule: rtranclp_induct)
    case (step y z)
    obtain rfy sy where y: "y = (rfy, sy)" by fastforce
    obtain rfz sz where z: "z = (rfz, sz)" by fastforce
    from step have IH: "rf_revision rfy = rf_revision rf" "statuses sy p = Some row" by (simp_all add: y)
    from refresh_step_keeps_newer [OF step(2) [unfolded y z]] IH step.prems show ?case by (simp add: z)
  qed simp
  then show ?thesis by simp
qed

section \<open>One refresh at a time\<close>

definition flag_inv :: "admin_status \<Rightarrow> bool" where
  "flag_inv st \<longleftrightarrow> (as_inFlight st \<longleftrightarrow> as_spawned st \<noteq> None \<or> as_refresh st \<noteq> None)
     \<and> (as_spawned st = None \<or> as_refresh st = None)"

lemma flag_inv_step: "admin_step st st' \<Longrightarrow> flag_inv st \<Longrightarrow> flag_inv st'"
  by (erule admin_stepE)
    (auto simp: flag_inv_def statusSnapshot_def collectStatuses_def NextRevision_def Let_def
      split: if_splits)

lemma flag_inv_reachable: "admin_step\<^sup>*\<^sup>* st st' \<Longrightarrow> flag_inv st \<Longrightarrow> flag_inv st'"
  by (induction rule: rtranclp_induct) (auto intro: flag_inv_step)

definition idle_admin :: "status_store \<Rightarrow> admin_status" where
  "idle_admin s = \<lparr>as_inFlight = False, as_table = s, as_spawned = None, as_refresh = None\<rparr>"

lemma flag_inv_idle: "flag_inv (idle_admin s)"
  by (simp add: flag_inv_def idle_admin_def)

section \<open>The end of a refresh\<close>

definition working_inv :: "admin_status \<Rightarrow> bool" where
  "working_inv st \<longleftrightarrow> flag_inv st \<and> (\<forall>rf. as_refresh st = Some rf \<longrightarrow> (\<exists>enabled. pool_inv enabled rf))"

lemma working_inv_step:
  assumes "admin_step st st'" and "working_inv st"
  shows "working_inv st'"
proof -
  from assms(2) have flag: "flag_inv st'"
    using flag_inv_step [OF assms(1)] by (simp add: working_inv_def)
  from assms have "as_refresh st' = Some rf \<Longrightarrow> \<exists>enabled. pool_inv enabled rf" for rf
  proof (induction rule: admin_step.induct)
    case (refreshing st rf0 rf1 s')
    then obtain enabled where "pool_inv enabled rf0" by (auto simp: working_inv_def)
    with pool_inv_step [OF refreshing(2)] refreshing.prems show ?case by auto
  qed (auto simp: working_inv_def statusSnapshot_def collectStatuses_def NextRevision_def Let_def
      intro: pool_inv_start split: if_splits)
  with flag show ?thesis by (simp add: working_inv_def)
qed

lemma working_inv_reachable:
  "admin_step\<^sup>*\<^sup>* (idle_admin s) st \<Longrightarrow> working_inv st"
proof (induction rule: rtranclp_induct)
  case base
  show ?case using flag_inv_idle [of s] by (simp add: working_inv_def) (simp add: idle_admin_def)
qed (rule working_inv_step)

definition at_rest :: "admin_status \<Rightarrow> bool" where
  "at_rest st \<longleftrightarrow> \<not> as_inFlight st \<and> as_spawned st = None \<and> as_refresh st = None"

lemma running_refresh_can_end:
  assumes "working_inv st" and "as_refresh st = Some rf"
  shows "\<exists>st'. admin_step\<^sup>*\<^sup>* st st' \<and> at_rest st'"
  using assms
proof (induction "refresh_measure rf" arbitrary: rf st rule: less_induct)
  case less
  show ?case
  proof (cases "refresh_over rf")
    case True
    let ?st = "st\<lparr>as_refresh := None, as_inFlight := False\<rparr>"
    have "admin_step st ?st" by (rule admin_step.refreshed [OF less.prems(2) True])
    moreover have "at_rest ?st"
      using less.prems by (auto simp: at_rest_def working_inv_def flag_inv_def)
    ultimately show ?thesis by blast
  next
    case False
    from less.prems obtain enabled where "pool_inv enabled rf" by (auto simp: working_inv_def)
    from refresh_progress [OF this False] obtain rf' s' where
        step: "refresh_step (rf, as_table st) (rf', s')" by fastforce
    let ?st = "st\<lparr>as_refresh := Some rf', as_table := s'\<rparr>"
    have next_st: "admin_step st ?st" by (rule admin_step.refreshing [OF less.prems(2) step])
    have "refresh_measure rf' < refresh_measure rf" using refresh_step_measure [OF step] by simp
    from less.hyps [OF this working_inv_step [OF next_st less.prems(1)]]
    obtain st' where "admin_step\<^sup>*\<^sup>* ?st st'" "at_rest st'" by auto
    with next_st show ?thesis by (meson converse_rtranclp_into_rtranclp)
  qed
qed

lemma refresh_can_end:
  assumes "working_inv st"
  shows "\<exists>st'. admin_step\<^sup>*\<^sup>* st st' \<and> at_rest st'"
proof (cases "as_refresh st")
  case (Some rf)
  with running_refresh_can_end [OF assms] show ?thesis by blast
next
  case none: None
  show ?thesis
  proof (cases "as_spawned st")
    case None
    with none assms have "at_rest st" by (auto simp: at_rest_def working_inv_def flag_inv_def)
    then show ?thesis by blast
  next
    case (Some r)
    let ?st = "collectStatuses undefined False r st"
    have next_st: "admin_step st ?st" by (rule admin_step.collecting [OF Some])
    have "as_refresh ?st = Some (start_refresh undefined False r)" by (simp add: collectStatuses_def)
    from running_refresh_can_end [OF working_inv_step [OF next_st assms] this] next_st
    show ?thesis by (meson converse_rtranclp_into_rtranclp)
  qed
qed

section \<open>Properties\<close>

text \<open>
  C31. A fleet refresh asks each device once: in every reachable state of a refresh, however its
  workers interleave, at most 32 devices are being asked, no device was asked more often than it
  is enabled in the configuration, and a refresh that ends before its time is up has asked
  every enabled tool exactly once.
\<close>

theorem refresh_asks_each_device_once:
  assumes "refresh_step\<^sup>*\<^sup>* (start_refresh cfg safeOutput r, s) (rf, s')"
  shows "probing (rf_workers rf) \<le> 32
    \<and> mset (rf_probed rf) \<subseteq># mset (filter tool_enabled (cfg_tools cfg))
    \<and> (refresh_over rf \<and> \<not> rf_done rf \<longrightarrow>
        mset (rf_probed rf) = mset (filter tool_enabled (cfg_tools cfg)))"
proof -
  note inv = reachable_pool_inv [OF assms]
  have bound: "probing (rf_workers rf) \<le> 32"
    using probing_bound [OF inv] by (simp add: maxConcurrentStatusRequests_def)
  have total: "mset (filter tool_enabled (cfg_tools cfg)) = mset (rf_queue rf)
      + in_hands (rf_workers rf) + mset (rf_probed rf) + mset (rf_dropped rf)"
    using inv by (simp add: pool_inv_def)
  have idle: "in_hands ws = {#}" if "list_all (\<lambda>w. w = Exited) ws" for ws
    using that by (induction ws) (auto simp: in_hands_def)
  have "mset (rf_probed rf) = mset (filter tool_enabled (cfg_tools cfg))"
    if "refresh_over rf" and "\<not> rf_done rf"
    using that inv idle [of "rf_workers rf"] by (auto simp: pool_inv_def refresh_over_def)
  with bound total show ?thesis by (auto simp: ac_simps)
qed

definition small_fleet :: config where
  "small_fleet = \<lparr>cfg_bind = [], cfg_defaults = \<lparr>timeout_ms = 1, safe_state_on_error = [],
     shelly_tls = \<lparr>server_ca_file = [], client_cert_file = [], client_key_file = []\<rparr>\<rparr>,
     cfg_tools = [\<lparr>tool_interlock_name = ''A'', tool_ip = ''a'', tool_protocol = [],
       tool_port = 8081, tool_switch_id = 0, tool_username = None, tool_password = None,
       tool_enabled = True\<rparr>]\<rparr>"

definition blank_table :: status_store where
  "blank_table = \<lparr>statuses = Map.empty, st_order = [], st_next = 0\<rparr>"

theorem refresh_asks_each_device_once_witness:
  "probing (rf_workers (start_refresh small_fleet False 1)) \<le> 32"
  using refresh_asks_each_device_once [of small_fleet False 1 blank_table
      "start_refresh small_fleet False 1" blank_table]
  by simp

text \<open>
  C32. A refresh never hides newer news. A row that carries a revision newer than the one the
  refresh drew at its start, which is what a tool server publishes while the refresh is starting or
  running, is left exactly as it is: by the start of the collection, which records the disabled
  tools, and by every run of the refresh's steps, failures of its probes included.
\<close>

theorem refresh_never_overwrites_newer:
  assumes "statuses s p = Some row" and "r < ts_revision row"
  shows "(as_table st = s \<longrightarrow>
      statuses (as_table (collectStatuses cfg safeOutput r st)) p = Some row
      \<and> (\<exists>rf. as_refresh (collectStatuses cfg safeOutput r st) = Some rf \<and> rf_revision rf = r))
    \<and> (refresh_step\<^sup>*\<^sup>* (rf, s) (rf', s') \<and> rf_revision rf = r \<longrightarrow>
      statuses s' p = Some row \<and> rf_revision rf' = r)"
  using assms refresh_steps_keep_newer [of rf s rf' s' p row]
  by (auto simp: collectStatuses_def record_disabled_keeps_newer start_refresh_def Let_def)

definition fresh_row :: tool_status where
  "fresh_row = (late_row 8081 True)\<lparr>ts_revision := 2\<rparr>"

definition parked_fleet :: config where
  "parked_fleet = small_fleet\<lparr>cfg_tools := map (\<lambda>t. t\<lparr>tool_enabled := False\<rparr>) (cfg_tools small_fleet)\<rparr>"

theorem refresh_never_overwrites_newer_witness:
  "statuses (as_table (collectStatuses parked_fleet False 1
      (idle_admin (blank_table\<lparr>statuses := [8081 \<mapsto> fresh_row]\<rparr>)))) 8081 = Some fresh_row
   \<and> statuses (publish_probe (start_refresh small_fleet False 1) (hd (cfg_tools small_fleet)) (Inl EOF)
      (blank_table\<lparr>statuses := [8081 \<mapsto> fresh_row]\<rparr>)) 8081 = Some fresh_row"
proof -
  let ?t = "hd (cfg_tools small_fleet)" and ?s = "blank_table\<lparr>statuses := [8081 \<mapsto> fresh_row]\<rparr>"
  let ?rf = "(start_refresh small_fleet False 1)\<lparr>rf_workers := [Probing ?t]\<rparr>"
  let ?after = "(set_worker 0 Idle ?rf, publish_probe ?rf ?t (Inl EOF) ?s)"
  have same: "publish_probe ?rf = publish_probe (start_refresh small_fleet False 1)"
    by (intro ext) (simp add: publish_probe_def split: sum.split)
  have "refresh_step (?rf, ?s) ?after" by (rule refresh_step.answered) simp_all
  then have run: "refresh_step\<^sup>*\<^sup>* (?rf, ?s) ?after" by (rule r_into_rtranclp)
  have row: "statuses ?s 8081 = Some fresh_row" "1 < ts_revision fresh_row"
    by (simp_all add: fresh_row_def)
  have r: "rf_revision ?rf = 1" by (simp add: start_refresh_def Let_def)
  from refresh_never_overwrites_newer [OF row, of "idle_admin ?s" parked_fleet False ?rf "fst ?after" "snd ?after"]
    run r same show ?thesis by (simp add: idle_admin_def)
qed

text \<open>
  C33. A refresh ends: no execution of it is longer than four steps per enabled tool plus one per
  worker (at most 32) plus two, whatever the devices answer and whenever its time is up; a refresh
  that is not over can always take a step; and from every state that page requests, tool servers
  and the refresh itself can lead to, it can run to its end and clear the flag that bars the next.
\<close>

theorem refresh_ends:
  "((refresh_step ^^ n) (start_refresh cfg safeOutput r, s) (rf, s') \<longrightarrow>
      n \<le> 4 * length (filter tool_enabled (cfg_tools cfg))
        + min (length (filter tool_enabled (cfg_tools cfg))) 32 + 2)
   \<and> (refresh_step\<^sup>*\<^sup>* (start_refresh cfg safeOutput r, s) (rf, s') \<longrightarrow>
      refresh_over rf \<or> (\<exists>st. refresh_step (rf, s') st))
   \<and> (admin_step\<^sup>*\<^sup>* (idle_admin s) st \<longrightarrow>
      (\<exists>st'. admin_step\<^sup>*\<^sup>* st st' \<and> \<not> as_inFlight st' \<and> as_spawned st' = None \<and> as_refresh st' = None))"
proof (intro conjI impI)
  assume "(refresh_step ^^ n) (start_refresh cfg safeOutput r, s) (rf, s')"
  from refresh_steps_bounded [OF this]
  show "n \<le> 4 * length (filter tool_enabled (cfg_tools cfg))
        + min (length (filter tool_enabled (cfg_tools cfg))) 32 + 2"
    by (simp add: refresh_measure_def start_refresh_def Let_def sum_list_replicate
        maxConcurrentStatusRequests_def)
next
  assume "refresh_step\<^sup>*\<^sup>* (start_refresh cfg safeOutput r, s) (rf, s')"
  from reachable_pool_inv [OF this] refresh_progress
  show "refresh_over rf \<or> (\<exists>st. refresh_step (rf, s') st)" by blast
next
  assume "admin_step\<^sup>*\<^sup>* (idle_admin s) st"
  from refresh_can_end [OF working_inv_reachable [OF this]]
  show "\<exists>st'. admin_step\<^sup>*\<^sup>* st st' \<and> \<not> as_inFlight st' \<and> as_spawned st' = None \<and> as_refresh st' = None"
    by (simp add: at_rest_def)
qed

theorem refresh_ends_witness:
  "(\<exists>st. refresh_step (start_refresh small_fleet False 1, blank_table) st)
   \<and> as_inFlight (snd (statusSnapshot True (idle_admin blank_table)))
   \<and> (\<exists>st'. admin_step\<^sup>*\<^sup>* (snd (statusSnapshot True (idle_admin blank_table))) st' \<and> \<not> as_inFlight st')"
proof -
  have going: "\<not> refresh_over (start_refresh small_fleet False 1)"
    by (simp add: refresh_over_def start_refresh_def Let_def)
  have "admin_step (idle_admin blank_table) (snd (statusSnapshot True (idle_admin blank_table)))"
    by (rule admin_step.requested [where shown = "fst (statusSnapshot True (idle_admin blank_table))"]) simp
  then have reach: "admin_step\<^sup>*\<^sup>* (idle_admin blank_table) (snd (statusSnapshot True (idle_admin blank_table)))"
    by (rule r_into_rtranclp)
  have raised: "as_inFlight (snd (statusSnapshot True (idle_admin blank_table)))"
    by (simp add: statusSnapshot_def idle_admin_def NextRevision_def Let_def)
  from refresh_ends [of 0 small_fleet False 1 blank_table "start_refresh small_fleet False 1" blank_table
      "snd (statusSnapshot True (idle_admin blank_table))"] going reach raised
  show ?thesis by blast
qed

text \<open>
  C37. Fleet refreshes never overlap: however page requests, the spawned goroutine, its workers and
  the tool servers interleave, a request for a refresh while one is starting or running starts
  none, changes nothing and says that one is in progress; otherwise it starts exactly one, under
  a revision newer than every one drawn so far.
\<close>

theorem refreshes_never_overlap:
  assumes "admin_step\<^sup>*\<^sup>* (idle_admin s) st" and "statusSnapshot True st = ((rows, inProgress), st')"
  shows "inProgress \<and> rows = Snapshot (as_table st')
    \<and> (if as_spawned st \<noteq> None \<or> as_refresh st \<noteq> None then st' = st
       else as_refresh st' = None
         \<and> as_spawned st' = Some (st_next (as_table st) + 1)
         \<and> st_next (as_table st') = st_next (as_table st) + 1)"
  using assms(2) flag_inv_reachable [OF assms(1) flag_inv_idle]
  by (auto simp: statusSnapshot_def NextRevision_def flag_inv_def Let_def split: if_splits)

theorem refreshes_never_overlap_witness:
  "as_spawned (snd (statusSnapshot True (idle_admin blank_table))) = Some 1"
proof -
  obtain rows inProgress st' where h: "statusSnapshot True (idle_admin blank_table) = ((rows, inProgress), st')"
    by (metis prod.collapse)
  with refreshes_never_overlap [of blank_table "idle_admin blank_table", OF rtranclp.rtrancl_refl h]
  show ?thesis by (simp add: idle_admin_def blank_table_def)
qed

end
