(* ===== verification/Admin_Http.thy ===== *)
theory Admin_Http
  imports Admin_Config Admin_Status Fbs_Writer
begin

text \<open>
  The admin interface's HTTP side (internal/admin/server.go): the handlers of its API, the three
  middlewares around them and the route between them. The store of the configuration is an
  interface, a record of functions over the state behind it. Three things are arguments:
  the JSON coder of the library on the two larger payloads and the request body, its URL parser,
  and what is served below \<open>/\<close> (the embedded files and the redirects of the ServeMux). Log lines, the
  write deadline of an export, and the Connection header of an over-long body are left out.
\<close>

section \<open>Requests and state\<close>

datatype stream_end = EndOfBody | BodyFailed string

type_synonym body_stream = "string \<times> stream_end"

record admin_request =
  arq_method :: string
  arq_path :: string
  arq_host :: string
  arq_query :: "string \<rightharpoonup> string"
  arq_header :: "string \<rightharpoonup> string"
  arq_body :: body_stream

definition header_Get :: "admin_request \<Rightarrow> string \<Rightarrow> string" where
  "header_Get r k = (case arq_header r k of None \<Rightarrow> [] | Some v \<Rightarrow> v)"

definition query_Get :: "admin_request \<Rightarrow> string \<Rightarrow> string" where
  "query_Get r k = (case arq_query r k of None \<Rightarrow> [] | Some v \<Rightarrow> v)"

text \<open>What a second Decode of the body says.\<close>

datatype trailing = NothingMore | AnotherValue | BadTrailing string

datatype json_payload = ConfigPayload adminConfigResponse | StatusPayload "tool_status list"

record log_export =
  le_filename :: string
  le_chunks :: "string list"

record ('g, 'w) admin_server =
  ad_ConfigSnapshot :: "'g \<Rightarrow> config"
  ad_UpdateConfig :: "config \<Rightarrow> 'g \<Rightarrow> string option \<times> 'g"
  ad_logExporter :: "log_export option"
  ad_decode :: "body_stream \<Rightarrow> string + (adminConfigRequest \<times> body_stream)"
  ad_trailing :: "body_stream \<Rightarrow> trailing"
  ad_encode :: "json_payload \<Rightarrow> string option"
  ad_disposition :: "string \<Rightarrow> string"
  ad_parseURL :: "string \<Rightarrow> (string \<times> string) option"
  ad_files :: "admin_request \<Rightarrow> 'w \<Rightarrow> 'w"

record ('g, 'w) admin_state =
  ah_store :: 'g
  ah_status :: admin_status
  ah_timers :: nat
  ah_restart :: nat
  ah_writer :: 'w

type_synonym ('g, 'w) admin_handler = "admin_request \<Rightarrow> ('g, 'w) admin_state \<Rightarrow> ('g, 'w) admin_state"

definition answer_with :: "('w \<Rightarrow> 'w) \<Rightarrow> ('g, 'w) admin_state \<Rightarrow> ('g, 'w) admin_state" where
  "answer_with f st = st\<lparr>ah_writer := f (ah_writer st)\<rparr>"

definition set_header :: "'w response_writer \<Rightarrow> string \<Rightarrow> string \<Rightarrow> 'w \<Rightarrow> 'w" where
  "set_header W k v = rw_Header W (\<lambda>m. m(k \<mapsto> v))"

section \<open>Reading and writing JSON\<close>

definition maxConfigRequestBytes :: nat where "maxConfigRequestBytes = 1048576"

text \<open>\<open>http.MaxBytesReader\<close>.\<close>

definition limited :: "nat \<Rightarrow> body_stream \<Rightarrow> body_stream" where
  "limited n body =
     (if n < length (fst body) then (take n (fst body), BodyFailed ''http: request body too large'') else body)"

definition decodeSingleJSON ::
  "('g, 'w) admin_server \<Rightarrow> nat \<Rightarrow> body_stream \<Rightarrow> string + adminConfigRequest" where
  "decodeSingleJSON srv maxBytes body =
     (case ad_decode srv (limited maxBytes body) of
        Inl err \<Rightarrow> Inl err
      | Inr (request, rest) \<Rightarrow>
          (case ad_trailing srv rest of
             NothingMore \<Rightarrow> Inr request
           | AnotherValue \<Rightarrow> Inl ''request body must contain exactly one JSON value''
           | BadTrailing err \<Rightarrow> Inl (''invalid trailing data: '' @ err)))"

definition writeJSON :: "'w response_writer \<Rightarrow> int \<Rightarrow> string option \<Rightarrow> 'w \<Rightarrow> 'w" where
  "writeJSON W code encoded w =
     (case encoded of
        None \<Rightarrow> http_Error W ''failed to encode response'' 500 w
      | Some encoding \<Rightarrow>
          snd (rw_Write W encoding
            (rw_WriteHeader W code
              (set_header W ''Content-Type'' ''application/json; charset=utf-8'' w))))"

text \<open>The JSON of the two flag maps, whose keys the encoder sorts.\<close>

definition quoted :: "string \<Rightarrow> string" where
  "quoted s = CHR 0x22 # s @ [CHR 0x22]"

definition savedJSON :: string where
  "savedJSON = ''{'' @ quoted ''restart_required'' @ '':true,'' @ quoted ''saved'' @ '':true}'' @ [CHR 0x0A]"

definition restartJSON :: string where
  "restartJSON = ''{'' @ quoted ''restart_requested'' @ '':true}'' @ [CHR 0x0A]"

definition setAPINoStoreHeaders :: "'w response_writer \<Rightarrow> 'w \<Rightarrow> 'w" where
  "setAPINoStoreHeaders W w =
     set_header W ''Pragma'' ''no-cache'' (set_header W ''Cache-Control'' ''no-store, max-age=0'' w)"

definition refuse_method :: "'w response_writer \<Rightarrow> string \<Rightarrow> 'w \<Rightarrow> 'w" where
  "refuse_method W allow w = http_Error W ''method not allowed'' 405 (set_header W ''Allow'' allow w)"

section \<open>Handlers\<close>

definition handleGetConfig ::
  "('g, 'w) admin_server \<Rightarrow> 'w response_writer \<Rightarrow> ('g, 'w) admin_state \<Rightarrow> ('g, 'w) admin_state" where
  "handleGetConfig srv W st =
     answer_with (writeJSON W 200
       (ad_encode srv (ConfigPayload (config_response (ad_ConfigSnapshot srv (ah_store st)))))) st"

definition handlePutConfig ::
  "('g, 'w) admin_server \<Rightarrow> 'w response_writer \<Rightarrow> ('g, 'w) admin_handler" where
  "handlePutConfig srv W r st =
     (case decodeSingleJSON srv maxConfigRequestBytes (arq_body r) of
        Inl err \<Rightarrow> answer_with (http_Error W (''invalid JSON: '' @ err) 400) st
      | Inr request \<Rightarrow>
          let updated = buildUpdatedConfig (ad_ConfigSnapshot srv (ah_store st)) request
          in (case ad_UpdateConfig srv updated (ah_store st) of
                (Some err, g) \<Rightarrow> answer_with (http_Error W err 400) (st\<lparr>ah_store := g\<rparr>)
              | (None, g) \<Rightarrow> answer_with (writeJSON W 200 (Some savedJSON)) (st\<lparr>ah_store := g\<rparr>)))"

definition handleConfig ::
  "('g, 'w) admin_server \<Rightarrow> 'w response_writer \<Rightarrow> ('g, 'w) admin_handler" where
  "handleConfig srv W r st0 =
     (let st = answer_with (setAPINoStoreHeaders W) st0
      in if arq_method r = ''GET'' then handleGetConfig srv W st
         else if arq_method r = ''PUT'' then handlePutConfig srv W r st
         else answer_with (refuse_method W ''GET, PUT'') st)"

definition admin_handleStatus ::
  "('g, 'w) admin_server \<Rightarrow> 'w response_writer \<Rightarrow> ('g, 'w) admin_handler" where
  "admin_handleStatus srv W r st0 =
     (let st = answer_with (setAPINoStoreHeaders W) st0
      in if arq_method r \<noteq> ''GET'' then answer_with (refuse_method W ''GET'') st
         else (case statusSnapshot (query_Get r ''refresh'' = ''1'') (ah_status st) of
                 ((results, inProgress), status) \<Rightarrow>
                   answer_with
                     (\<lambda>w. writeJSON W 200 (ad_encode srv (StatusPayload results))
                        (set_header W ''X-Status-Refresh-In-Progress''
                           (if inProgress then ''true'' else ''false'') w))
                     (st\<lparr>ah_status := status\<rparr>)))"

definition write_chunks :: "'w response_writer \<Rightarrow> string list \<Rightarrow> 'w \<Rightarrow> 'w" where
  "write_chunks W chunks w = fold (\<lambda>c w. snd (rw_Write W c w)) chunks w"

definition handleLogExport ::
  "('g, 'w) admin_server \<Rightarrow> 'w response_writer \<Rightarrow> ('g, 'w) admin_handler" where
  "handleLogExport srv W r st0 =
     (let st = answer_with (setAPINoStoreHeaders W) st0
      in if arq_method r \<noteq> ''POST'' then answer_with (refuse_method W ''POST'') st
         else (case ad_logExporter srv of
                 None \<Rightarrow> answer_with (http_Error W ''application log export is unavailable'' 503) st
               | Some exporter \<Rightarrow>
                   let name = TrimSpace (le_filename exporter);
                       filename = (if name = [] then ''logs.log'' else name)
                   in answer_with
                        (\<lambda>w. write_chunks W (le_chunks exporter)
                          (set_header W ''X-Content-Type-Options'' ''nosniff''
                            (set_header W ''Content-Disposition'' (ad_disposition srv filename)
                              (set_header W ''Content-Type'' ''text/plain; charset=utf-8'' w)))) st))"

text \<open>
  A restart request starts a timer; when the timer fires, the request is sent to the gateway's
  channel, of capacity one, unless one is already waiting there.
\<close>

definition handleRestart ::
  "'w response_writer \<Rightarrow> ('g, 'w) admin_handler" where
  "handleRestart W r st0 =
     (let st = answer_with (setAPINoStoreHeaders W) st0
      in if arq_method r \<noteq> ''POST'' then answer_with (refuse_method W ''POST'') st
         else (answer_with (writeJSON W 200 (Some restartJSON)) st)\<lparr>ah_timers := ah_timers st + 1\<rparr>)"

definition restart_timer :: "('g, 'w) admin_state \<Rightarrow> ('g, 'w) admin_state" where
  "restart_timer st =
     (if ah_timers st = 0 then st
      else st\<lparr>ah_timers := ah_timers st - 1, ah_restart := (if ah_restart st < 1 then ah_restart st + 1 else ah_restart st)\<rparr>)"

section \<open>Middleware\<close>

definition isSafeMethod :: "string \<Rightarrow> bool" where
  "isSafeMethod m \<longleftrightarrow> m = ''GET'' \<or> m = ''HEAD'' \<or> m = ''OPTIONS''"

definition originMatchesRequest :: "('g, 'w) admin_server \<Rightarrow> string \<Rightarrow> admin_request \<Rightarrow> bool" where
  "originMatchesRequest srv origin r =
     (case ad_parseURL srv origin of
        None \<Rightarrow> False
      | Some (scheme, host) \<Rightarrow>
          (scheme = ''http'' \<or> scheme = ''https'') \<and> EqualFold host (arq_host r))"

definition hostValidationMiddleware ::
  "'w response_writer \<Rightarrow> ('g, 'w) admin_handler \<Rightarrow> ('g, 'w) admin_handler" where
  "hostValidationMiddleware W nxt r st =
     (let host = ToLower (TrimSpace (arq_host r))
      in if host = ''127.0.0.1:18090'' \<or> host = ''localhost:18090'' then nxt r st
         else answer_with (http_Error W ''invalid host'' 403) st)"

definition crossSiteProtectionMiddleware ::
  "('g, 'w) admin_server \<Rightarrow> 'w response_writer \<Rightarrow> ('g, 'w) admin_handler \<Rightarrow> ('g, 'w) admin_handler" where
  "crossSiteProtectionMiddleware srv W nxt r st =
     (if isSafeMethod (arq_method r) then nxt r st
      else if EqualFold (header_Get r ''Sec-Fetch-Site'') ''cross-site'' then
        answer_with (http_Error W ''cross-site request rejected'' 403) st
      else let origin = TrimSpace (header_Get r ''Origin'')
           in if origin \<noteq> [] \<and> \<not> originMatchesRequest srv origin r
              then answer_with (http_Error W ''request origin rejected'' 403) st
              else nxt r st)"

definition quote_char :: string where "quote_char = [CHR 0x27]"

definition contentSecurityPolicy :: string where
  "contentSecurityPolicy =
     ''default-src '' @ quote_char @ ''self'' @ quote_char @ ''; ''
     @ ''base-uri '' @ quote_char @ ''none'' @ quote_char @ ''; ''
     @ ''object-src '' @ quote_char @ ''none'' @ quote_char @ ''; ''
     @ ''frame-ancestors '' @ quote_char @ ''none'' @ quote_char @ ''; ''
     @ ''form-action '' @ quote_char @ ''self'' @ quote_char @ ''; ''
     @ ''img-src '' @ quote_char @ ''self'' @ quote_char @ '' data:; ''
     @ ''style-src '' @ quote_char @ ''self'' @ quote_char @ '' '' @ quote_char @ ''unsafe-inline'' @ quote_char @ ''; ''
     @ ''script-src '' @ quote_char @ ''self'' @ quote_char @ '' '' @ quote_char @ ''unsafe-inline'' @ quote_char"

definition security_headers :: "'w response_writer \<Rightarrow> 'w \<Rightarrow> 'w" where
  "security_headers W w =
     set_header W ''Content-Security-Policy'' contentSecurityPolicy
       (set_header W ''Permissions-Policy'' ''camera=(), microphone=(), geolocation=()''
       (set_header W ''Referrer-Policy'' ''same-origin''
       (set_header W ''X-Frame-Options'' ''DENY''
       (set_header W ''X-Content-Type-Options'' ''nosniff'' w))))"

definition securityHeadersMiddleware ::
  "'w response_writer \<Rightarrow> ('g, 'w) admin_handler \<Rightarrow> ('g, 'w) admin_handler" where
  "securityHeadersMiddleware W nxt r st =
     nxt r (answer_with
       (security_headers W) st)"

section \<open>The server\<close>

definition admin_mux ::
  "('g, 'w) admin_server \<Rightarrow> 'w response_writer \<Rightarrow> ('g, 'w) admin_handler" where
  "admin_mux srv W r st =
     (if arq_path r = ''/api/config'' then handleConfig srv W r st
      else if arq_path r = ''/api/status'' then admin_handleStatus srv W r st
      else if arq_path r = ''/api/logs/export'' then handleLogExport srv W r st
      else if arq_path r = ''/api/restart'' then handleRestart W r st
      else answer_with (ad_files srv r) st)"

definition serve_admin ::
  "('g, 'w) admin_server \<Rightarrow> 'w response_writer \<Rightarrow> ('g, 'w) admin_handler" where
  "serve_admin srv W =
     securityHeadersMiddleware W
       (hostValidationMiddleware W (crossSiteProtectionMiddleware srv W (admin_mux srv W)))"

text \<open>
  The address the server may listen on: \<open>net.SplitHostPort\<close>, then localhost or a loopback IP, which
  \<open>loopbackIP\<close> recognises (\<open>net.ParseIP\<close> and \<open>IsLoopback\<close>).
\<close>

definition SplitHostPort :: "string \<Rightarrow> string + (string \<times> string)" where
  "SplitHostPort hostport =
     (case Cut (rev hostport) (CHR '':'') of
        None \<Rightarrow> Inl ''missing port in address''
      | Some (rport, rhost) \<Rightarrow>
          let host = rev rhost; port = rev rport
          in if prefix ''['' hostport then
               (case Cut hostport (CHR '']'') of
                  None \<Rightarrow> Inl ''missing ']' in address''
                | Some (inner, after) \<Rightarrow>
                    if after = [] then Inl ''missing port in address''
                    else if after = CHR '':'' # port then
                      (if CHR ''['' \<in> set (tl inner) \<or> CHR ''['' \<in> set after then Inl ''unexpected '[' in address''
                       else if CHR '']'' \<in> set after then Inl ''unexpected ']' in address''
                       else Inr (tl inner, port))
                    else if prefix '':'' after then Inl ''too many colons in address''
                    else Inl ''missing port in address'')
             else if CHR '':'' \<in> set host then Inl ''too many colons in address''
             else if CHR ''['' \<in> set hostport then Inl ''unexpected '[' in address''
             else if CHR '']'' \<in> set hostport then Inl ''unexpected ']' in address''
             else Inr (host, port))"

definition isLoopbackAdminAddress :: "(string \<Rightarrow> bool) \<Rightarrow> string \<Rightarrow> bool" where
  "isLoopbackAdminAddress loopbackIP addr =
     (case SplitHostPort addr of
        Inl err \<Rightarrow> False
      | Inr (host, port) \<Rightarrow> EqualFold host ''localhost'' \<or> loopbackIP host)"

text \<open>\<open>Run\<close>, up to the listener: the handler it serves, or its refusal.\<close>

definition admin_Run ::
  "(string \<Rightarrow> bool) \<Rightarrow> string \<Rightarrow> ('g, 'w) admin_server \<Rightarrow> 'w response_writer
     \<Rightarrow> string + ('g, 'w) admin_handler" where
  "admin_Run loopbackIP addr srv W =
     (if isLoopbackAdminAddress loopbackIP addr then Inr (serve_admin srv W)
      else Inl (''admin UI must listen on a loopback address, got '' @ addr))"

lemma admin_Run_loopback:
  "admin_Run loopbackIP addr srv W = Inr h \<Longrightarrow>
     \<exists>host port. SplitHostPort addr = Inr (host, port) \<and> (EqualFold host ''localhost'' \<or> loopbackIP host)"
  by (auto simp: admin_Run_def isLoopbackAdminAddress_def split: if_splits sum.splits)

section \<open>What the guards let through\<close>

definition host_allowed :: "admin_request \<Rightarrow> bool" where
  "host_allowed r \<longleftrightarrow> ToLower (TrimSpace (arq_host r)) \<in> {''127.0.0.1:18090'', ''localhost:18090''}"

definition same_site :: "('g, 'w) admin_server \<Rightarrow> admin_request \<Rightarrow> bool" where
  "same_site srv r \<longleftrightarrow> isSafeMethod (arq_method r)
     \<or> (\<not> EqualFold (header_Get r ''Sec-Fetch-Site'') ''cross-site''
        \<and> (TrimSpace (header_Get r ''Origin'') = []
           \<or> originMatchesRequest srv (TrimSpace (header_Get r ''Origin'')) r))"

lemma guards_pass:
  assumes "host_allowed r" and "same_site srv r"
  shows "hostValidationMiddleware W (crossSiteProtectionMiddleware srv W nxt) r st = nxt r st"
  using assms by (auto simp: hostValidationMiddleware_def crossSiteProtectionMiddleware_def
      host_allowed_def same_site_def Let_def)

lemma guards_cases:
  obtains (refused) msg where "\<not> (host_allowed r \<and> same_site srv r)"
      "hostValidationMiddleware W (crossSiteProtectionMiddleware srv W nxt) r st
         = answer_with (http_Error W msg 403) st"
  | (passed) "host_allowed r" "same_site srv r"
      "hostValidationMiddleware W (crossSiteProtectionMiddleware srv W nxt) r st = nxt r st"
proof (cases "host_allowed r \<and> same_site srv r")
  case True
  with guards_pass [of r srv W nxt st] that(2) show ?thesis by simp
next
  case False
  then have "\<exists>msg. hostValidationMiddleware W (crossSiteProtectionMiddleware srv W nxt) r st
      = answer_with (http_Error W msg 403) st"
    by (auto simp: hostValidationMiddleware_def crossSiteProtectionMiddleware_def host_allowed_def
        same_site_def Let_def)
  with False that(1) show ?thesis by blast
qed

text \<open>Answering changes nothing but the writer.\<close>

lemma answer_with_fields [simp]:
  "ah_store (answer_with f st) = ah_store st" "ah_status (answer_with f st) = ah_status st"
  "ah_timers (answer_with f st) = ah_timers st" "ah_restart (answer_with f st) = ah_restart st"
  "ah_writer (answer_with f st) = f (ah_writer st)"
  by (simp_all add: answer_with_def)

lemmas admin_handlers = handleConfig_def handleGetConfig_def handlePutConfig_def
  admin_handleStatus_def handleLogExport_def handleRestart_def

lemma mux_store:
  "ah_store (admin_mux srv W r st) = ah_store st
     \<or> arq_method r = ''PUT'' \<and> arq_path r = ''/api/config''"
  by (auto simp: admin_mux_def admin_handlers Let_def split: option.split prod.split)

lemma mux_timers:
  "ah_timers (admin_mux srv W r st) = ah_timers st
     \<or> arq_method r = ''POST'' \<and> arq_path r = ''/api/restart'' \<and> ah_timers (admin_mux srv W r st) = ah_timers st + 1"
  by (auto simp: admin_mux_def admin_handlers Let_def split: option.split prod.split sum.split)

lemma mux_status:
  "ah_status (admin_mux srv W r st) = ah_status st
     \<or> arq_method r = ''GET'' \<and> arq_path r = ''/api/status''"
  by (auto simp: admin_mux_def admin_handlers Let_def split: option.split prod.split sum.split)

lemma mux_restart: "ah_restart (admin_mux srv W r st) = ah_restart st"
  by (auto simp: admin_mux_def admin_handlers Let_def split: option.split prod.split sum.split)

section \<open>The security headers\<close>

definition secured :: "header \<Rightarrow> bool" where
  "secured h \<longleftrightarrow> h ''X-Content-Type-Options'' = Some ''nosniff''
     \<and> h ''X-Frame-Options'' = Some ''DENY'' \<and> h ''Referrer-Policy'' = Some ''same-origin''
     \<and> h ''Permissions-Policy'' = Some ''camera=(), microphone=(), geolocation=()''
     \<and> h ''Content-Security-Policy'' = Some contentSecurityPolicy"

definition secured_answer :: "http_answer \<Rightarrow> bool" where
  "secured_answer a \<longleftrightarrow> secured (ha_header a)
     \<and> (\<forall>code h. ha_sent a = Some (code, h) \<longrightarrow> secured h)"

definition own_headers :: "string set" where
  "own_headers = {''X-Frame-Options'', ''Referrer-Policy'', ''Permissions-Policy'',
     ''Content-Security-Policy''}"

lemma secured_set_header:
  assumes "secured_answer a" and "k \<notin> own_headers" and "k = ''X-Content-Type-Options'' \<longrightarrow> v = ''nosniff''"
  shows "secured_answer (set_header http_writer k v a)"
  using assms by (auto simp: secured_answer_def secured_def set_header_def http_writer_def own_headers_def)

lemma secured_WriteHeader: "secured_answer a \<Longrightarrow> secured_answer (answer_WriteHeader code a)"
  by (auto simp: secured_answer_def answer_WriteHeader_def)

lemma secured_Write: "secured_answer a \<Longrightarrow> secured_answer (snd (answer_Write data a))"
  using secured_WriteHeader [of a 200]
  by (auto simp: answer_Write_def secured_answer_def Let_def split: option.split)

lemma secured_http_Error: "secured_answer a \<Longrightarrow> secured_answer (http_Error http_writer msg code a)"
  unfolding http_Error_def Let_def
  by (simp add: http_writer_def, intro secured_Write secured_WriteHeader)
    (auto simp: secured_answer_def secured_def)

lemma secured_writeJSON: "secured_answer a \<Longrightarrow> secured_answer (writeJSON http_writer code encoded a)"
  by (cases encoded)
    (auto simp: writeJSON_def http_writer_def own_headers_def
      intro!: secured_Write secured_WriteHeader
      intro: secured_http_Error [unfolded http_writer_def]
        secured_set_header [unfolded http_writer_def])

lemma secured_chunks: "secured_answer a \<Longrightarrow> secured_answer (write_chunks http_writer chunks a)"
  unfolding write_chunks_def
  by (induction chunks arbitrary: a) (simp_all add: http_writer_def secured_Write)

lemma secured_no_store: "secured_answer a \<Longrightarrow> secured_answer (setAPINoStoreHeaders http_writer a)"
  by (simp add: setAPINoStoreHeaders_def secured_set_header own_headers_def)

lemma secured_refuse: "secured_answer a \<Longrightarrow> secured_answer (refuse_method http_writer allow a)"
  by (simp add: refuse_method_def secured_set_header own_headers_def secured_http_Error)

lemmas secured_intros = secured_http_Error secured_writeJSON secured_chunks secured_no_store
  secured_refuse secured_set_header

definition api_paths :: "string set" where
  "api_paths = {''/api/config'', ''/api/status'', ''/api/logs/export'', ''/api/restart''}"

lemma secured_mux:
  assumes "arq_path r \<in> api_paths" and "secured_answer (ah_writer st)"
  shows "secured_answer (ah_writer (admin_mux srv http_writer r st))"
  using assms
  by (auto simp: api_paths_def admin_mux_def admin_handlers Let_def own_headers_def
      split: option.split prod.split sum.split intro!: secured_intros)

lemma secured_start:
  "secured_answer (security_headers http_writer fresh_answer)"
  by (simp add: security_headers_def set_header_def http_writer_def secured_answer_def secured_def
      fresh_answer_def)

lemma secured_guards:
  assumes "arq_path r \<in> api_paths" and "secured_answer (ah_writer st)"
  shows "secured_answer (ah_writer (hostValidationMiddleware http_writer
    (crossSiteProtectionMiddleware srv http_writer (admin_mux srv http_writer)) r st))"
  by (cases rule: guards_cases [of r srv http_writer "admin_mux srv http_writer" st])
    (simp_all add: assms secured_http_Error secured_mux)

lemma http_Error_sent:
  "ha_sent a = None \<Longrightarrow> \<exists>h. ha_sent (http_Error http_writer msg code a) = Some (code, h)"
  by (simp add: http_Error_def Let_def http_writer_def answer_WriteHeader_def answer_Write_def)

text \<open>A PUT of the configuration that passes the guards reaches its handler on an open answer.\<close>

lemma serve_admin_put:
  assumes "host_allowed r" and "same_site srv r"
    and "arq_method r = ''PUT''" and "arq_path r = ''/api/config''"
    and "ah_writer st = fresh_answer" and "serve_admin srv http_writer r st = st'"
  shows "\<exists>st1. st' = handlePutConfig srv http_writer r st1 \<and> ah_store st1 = ah_store st
    \<and> ha_sent (ah_writer st1) = None \<and> ha_body (ah_writer st1) = [] \<and> ha_length (ah_writer st1) = None
    \<and> ha_header (ah_writer st1) ''Content-Length'' = None"
proof -
  let ?st1 = "answer_with (setAPINoStoreHeaders http_writer) (answer_with (security_headers http_writer) st)"
  have "st' = admin_mux srv http_writer r (answer_with (security_headers http_writer) st)"
    unfolding assms(6) [symmetric] serve_admin_def securityHeadersMiddleware_def
    by (rule guards_pass [OF assms(1,2)])
  then have "st' = handlePutConfig srv http_writer r ?st1"
    using assms(3,4) by (simp add: admin_mux_def handleConfig_def Let_def)
  moreover have "ha_sent (ah_writer ?st1) = None \<and> ha_body (ah_writer ?st1) = []
      \<and> ha_length (ah_writer ?st1) = None \<and> ha_header (ah_writer ?st1) ''Content-Length'' = None"
    by (simp add: assms(5) security_headers_def setAPINoStoreHeaders_def set_header_def http_writer_def fresh_answer_def)
  ultimately show ?thesis by (intro exI [of _ ?st1]) simp
qed

section \<open>Properties\<close>

text \<open>
  C8. The guards of the admin interface hold for every request: one whose Host is not the
  interface's own, or that could change something and comes from another site, is answered 403
  and changes nothing; of the others only a PUT of the configuration reaches the configuration, only
  a POST to the restart endpoint schedules a restart, and only a GET of the status starts a refresh.
\<close>

theorem admin_requests_are_guarded:
  assumes "ah_writer st = fresh_answer" and "serve_admin srv http_writer r st = st'"
  shows "if host_allowed r \<and> same_site srv r
    then (ah_store st' = ah_store st \<or> (arq_method r, arq_path r) = (''PUT'', ''/api/config''))
      \<and> (ah_timers st' = ah_timers st
          \<or> (arq_method r, arq_path r) = (''POST'', ''/api/restart'') \<and> ah_timers st' = ah_timers st + 1)
      \<and> (ah_status st' = ah_status st \<or> (arq_method r, arq_path r) = (''GET'', ''/api/status''))
    else (\<exists>h. ha_sent (ah_writer st') = Some (403, h) \<and> secured h)
      \<and> ah_store st' = ah_store st \<and> ah_timers st' = ah_timers st \<and> ah_status st' = ah_status st
      \<and> ah_restart st' = ah_restart st"
proof -
  define st1 where "st1 = answer_with (security_headers http_writer) st"
  have safe: "secured_answer (ah_writer st1)"
    unfolding st1_def answer_with_fields assms(1) by (rule secured_start)
  have unsent: "ha_sent (ah_writer st1) = None"
    by (simp add: st1_def assms(1) security_headers_def set_header_def http_writer_def fresh_answer_def)
  have same: "ah_store st1 = ah_store st" "ah_timers st1 = ah_timers st"
    "ah_status st1 = ah_status st" "ah_restart st1 = ah_restart st"
    by (simp_all add: st1_def)
  have run: "st' = hostValidationMiddleware http_writer
      (crossSiteProtectionMiddleware srv http_writer (admin_mux srv http_writer)) r st1"
    using assms(2) by (simp add: serve_admin_def securityHeadersMiddleware_def st1_def)
  show ?thesis
  proof (cases rule: guards_cases [of r srv http_writer "admin_mux srv http_writer" st1])
    case (refused msg)
    from http_Error_sent [OF unsent, of msg 403] secured_http_Error [OF safe, of msg 403] refused
    show ?thesis by (auto simp: run same secured_answer_def)
  next
    case passed
    then show ?thesis
      using mux_store [of srv http_writer r st1] mux_timers [of srv http_writer r st1]
        mux_status [of srv http_writer r st1]
      by (simp add: run same)
  qed
qed

definition blank_server :: "(config, http_answer) admin_server" where
  "blank_server = \<lparr>ad_ConfigSnapshot = (\<lambda>g. g), ad_UpdateConfig = (\<lambda>cfg g. (None, cfg)),
     ad_logExporter = None, ad_decode = (\<lambda>b. Inl ''EOF''), ad_trailing = (\<lambda>b. NothingMore),
     ad_encode = (\<lambda>p. None), ad_disposition = (\<lambda>s. s), ad_parseURL = (\<lambda>s. None),
     ad_files = (\<lambda>r w. w)\<rparr>"

definition foreign_put :: admin_request where
  "foreign_put = \<lparr>arq_method = ''PUT'', arq_path = ''/api/config'', arq_host = ''evil.example:18090'',
     arq_query = Map.empty, arq_header = Map.empty, arq_body = ([], EndOfBody)\<rparr>"

definition blank_admin :: "(config, http_answer) admin_state" where
  "blank_admin = \<lparr>ah_store = small_fleet, ah_status = idle_admin blank_table, ah_timers = 0,
     ah_restart = 0, ah_writer = fresh_answer\<rparr>"

theorem admin_requests_are_guarded_witness:
  "\<exists>h. ha_sent (ah_writer (serve_admin blank_server http_writer foreign_put blank_admin)) = Some (403, h)
     \<and> secured h"
proof -
  have "\<not> host_allowed foreign_put" by code_simp
  moreover have "ah_writer blank_admin = fresh_answer" by (simp add: blank_admin_def)
  ultimately show ?thesis
    using admin_requests_are_guarded [of blank_admin blank_server foreign_put, OF _ refl] by simp
qed

text \<open>
  Every answer of the admin API carries the protective headers, whatever the handler did and
  whichever guard refused it: no content sniffing, no framing, a same-origin referrer and the
  content policy; and a handler never replaces one of them by another value.
\<close>

lemma admin_answers_are_protected:
  assumes "ah_writer st = fresh_answer" and "arq_path r \<in> api_paths"
  shows "case ha_sent (answer_WriteHeader 200 (ah_writer (serve_admin srv http_writer r st))) of
      None \<Rightarrow> False
    | Some (code, h) \<Rightarrow> h ''X-Content-Type-Options'' = Some ''nosniff''
        \<and> h ''X-Frame-Options'' = Some ''DENY'' \<and> h ''Referrer-Policy'' = Some ''same-origin''
        \<and> h ''Content-Security-Policy'' = Some contentSecurityPolicy"
proof -
  let ?a = "ah_writer (serve_admin srv http_writer r st)"
  have "secured_answer ?a"
    unfolding serve_admin_def securityHeadersMiddleware_def
    by (rule secured_guards [OF assms(2)], unfold answer_with_fields assms(1), rule secured_start)
  from secured_WriteHeader [OF this, of 200] show ?thesis
    by (auto simp: secured_answer_def secured_def answer_WriteHeader_def split: option.splits)
qed

end
