(* ===== verification/Go_Flags.thy ===== *)
theory Go_Flags
  imports Gateway_Prelude
begin

text \<open>
  Command lines and paths: \<open>flag.FlagSet.Parse\<close> for string and boolean flags, as the commands under
  src/cmd and internal/updateauth use it, and the functions of path/filepath on Unix.
\<close>

section \<open>Flags\<close>

datatype flag_kind = StringFlag | BoolFlag

text \<open>One argument: not a flag, or its name and the value after \<open>=\<close>.\<close>

datatype flag_arg = NotAFlag | EndOfFlags | BadSyntax | Flag string "string option"

definition read_flag :: "string \<Rightarrow> flag_arg" where
  "read_flag s =
     (if length s < 2 \<or> s ! 0 \<noteq> CHR ''-'' then NotAFlag
      else let name = (if s ! 1 = CHR ''-'' then drop 2 s else drop 1 s)
           in if s = ''--'' then EndOfFlags
              else if name = [] \<or> name ! 0 = CHR ''-'' \<or> name ! 0 = CHR ''='' then BadSyntax
              else (case Cut name (CHR ''='') of
                      None \<Rightarrow> Flag name None
                    | Some (n, v) \<Rightarrow> Flag n (Some v)))"

definition undefined_flag :: "string \<Rightarrow> string" where
  "undefined_flag name =
     (if name = ''help'' \<or> name = ''h'' then ''flag: help requested''
      else ''flag provided but not defined: -'' @ name)"

definition ParseBool :: "string \<Rightarrow> bool option" where
  "ParseBool s =
     (if s \<in> set [''1'', ''t'', ''T'', ''TRUE'', ''true'', ''True''] then Some True
      else if s \<in> set [''0'', ''f'', ''F'', ''FALSE'', ''false'', ''False''] then Some False
      else None)"

type_synonym flag_values = "string \<rightharpoonup> string"

fun flag_parse ::
  "(string \<rightharpoonup> flag_kind) \<Rightarrow> flag_values \<Rightarrow> string list \<Rightarrow> string + (flag_values \<times> string list)" where
  "flag_parse kinds vals [] = Inr (vals, [])"
| "flag_parse kinds vals (s # rest) =
     (case read_flag s of
        NotAFlag \<Rightarrow> Inr (vals, s # rest)
      | EndOfFlags \<Rightarrow> Inr (vals, rest)
      | BadSyntax \<Rightarrow> Inl (''bad flag syntax: '' @ s)
      | Flag name attached \<Rightarrow>
          (case kinds name of
             None \<Rightarrow> Inl (undefined_flag name)
           | Some BoolFlag \<Rightarrow>
               (case attached of
                  None \<Rightarrow> flag_parse kinds (vals(name \<mapsto> ''true'')) rest
                | Some v \<Rightarrow>
                    (case ParseBool v of
                       None \<Rightarrow> Inl (''invalid boolean value for -'' @ name)
                     | Some b \<Rightarrow> flag_parse kinds (vals(name \<mapsto> FormatBool b)) rest))
           | Some StringFlag \<Rightarrow>
               (case attached of
                  Some v \<Rightarrow> flag_parse kinds (vals(name \<mapsto> v)) rest
                | None \<Rightarrow>
                    (case rest of
                       [] \<Rightarrow> Inl (''flag needs an argument: -'' @ name)
                     | v # rest' \<Rightarrow> flag_parse kinds (vals(name \<mapsto> v)) rest'))))"

definition flag_string :: "flag_values \<Rightarrow> string \<Rightarrow> string \<Rightarrow> string" where
  "flag_string vals name default_value = (case vals name of None \<Rightarrow> default_value | Some v \<Rightarrow> v)"

definition flag_bool :: "flag_values \<Rightarrow> string \<Rightarrow> bool" where
  "flag_bool vals name \<longleftrightarrow> vals name = Some ''true''"

section \<open>Paths\<close>

definition IsAbs :: "string \<Rightarrow> bool" where
  "IsAbs p \<longleftrightarrow> prefix ''/'' p"

definition join_slash :: "string list \<Rightarrow> string" where
  "join_slash ps = (case ps of [] \<Rightarrow> [] | p # qs \<Rightarrow> p @ concat (map (\<lambda>q. CHR ''/'' # q) qs))"

text \<open>One component of \<open>filepath.Clean\<close>; \<open>acc\<close> holds the components so far, the last one first.\<close>

definition clean_step :: "bool \<Rightarrow> string \<Rightarrow> string list \<Rightarrow> string list" where
  "clean_step rooted c acc =
     (if c = [] \<or> c = ''.'' then acc
      else if c = ''..'' then
        (case acc of
           [] \<Rightarrow> (if rooted then [] else [''..''])
         | x # xs \<Rightarrow> (if x = ''..'' then ''..'' # acc else xs))
      else c # acc)"

definition Clean :: "string \<Rightarrow> string" where
  "Clean p =
     (let rooted = IsAbs p;
          comps = rev (fold (clean_step rooted) (Split p (CHR ''/'')) [])
      in if rooted then CHR ''/'' # join_slash comps
         else if comps = [] then ''.'' else join_slash comps)"

definition Join :: "string list \<Rightarrow> string" where
  "Join elems =
     (let used = filter (\<lambda>e. e \<noteq> []) elems in if used = [] then [] else Clean (join_slash used))"

definition Dir :: "string \<Rightarrow> string" where
  "Dir p = Clean (rev (dropWhile (\<lambda>c. c \<noteq> CHR ''/'') (rev p)))"

definition Abs :: "string option \<Rightarrow> string \<Rightarrow> string option" where
  "Abs cwd p =
     (if IsAbs p then Some (Clean p)
      else (case cwd of None \<Rightarrow> None | Some d \<Rightarrow> Some (Join [d, p])))"

lemma IsAbs_iff: "IsAbs p \<longleftrightarrow> (\<exists>q. p = CHR ''/'' # q)"
  by (auto simp: IsAbs_def prefix_def)

lemma IsAbs_Clean: "IsAbs p \<Longrightarrow> IsAbs (Clean p)"
  by (simp add: Clean_def Let_def) (simp add: IsAbs_def)

lemma IsAbs_Join: "IsAbs d \<Longrightarrow> IsAbs (Join [d, p])"
  by (auto simp: IsAbs_iff [of d] Join_def Let_def join_slash_def intro!: IsAbs_Clean)
    (simp_all add: IsAbs_def)

lemma dropWhile_snoc: "\<not> P y \<Longrightarrow> dropWhile P (xs @ [y]) = dropWhile P xs @ [y]"
  by (induction xs) simp_all

lemma IsAbs_Dir: "IsAbs p \<Longrightarrow> IsAbs (Dir p)"
  unfolding Dir_def
  by (rule IsAbs_Clean) (auto simp: IsAbs_iff dropWhile_snoc intro: exI [of _ "rev _"] rev_rev_ident [symmetric])

lemma IsAbs_Abs: "Abs cwd p = Some a \<Longrightarrow> pred_option IsAbs cwd \<Longrightarrow> IsAbs a"
  by (auto simp: Abs_def IsAbs_Clean IsAbs_Join split: if_splits option.splits)

end
