(* ===== verification/Update_Auth.thy ===== *)
theory Update_Auth
  imports Go_Flags
begin

text \<open>
  The check a release update passes before it is installed (internal/updateauth/verify.go): the
  command's flags, the embedded signing key, the signature over the checksum file, and the one
  line of that file. Reading a file, decoding PEM and PKIX, and the Ed25519 check itself are
  arguments.
\<close>

section \<open>Errors\<close>

datatype update_error =
    FlagError string
  | UnexpectedArguments "string list"
  | Required string
  | KeyError string
  | ReadFailed string string
  | SignatureLength nat
  | InvalidSignature
  | ChecksumError string
  | WrongAsset string string

section \<open>Flags\<close>

record verify_flags =
  vf_checksum :: string
  vf_signature :: string
  vf_asset :: string

definition verify_kinds :: "string \<rightharpoonup> flag_kind" where
  "verify_kinds = [''checksum'' \<mapsto> StringFlag, ''signature'' \<mapsto> StringFlag, ''asset'' \<mapsto> StringFlag]"

definition parse_flags :: "string list \<Rightarrow> update_error + (verify_flags \<times> string list)" where
  "parse_flags args =
     (case flag_parse verify_kinds Map.empty args of
        Inl err \<Rightarrow> Inl (FlagError err)
      | Inr (vals, rest) \<Rightarrow>
          Inr (\<lparr>vf_checksum = flag_string vals ''checksum'' [],
                vf_signature = flag_string vals ''signature'' [],
                vf_asset = flag_string vals ''asset'' []\<rparr>, rest))"

section \<open>The signing key\<close>

datatype public_key = Ed25519 string | OtherKey string

record pem_block =
  pem_type :: string
  pem_bytes :: string

record verifier =
  vr_read_file :: "string \<Rightarrow> string + string"
  vr_pem :: "string \<Rightarrow> pem_block option \<times> string"
  vr_pkix :: "string \<Rightarrow> string + public_key"
  vr_verify :: "string \<Rightarrow> string \<Rightarrow> string \<Rightarrow> bool"
  vr_embedded :: string

definition parseUpdateSigningPublicKey :: "verifier \<Rightarrow> update_error + string" where
  "parseUpdateSigningPublicKey v =
     (case vr_pem v (vr_embedded v) of
        (None, rest) \<Rightarrow> Inl (KeyError ''decode embedded update signing public key'')
      | (Some block, rest) \<Rightarrow>
          if TrimSpace rest \<noteq> [] then Inl (KeyError ''trailing data'')
          else if pem_type block \<noteq> ''PUBLIC KEY'' then Inl (KeyError ''PEM type'')
          else (case vr_pkix v (pem_bytes block) of
                  Inl err \<Rightarrow> Inl (KeyError err)
                | Inr (OtherKey kind) \<Rightarrow> Inl (KeyError kind)
                | Inr (Ed25519 key) \<Rightarrow>
                    if length key \<noteq> 32 then Inl (KeyError ''invalid Ed25519 public key length'')
                    else Inr key))"

section \<open>The checksum line\<close>

definition hexit :: "char \<Rightarrow> nat option" where
  "hexit c =
     (let n = (of_char c :: nat)
      in if 48 \<le> n \<and> n \<le> 57 then Some (n - 48)
         else if 97 \<le> n \<and> n \<le> 102 then Some (n - 87)
         else if 65 \<le> n \<and> n \<le> 70 then Some (n - 55) else None)"

text \<open>\<open>hex.DecodeString\<close>.\<close>

fun hex_decode :: "string \<Rightarrow> string option" where
  "hex_decode [] = Some []"
| "hex_decode [c] = None"
| "hex_decode (a # b # cs) =
     (case (hexit a, hexit b, hex_decode cs) of
        (Some x, Some y, Some ds) \<Rightarrow> Some (char_of (16 * x + y) # ds)
      | _ \<Rightarrow> None)"

definition parseSignedChecksum :: "string \<Rightarrow> update_error + (string \<times> string)" where
  "parseSignedChecksum data =
     (let content = TrimSpace data
      in if content = [] then Inl (ChecksumError ''signed checksum file is empty'')
         else let lines = Split content (CHR 0x0A)
              in if length lines \<noteq> 1 then
                   Inl (ChecksumError ''signed checksum file must contain exactly one line'')
                 else (case Fields (lines ! 0) of
                         [digest, name] \<Rightarrow>
                           let checksum = ToLower digest;
                               asset = TrimPrefix name ''*''
                           in (case hex_decode checksum of
                                 None \<Rightarrow> Inl (ChecksumError ''invalid SHA-256 digest'')
                               | Some decoded \<Rightarrow>
                                   if length decoded \<noteq> 32 then Inl (ChecksumError ''invalid SHA-256 digest'')
                                   else if asset = [] then Inl (ChecksumError ''empty asset filename'')
                                   else if ContainsAny asset [CHR ''/'', CHR 0x5C] then
                                     Inl (ChecksumError ''signed checksum asset must be a base filename'')
                                   else Inr (checksum, asset))
                       | _ \<Rightarrow> Inl (ChecksumError ''signed checksum line'')))"

section \<open>The command\<close>

definition VerifyUpdateChecksumCommand :: "verifier \<Rightarrow> string list \<Rightarrow> update_error + string" where
  "VerifyUpdateChecksumCommand v args =
     (case parse_flags args of
        Inl err \<Rightarrow> Inl err
      | Inr (fl, rest) \<Rightarrow>
          if rest \<noteq> [] then Inl (UnexpectedArguments rest)
          else if TrimSpace (vf_checksum fl) = [] then Inl (Required ''--checksum'')
          else if TrimSpace (vf_signature fl) = [] then Inl (Required ''--signature'')
          else if TrimSpace (vf_asset fl) = [] then Inl (Required ''--asset'')
          else (case parseUpdateSigningPublicKey v of
                  Inl err \<Rightarrow> Inl err
                | Inr publicKey \<Rightarrow>
          (case vr_read_file v (vf_checksum fl) of
             Inl err \<Rightarrow> Inl (ReadFailed ''checksum'' err)
           | Inr checksumBytes \<Rightarrow>
          (case vr_read_file v (vf_signature fl) of
             Inl err \<Rightarrow> Inl (ReadFailed ''signature'' err)
           | Inr signature \<Rightarrow>
               if length signature \<noteq> 64 then Inl (SignatureLength (length signature))
               else if \<not> vr_verify v publicKey checksumBytes signature then Inl InvalidSignature
               else (case parseSignedChecksum checksumBytes of
                       Inl err \<Rightarrow> Inl err
                     | Inr (checksum, asset) \<Rightarrow>
                         if asset \<noteq> vf_asset fl then Inl (WrongAsset asset (vf_asset fl))
                         else Inr checksum)))))"

section \<open>Facts\<close>

definition plain :: "char \<Rightarrow> bool" where
  "plain c \<longleftrightarrow> c \<notin> hd ` set space_runes \<and> c \<notin> last ` set space_runes"

lemma strip_one_plain: "plain c \<Longrightarrow> strip_one space_runes (c # cs) = None"
  by (rule strip_one_hd) (auto simp: plain_def)

lemma strip_one_blank [simp]: "strip_one space_runes (CHR '' '' # cs) = Some cs"
  by (simp add: space_runes_def)

lemma fields_from_word:
  "list_all plain w \<Longrightarrow> fields_from cur (w @ rest) = fields_from (rev w @ cur) rest"
  by (induction w arbitrary: cur) (simp_all add: strip_one_plain)

lemma Fields_two:
  assumes "list_all plain a" and "list_all plain b" and "a \<noteq> []" and "b \<noteq> []"
  shows "Fields (a @ ''  '' @ b) = [a, b]"
  using assms fields_from_word [of b "[]" "[]"]
  by (simp add: Fields_def fields_from_word)

lemma TrimSpace_line:
  assumes "trimmed s" and "s \<noteq> []" and "plain (hd s)"
  shows "TrimSpace (s @ [CHR 0x0A]) = s"
proof -
  from assms(2,3) obtain c cs where s: "s = c # cs" "plain c" by (cases s) auto
  have "TrimLeftSpace (s @ [CHR 0x0A]) = s @ [CHR 0x0A]"
    using s by (simp add: TrimLeftSpace_def trim_left_runes_None strip_one_plain)
  moreover have "strip_one (map rev space_runes) (CHR 0x0A # rev s) = Some (rev s)"
    by (simp add: space_runes_def)
  then have "TrimRightSpace (s @ [CHR 0x0A]) = s"
    using assms(1)
    by (simp add: TrimRightSpace_def trim_left_runes.simps [of _ "CHR 0x0A # rev s"]
        trim_left_runes_None trimmed_def)
  ultimately show ?thesis by (simp add: TrimSpace_def)
qed

lemma plainI: "33 \<le> (of_char c :: nat) \<Longrightarrow> (of_char c :: nat) \<le> 126 \<Longrightarrow> plain c"
  by (auto simp: plain_def space_runes_def)

lemma hexit_range:
  "hexit c \<noteq> None \<Longrightarrow> 48 \<le> (of_char c :: nat) \<and> (of_char c :: nat) \<le> 102"
  by (auto simp: hexit_def Let_def split: if_splits)

lemma hexit_plain: "hexit c \<noteq> None \<Longrightarrow> plain c"
  using hexit_range [of c] by (auto intro: plainI)

lemma hexit_lower: "hexit (ascii_lower c) = hexit c"
  by (cases "65 \<le> (of_char c :: nat) \<and> (of_char c :: nat) \<le> 90")
    (auto simp: hexit_def of_char_ascii_lower Let_def ascii_lower_def [of c])

lemma hex_decode_Some: "hex_decode s = Some d \<Longrightarrow> length s = 2 * length d \<and> list_all (\<lambda>c. hexit c \<noteq> None) s"
  by (induction s arbitrary: d rule: hex_decode.induct) (auto split: option.splits)

lemma hex_decode_total:
  "even (length s) \<Longrightarrow> list_all (\<lambda>c. hexit c \<noteq> None) s \<Longrightarrow> \<exists>d. hex_decode s = Some d"
  by (induction s rule: hex_decode.induct) auto

definition sha256_text :: "string \<Rightarrow> bool" where
  "sha256_text s \<longleftrightarrow> length s = 64 \<and> list_all (\<lambda>c. hexit c \<noteq> None) s"

lemma hex_decode_digest:
  assumes "sha256_text s"
  obtains d where "hex_decode (ToLower s) = Some d" "length d = 32"
proof -
  have "list_all (\<lambda>c. hexit c \<noteq> None) (ToLower s)"
    using assms by (simp add: sha256_text_def ToLower_def list_all_iff hexit_lower)
  with assms hex_decode_total [of "ToLower s"] obtain d where "hex_decode (ToLower s) = Some d"
    by (auto simp: sha256_text_def)
  with hex_decode_Some [OF this] assms that show thesis by (simp add: sha256_text_def)
qed

definition base_name :: "string \<Rightarrow> bool" where
  "base_name s \<longleftrightarrow> s \<noteq> [] \<and> CHR ''/'' \<notin> set s \<and> CHR 0x5C \<notin> set s"

lemma parseSignedChecksum_Inr:
  assumes "parseSignedChecksum data = Inr (checksum, asset)"
  shows "sha256_text checksum \<and> ToLower checksum = checksum \<and> base_name asset
    \<and> CHR 0x0A \<notin> set (TrimSpace data)
    \<and> (\<exists>digest name. Fields (TrimSpace data) = [digest, name]
        \<and> checksum = ToLower digest \<and> asset = TrimPrefix name ''*'')"
proof -
  have lines: "length (Split (TrimSpace data) (CHR 0x0A)) = 1"
    using assms by (simp add: parseSignedChecksum_def Let_def split: if_splits)
  then have one: "CHR 0x0A \<notin> set (TrimSpace data)" by (simp only: Split_single_iff not_False_eq_True)
  from assms lines obtain digest name where "Fields (TrimSpace data) = [digest, name]"
    and found: "checksum = ToLower digest" "asset = TrimPrefix name ''*''"
    and d: "\<exists>d. hex_decode checksum = Some d \<and> length d = 32" and "asset \<noteq> []"
    and "\<not> ContainsAny asset [CHR ''/'', CHR 0x5C]"
    by (auto simp: parseSignedChecksum_def Let_def Split_no_sep [OF one]
        split: if_splits list.splits option.splits)
  moreover from d have "sha256_text checksum"
    using hex_decode_Some by (fastforce simp: sha256_text_def)
  ultimately show ?thesis
    using one by (auto simp: base_name_def ContainsAny_def list_ex_iff)
qed

lemma Split_one_line: "CHR 0x0A \<notin> set s \<Longrightarrow> Split s (CHR 0x0A) = [s]"
  by (rule Split_no_sep)

lemma parseSignedChecksum_line:
  assumes "sha256_text digest" and "base_name asset" and "list_all plain asset" and "hd asset \<noteq> CHR ''*''"
  shows "parseSignedChecksum (digest @ ''  '' @ asset @ [CHR 0x0A]) = Inr (ToLower digest, asset)"
proof -
  let ?s = "digest @ ''  '' @ asset"
  have digest: "digest \<noteq> []" "list_all plain digest"
    using assms(1) by (auto simp: sha256_text_def list_all_iff hexit_plain)
  have asset: "asset \<noteq> []" using assms(2) by (simp add: base_name_def)
  have first: "plain (hd ?s)" "?s \<noteq> []" and final: "plain (last ?s)"
    using digest asset assms(3) by (simp_all add: list_all_iff)
  have "trimmed ?s" using first final by (intro trimmedI) (auto simp: plain_def)
  then have trim: "TrimSpace (digest @ ''  '' @ asset @ [CHR 0x0A]) = ?s"
    using TrimSpace_line [of ?s] first by simp
  have newline: "\<not> plain (CHR 0x0A)" by (simp add: plain_def space_runes_def)
  have "CHR 0x0A \<notin> set ?s"
    using digest(2) assms(3) newline by (auto simp: list_all_iff)
  then have lines: "Split ?s (CHR 0x0A) = [?s]" by (rule Split_one_line)
  have star: "TrimPrefix asset ''*'' = asset"
    using assms(4) asset by (cases asset) (auto simp: TrimPrefix_def)
  obtain d where "hex_decode (ToLower digest) = Some d" "length d = 32"
    using assms(1) by (rule hex_decode_digest)
  then show ?thesis
    unfolding parseSignedChecksum_def trim Let_def lines
    using first(2) Fields_two [OF digest(2) assms(3) digest(1) asset] assms(2) star asset
    by (auto simp: base_name_def ContainsAny_def list_ex_iff simp del: ToLower_Nil)
qed

section \<open>Properties\<close>

text \<open>
  C9. An update is approved only when it is signed: if the command accepts, the checksum file it
  read carries a valid signature of 64 bytes under the embedded key, over exactly the bytes that
  were then parsed; that file is one line naming exactly the requested asset, a base file name,
  and the text returned is the 64 lower-case hexadecimal digits of that line.
\<close>

theorem approved_update_is_signed:
  assumes "VerifyUpdateChecksumCommand v args = Inr checksum"
  shows "\<exists>fl key bytes signature digest name.
     parse_flags args = Inr (fl, [])
     \<and> parseUpdateSigningPublicKey v = Inr key
     \<and> vr_read_file v (vf_checksum fl) = Inr bytes \<and> vr_read_file v (vf_signature fl) = Inr signature
     \<and> length signature = 64 \<and> vr_verify v key bytes signature
     \<and> CHR 0x0A \<notin> set (TrimSpace bytes) \<and> Fields (TrimSpace bytes) = [digest, name]
     \<and> TrimPrefix name ''*'' = vf_asset fl \<and> base_name (vf_asset fl)
     \<and> checksum = ToLower digest \<and> sha256_text checksum"
proof -
  from assms obtain fl key bytes signature asset where
    "parse_flags args = Inr (fl, [])"
    "parseUpdateSigningPublicKey v = Inr key"
    "vr_read_file v (vf_checksum fl) = Inr bytes" "vr_read_file v (vf_signature fl) = Inr signature"
    "length signature = 64" "vr_verify v key bytes signature"
    and parsed: "parseSignedChecksum bytes = Inr (checksum, asset)" "asset = vf_asset fl"
    by (auto simp: VerifyUpdateChecksumCommand_def split: sum.splits prod.splits if_splits)
  with parseSignedChecksum_Inr [OF parsed(1)] show ?thesis by auto
qed

definition release_digest :: string where
  "release_digest = replicate 64 (CHR ''A'')"

definition release_asset :: string where "release_asset = ''gateway.tar.gz''"

definition test_verifier :: verifier where
  "test_verifier = \<lparr>
     vr_read_file = (\<lambda>p. if p = ''sum'' then Inr (release_digest @ ''  '' @ release_asset @ [CHR 0x0A])
        else if p = ''sig'' then Inr (replicate 64 (CHR ''s'')) else Inl ''no such file''),
     vr_pem = (\<lambda>p. (Some \<lparr>pem_type = ''PUBLIC KEY'', pem_bytes = p\<rparr>, [CHR 0x0A])),
     vr_pkix = (\<lambda>b. Inr (Ed25519 (replicate 32 (CHR ''k'')))),
     vr_verify = (\<lambda>k m s. s = replicate 64 (CHR ''s'')), vr_embedded = []\<rparr>"

definition release_args :: "string list" where
  "release_args = [''--checksum'', ''sum'', ''--signature=sig'', ''-asset'', release_asset]"

theorem approved_update_is_signed_witness:
  "\<exists>signature. vr_read_file test_verifier ''sig'' = Inr signature \<and> length signature = 64
     \<and> base_name release_asset \<and> sha256_text (ToLower release_digest)"
proof -
  have run: "VerifyUpdateChecksumCommand test_verifier release_args = Inr (ToLower release_digest)"
    by code_simp
  have flags: "parse_flags release_args
      = Inr (\<lparr>vf_checksum = ''sum'', vf_signature = ''sig'', vf_asset = release_asset\<rparr>, [])"
    by code_simp
  from approved_update_is_signed [OF run] flags show ?thesis by auto
qed

text \<open>
  C38. A properly released update is approved: for a checksum file as sha256sum writes it (digest
  in either case, two spaces, the asset's base name, a line end), signed under the embedded
  key, the command called with the three flags returns the digest in lower case.
\<close>

theorem signed_release_is_approved:
  assumes "sha256_text digest" and "base_name asset" and "list_all plain asset"
    and "hd asset \<noteq> CHR ''*''"
    and "TrimSpace sumPath \<noteq> []" and "TrimSpace sigPath \<noteq> []"
    and "parseUpdateSigningPublicKey v = Inr key"
    and "vr_read_file v sumPath = Inr (digest @ ''  '' @ asset @ [CHR 0x0A])"
    and "vr_read_file v sigPath = Inr signature" and "length signature = 64"
    and "vr_verify v key (digest @ ''  '' @ asset @ [CHR 0x0A]) signature"
  shows "VerifyUpdateChecksumCommand v
     [''--checksum'', sumPath, ''--signature'', sigPath, ''--asset'', asset] = Inr (ToLower digest)"
proof -
  have "trimmed asset"
    using assms(2,3) by (intro trimmedI) (auto simp: base_name_def list_all_iff plain_def)
  then have "TrimSpace asset \<noteq> []" using assms(2) by (simp add: TrimSpace_trimmed base_name_def)
  with assms parseSignedChecksum_line [OF assms(1-4)] show ?thesis
    by (simp add: VerifyUpdateChecksumCommand_def parse_flags_def read_flag_def verify_kinds_def flag_string_def)
qed

theorem signed_release_is_approved_witness:
  "VerifyUpdateChecksumCommand test_verifier
     [''--checksum'', ''sum'', ''--signature'', ''sig'', ''--asset'', release_asset]
   = Inr (ToLower release_digest)"
proof (rule signed_release_is_approved)
  show "sha256_text release_digest" by code_simp
  show "base_name release_asset" by code_simp
  show "list_all plain release_asset"
    unfolding release_asset_def by (simp add: plainI)
  show "hd release_asset \<noteq> CHR ''*''" by code_simp
  show "TrimSpace ''sum'' \<noteq> []" by code_simp
  show "TrimSpace ''sig'' \<noteq> []" by code_simp
  show "parseUpdateSigningPublicKey test_verifier = Inr (replicate 32 (CHR ''k''))" by code_simp
qed (simp_all add: test_verifier_def)

end
