(* ===== verification/Log_Archive.thy ===== *)
theory Log_Archive
  imports Gateway_Prelude "HOL-Library.Multiset" "HOL-Library.Char_ord" "HOL-Library.List_Lexorder" "HOL-Library.Product_Lexorder"
begin

text \<open>
  The rotating log archive (internal/applog/store.go): one directory of files, the one being
  written, rotation by day and by size, and the removal of old files. The directory is a list of
  files; what the operating system does in a call (time, refusals, short writes) is an argument
  of each operation. What Sync and Chmod do has no effect on this state, but their failures do;
  the warnings on stderr are not modelled.
\<close>

section \<open>Options\<close>

record log_options =
  MaxAge :: int
  PreferredMinAge :: int
  MaxFileBytes :: int
  MaxTotalBytes :: int
  MaxRecordBytes :: int
  CleanupEveryBytes :: int

definition DefaultOptions :: log_options where
  "DefaultOptions = \<lparr>MaxAge = 30 * 24 * 3600 * 1000000000, PreferredMinAge = 14 * 24 * 3600 * 1000000000,
     MaxFileBytes = 64 * 1048576, MaxTotalBytes = 1073741824, MaxRecordBytes = 1048576,
     CleanupEveryBytes = 8 * 1048576\<rparr>"

definition application_log :: "string \<Rightarrow> string" where
  "application_log msg = ''application log '' @ msg"

definition validateOptions :: "log_options \<Rightarrow> string option" where
  "validateOptions opts =
     (if MaxAge opts \<le> 0 then Some (application_log ''MaxAge must be greater than zero'')
      else if PreferredMinAge opts < 0 then Some (application_log ''PreferredMinAge cannot be negative'')
      else if PreferredMinAge opts > MaxAge opts then Some (application_log ''PreferredMinAge cannot exceed MaxAge'')
      else if MaxFileBytes opts \<le> 0 then Some (application_log ''MaxFileBytes must be greater than zero'')
      else if MaxTotalBytes opts \<le> 0 then Some (application_log ''MaxTotalBytes must be greater than zero'')
      else if MaxFileBytes opts > MaxTotalBytes opts then Some (application_log ''MaxFileBytes cannot exceed MaxTotalBytes'')
      else if MaxRecordBytes opts \<le> 0 then Some (application_log ''MaxRecordBytes must be greater than zero'')
      else if MaxRecordBytes opts > MaxFileBytes opts then Some (application_log ''MaxRecordBytes cannot exceed MaxFileBytes'')
      else if CleanupEveryBytes opts \<le> 0 then Some (application_log ''CleanupEveryBytes must be greater than zero'')
      else None)"

section \<open>The directory and the store\<close>

record log_file =
  lf_name :: string
  lf_content :: string
  lf_modTime :: int
  lf_isDir :: bool

definition lf_size :: "log_file \<Rightarrow> int" where
  "lf_size f = int (length (lf_content f))"

type_synonym directory = "log_file list"

definition has_file :: "directory \<Rightarrow> string \<Rightarrow> bool" where
  "has_file dir name \<longleftrightarrow> list_ex (\<lambda>f. lf_name f = name) dir"

definition remove_file :: "string \<Rightarrow> directory \<Rightarrow> directory" where
  "remove_file name dir = filter (\<lambda>f. lf_name f \<noteq> name) dir"

definition append_file :: "string \<Rightarrow> string \<Rightarrow> int \<Rightarrow> directory \<Rightarrow> directory" where
  "append_file name data now dir =
     map (\<lambda>f. if lf_name f = name then f\<lparr>lf_content := lf_content f @ data, lf_modTime := now\<rparr> else f) dir"

text \<open>
  What the system answers during one call: the clock, the texts of time stamp and process id,
  whether it knows the working directory, makes the log directory and sets its permissions, the
  names it refuses to create, how many bytes it takes before an error, whether flushing and closing
  the current file fail, whether listing fails, and which files it refuses to remove.
\<close>

record os_call =
  os_now :: int
  os_stamp :: string
  os_pid :: int
  os_no_cwd :: bool
  os_no_mkdir :: bool
  os_no_chmod :: bool
  os_no_create :: "string \<Rightarrow> bool"
  os_short_write :: "nat option"
  os_sync_fails :: bool
  os_close_fails :: bool
  os_list_fails :: bool
  os_no_remove :: "string \<Rightarrow> bool"

record log_store =
  ls_opts :: log_options
  ls_dir :: directory
  ls_file :: bool
  ls_currentName :: string
  ls_currentDay :: int
  ls_currentSize :: int
  ls_bytesSinceGC :: int
  ls_fileSequence :: nat
  ls_closed :: bool
  ls_writeDisabled :: bool

section \<open>Records\<close>

definition truncationMarker :: string where
  "truncationMarker = [CHR 0x0A] @ ''[application log record truncated]'' @ [CHR 0x0A]"

definition truncateRecord :: "string \<Rightarrow> int \<Rightarrow> string" where
  "truncateRecord p maxBytes =
     (if int (length p) \<le> maxBytes then p
      else if maxBytes \<le> int (length truncationMarker) then take (nat maxBytes) truncationMarker
      else take (nat maxBytes - length truncationMarker) p @ truncationMarker)"

section \<open>Rotation\<close>

text \<open>The UTC day of a time in nanoseconds, for \<open>Format("2006-01-02")\<close>.\<close>

definition utc_day :: "int \<Rightarrow> int" where
  "utc_day now = now div (24 * 3600 * 1000000000)"

definition pad6 :: "nat \<Rightarrow> string" where
  "pad6 n = replicate (6 - length (nat_text n)) (CHR ''0'') @ nat_text n"

definition log_name :: "os_call \<Rightarrow> nat \<Rightarrow> string" where
  "log_name os k = ''log-'' @ os_stamp os @ ''-'' @ Itoa (os_pid os) @ ''-'' @ pad6 k @ ''.log''"

fun createLogFileLocked ::
  "nat \<Rightarrow> os_call \<Rightarrow> log_store \<Rightarrow> (string + string) \<times> log_store" where
  "createLogFileLocked 0 os s = (Inl ''could not allocate a unique application log filename'', s)"
| "createLogFileLocked (Suc attempts) os s =
     (let k = ls_fileSequence s + 1;
          s1 = s\<lparr>ls_fileSequence := k\<rparr>;
          name = log_name os k
      in if has_file (ls_dir s) name then createLogFileLocked attempts os s1
         else if os_no_create os name then (Inl ''open'', s1)
         else (Inr name,
               s1\<lparr>ls_dir := ls_dir s @ [\<lparr>lf_name = name, lf_content = [], lf_modTime = os_now os,
                               lf_isDir = False\<rparr>]\<rparr>))"

definition rotateLocked :: "os_call \<Rightarrow> log_store \<Rightarrow> string option \<times> log_store" where
  "rotateLocked os s =
     (case createLogFileLocked 1000 os s of
        (Inl err, s1) \<Rightarrow> (Some err, s1)
      | (Inr name, s1) \<Rightarrow>
          let s2 = s1\<lparr>ls_file := True, ls_currentName := name, ls_currentDay := utc_day (os_now os),
                      ls_currentSize := 0\<rparr>
          in if ls_file s1 \<and> os_close_fails os then (Some ''close rotated application log'', s2)
             else (None, s2))"

definition disableWritesLocked :: "log_store \<Rightarrow> log_store" where
  "disableWritesLocked s = s\<lparr>ls_writeDisabled := True, ls_file := False\<rparr>"

definition disableWrites :: "log_store \<Rightarrow> log_store" where
  "disableWrites s = (if ls_writeDisabled s \<or> ls_closed s then s else disableWritesLocked s)"

section \<open>Cleanup\<close>

definition isManagedLogName :: "string \<Rightarrow> bool" where
  "isManagedLogName name \<longleftrightarrow> prefix ''log-'' name \<and> suffix ''.log'' name"

definition age_key :: "log_file \<Rightarrow> int \<times> string" where
  "age_key f = (lf_modTime f, lf_name f)"

definition managed :: "log_file \<Rightarrow> bool" where
  "managed f \<longleftrightarrow> \<not> lf_isDir f \<and> isManagedLogName (lf_name f)"

definition listLogFiles :: "os_call \<Rightarrow> directory \<Rightarrow> (string + log_file list)" where
  "listLogFiles os dir =
     (if os_list_fails os then Inl ''read application log directory''
      else Inr (sort_key age_key (filter managed dir)))"

text \<open>The first loop: files past their maximal age go.\<close>

fun expire :: "os_call \<Rightarrow> int \<Rightarrow> string \<Rightarrow> log_file list \<Rightarrow> directory \<Rightarrow> string option \<times> directory" where
  "expire os cutoff current [] dir = (None, dir)"
| "expire os cutoff current (f # fs) dir =
     (if lf_name f = current \<or> \<not> lf_modTime f < cutoff then expire os cutoff current fs dir
      else if os_no_remove os (lf_name f) then (Some ''remove expired application log'', dir)
      else expire os cutoff current fs (remove_file (lf_name f) dir))"

text \<open>
  One pass of the second loop, over the files listed before it: removed are files before the
  preferred cut-off in the first pass, files after it in the second, as long as the total is too
  large.
\<close>

fun shrink ::
  "os_call \<Rightarrow> bool \<Rightarrow> int \<Rightarrow> int \<Rightarrow> string \<Rightarrow> log_file list \<Rightarrow> int \<times> string list \<times> directory
     \<Rightarrow> (int \<times> string list \<times> directory, string option \<times> directory) flow" where
  "shrink os preserveRecent cutoff limit current [] (bytes, removed, dir) = Continue (bytes, removed, dir)"
| "shrink os preserveRecent cutoff limit current (f # fs) (bytes, removed, dir) =
     (if bytes \<le> limit then Return (None, dir)
      else if lf_name f = current \<or> lf_name f \<in> set removed
              \<or> (preserveRecent \<and> \<not> lf_modTime f < cutoff)
              \<or> (\<not> preserveRecent \<and> lf_modTime f < cutoff)
        then shrink os preserveRecent cutoff limit current fs (bytes, removed, dir)
      else if os_no_remove os (lf_name f) then Return (Some ''remove oversized application log'', dir)
      else shrink os preserveRecent cutoff limit current fs
             (bytes - lf_size f, lf_name f # removed, remove_file (lf_name f) dir))"

definition cleanup_dir :: "os_call \<Rightarrow> log_options \<Rightarrow> string \<Rightarrow> directory \<Rightarrow> string option \<times> directory" where
  "cleanup_dir os opts current dir =
     (case listLogFiles os dir of
        Inl err \<Rightarrow> (Some err, dir)
      | Inr files \<Rightarrow>
     (case expire os (os_now os - MaxAge opts) current files dir of
        (Some err, dir1) \<Rightarrow> (Some err, dir1)
      | (None, dir1) \<Rightarrow>
     (case listLogFiles os dir1 of
        Inl err \<Rightarrow> (Some err, dir1)
      | Inr files1 \<Rightarrow>
          let total = sum_list (map lf_size files1);
              cutoff = os_now os - PreferredMinAge opts;
              limit = MaxTotalBytes opts
          in if total \<le> limit then (None, dir1)
             else (case shrink os True cutoff limit current files1 (total, [], dir1) of
                     Return r \<Rightarrow> r
                   | Continue (total1, removed, dir2) \<Rightarrow>
                  (case shrink os False cutoff limit current files1 (total1, removed, dir2) of
                     Return r \<Rightarrow> r
                   | Continue (total2, removed, dir3) \<Rightarrow>
                       if total2 > limit then (Some ''application logs remain above hard limit'', dir3)
                       else (None, dir3))))))"

definition cleanup :: "os_call \<Rightarrow> log_store \<Rightarrow> string option \<times> log_store" where
  "cleanup os s =
     (case cleanup_dir os (ls_opts s) (ls_currentName s) (ls_dir s) of
        (err, dir) \<Rightarrow> (err, s\<lparr>ls_dir := dir\<rparr>))"

section \<open>Operations\<close>

text \<open>\<open>Write\<close>, up to the release of its locks: whether it must clean up, and the new state.\<close>

definition write_locked :: "os_call \<Rightarrow> string \<Rightarrow> log_store \<Rightarrow> bool \<times> log_store" where
  "write_locked os p s =
     (let data = truncateRecord p (MaxRecordBytes (ls_opts s));
          day = utc_day (os_now os);
          needsRotation = (\<not> ls_file s \<or> ls_currentDay s \<noteq> day
            \<or> (ls_currentSize s > 0 \<and> ls_currentSize s + int (length data) > MaxFileBytes (ls_opts s)))
      in if ls_closed s \<or> ls_writeDisabled s then (False, s)
         else (case (if needsRotation then rotateLocked os s else (None, s)) of
                 (Some err, s1) \<Rightarrow> (False, disableWritesLocked s1)
               | (None, s1) \<Rightarrow>
                   (case os_short_write os of
                      Some k \<Rightarrow>
                        (False, disableWritesLocked
                          (s1\<lparr>ls_dir := append_file (ls_currentName s1) (take k data) (os_now os) (ls_dir s1)\<rparr>))
                    | None \<Rightarrow>
                        let gc = ls_bytesSinceGC s1 + int (length data);
                            needsCleanup = gc \<ge> CleanupEveryBytes (ls_opts s1)
                        in (needsCleanup,
                            s1\<lparr>ls_dir := append_file (ls_currentName s1) data (os_now os) (ls_dir s1),
                               ls_currentSize := ls_currentSize s1 + int (length data),
                               ls_bytesSinceGC := (if needsCleanup then 0 else gc)\<rparr>))))"

definition archive_Write :: "os_call \<Rightarrow> os_call \<Rightarrow> string \<Rightarrow> log_store \<Rightarrow> log_store" where
  "archive_Write os1 os2 p s =
     (case write_locked os1 p s of
        (needsCleanup, s1) \<Rightarrow>
          if needsCleanup then
            (case cleanup os2 s1 of (None, s2) \<Rightarrow> s2 | (Some err, s2) \<Rightarrow> disableWrites s2)
          else s1)"

definition archive_Open ::
  "os_call \<Rightarrow> os_call \<Rightarrow> string \<Rightarrow> log_options \<Rightarrow> directory \<Rightarrow> string + log_store" where
  "archive_Open os1 os2 path opts dir =
     (if TrimSpace path = [] then Inl ''application log directory is required''
      else (case validateOptions opts of
              Some err \<Rightarrow> Inl err
            | None \<Rightarrow>
                if \<not> prefix ''/'' (TrimSpace path) \<and> os_no_cwd os1
                  then Inl ''resolve application log directory''
                else if os_no_mkdir os1 then Inl ''create application log directory''
                else if os_no_chmod os1 then Inl ''set application log directory permissions''
                else let s = \<lparr>ls_opts = opts, ls_dir = dir, ls_file = False, ls_currentName = [],
                         ls_currentDay = 0, ls_currentSize = 0, ls_bytesSinceGC = 0,
                         ls_fileSequence = 0, ls_closed = False, ls_writeDisabled = False\<rparr>
                in (case cleanup os1 s of
                      (Some err, s1) \<Rightarrow> Inl (''prune application logs: '' @ err)
                    | (None, s1) \<Rightarrow>
                        (case rotateLocked os2 s1 of
                           (Some err, s2) \<Rightarrow> Inl (''create application log file: '' @ err)
                         | (None, s2) \<Rightarrow> Inr s2))))"

text \<open>\<open>errors.Join\<close> of two errors that may be nil.\<close>

definition errors_Join :: "string option \<Rightarrow> string option \<Rightarrow> string option" where
  "errors_Join a b =
     (case (a, b) of
        (None, _) \<Rightarrow> b
      | (Some x, None) \<Rightarrow> Some x
      | (Some x, Some y) \<Rightarrow> Some (x @ [CHR 0x0A] @ y))"

definition archive_Close :: "os_call \<Rightarrow> log_store \<Rightarrow> string option \<times> log_store" where
  "archive_Close os s =
     (if ls_closed s then (None, s)
      else if \<not> ls_file s then (None, s\<lparr>ls_closed := True\<rparr>)
      else (errors_Join (if os_sync_fails os then Some ''sync'' else None)
              (if os_close_fails os then Some ''close'' else None),
            s\<lparr>ls_closed := True, ls_file := False\<rparr>))"

section \<open>Export\<close>

text \<open>
  What else an export meets: how much of the header and of a file's heading the destination takes
  before it fails (\<open>None\<close>: all of it), whether the context has ended when a file's turn comes,
  whether the file cannot be opened or closed, and after how many bytes its copy stops, because a
  read or a write fails or the context ends. Files are told apart by name.
\<close>

record export_call =
  xc_header :: "nat option"
  xc_ctx_ended :: "string \<Rightarrow> bool"
  xc_heading :: "string \<Rightarrow> nat option"
  xc_no_open :: "string \<Rightarrow> bool"
  xc_copy :: "string \<Rightarrow> nat option"
  xc_no_close :: "string \<Rightarrow> bool"

text \<open>\<open>snapshots\<close>: the current file, when there is one, is flushed before the listing.\<close>

definition snapshots :: "os_call \<Rightarrow> log_store \<Rightarrow> string + log_file list" where
  "snapshots os s =
     (if ls_file s \<and> os_sync_fails os then Inl ''flush active application log''
      else listLogFiles os (ls_dir s))"

definition export_heading :: "log_file \<Rightarrow> string" where
  "export_heading f = [CHR 0x0A] @ ''# --- '' @ lf_name f @ '' ---'' @ [CHR 0x0A]"

text \<open>The pieces written, in order, and the error that ended it.\<close>

fun copy_files :: "export_call \<Rightarrow> log_file list \<Rightarrow> string option \<times> string list" where
  "copy_files xc [] = (None, [])"
| "copy_files xc (f # fs) =
     (if xc_ctx_ended xc (lf_name f) then (Some ''context ended'', [])
      else (case xc_heading xc (lf_name f) of
              Some k \<Rightarrow> (Some ''write'', [take k (export_heading f)])
            | None \<Rightarrow>
                if xc_no_open xc (lf_name f)
                then (Some (''open application log '' @ lf_name f), [export_heading f])
                else (case xc_copy xc (lf_name f) of
                        Some k \<Rightarrow> (Some (''export application log '' @ lf_name f),
                                    [export_heading f, take k (lf_content f)])
                      | None \<Rightarrow>
                          if xc_no_close xc (lf_name f)
                          then (Some (''close application log '' @ lf_name f),
                                [export_heading f, lf_content f])
                          else (case copy_files xc fs of
                                  (err, out) \<Rightarrow> (err, export_heading f # lf_content f # out)))))"

text \<open>\<open>stamp\<close> is the text of the time.\<close>

definition export_header :: "string \<Rightarrow> nat \<Rightarrow> string" where
  "export_header stamp n =
     ''# application log export generated_utc='' @ stamp @ '' files='' @ Itoa (int n) @ [CHR 0x0A]"

definition archive_Export ::
  "os_call \<Rightarrow> export_call \<Rightarrow> string \<Rightarrow> log_store \<Rightarrow> string option \<times> string list" where
  "archive_Export os xc stamp s =
     (case snapshots os s of
        Inl err \<Rightarrow> (Some err, [])
      | Inr files \<Rightarrow>
          (case xc_header xc of
             Some k \<Rightarrow> (Some ''write'', [take k (export_header stamp (length files))])
           | None \<Rightarrow>
               (case copy_files xc files of
                  (err, out) \<Rightarrow> (err, export_header stamp (length files) # out))))"

definition ExportFilename :: "string \<Rightarrow> string" where
  "ExportFilename stamp = ''logs-'' @ stamp @ ''.log''"

text \<open>
  An export that goes through is the whole archive, oldest file first; one that does not has
  written the beginning of it.
\<close>

definition whole_export :: "string \<Rightarrow> log_file list \<Rightarrow> string" where
  "whole_export stamp files =
     export_header stamp (length files) @ concat (map (\<lambda>f. export_heading f @ lf_content f) files)"

lemma copy_files_prefix:
  "copy_files xc files = (err, out) \<Longrightarrow>
     prefix (concat out) (concat (map (\<lambda>f. export_heading f @ lf_content f) files))
     \<and> (err = None \<longrightarrow> concat out = concat (map (\<lambda>f. export_heading f @ lf_content f) files))"
proof (induction files arbitrary: err out)
  case (Cons f fs)
  have start: "prefix (take k xs) (xs @ ys)" for k and xs ys :: string
    by (metis append.assoc append_take_drop_id prefixI)
  obtain err1 out1 where "copy_files xc fs = (err1, out1)" by fastforce
  with Cons start show ?case by (auto split: if_splits option.splits)
qed simp

lemma archive_Export_prefix:
  assumes "archive_Export os xc stamp s = (err, out)" and "snapshots os s = Inr files"
  shows "prefix (concat out) (whole_export stamp files) \<and> (err = None \<longrightarrow> concat out = whole_export stamp files)"
proof (cases "xc_header xc")
  case None
  obtain err1 out1 where "copy_files xc files = (err1, out1)" by fastforce
  with copy_files_prefix [OF this] assms None show ?thesis
    by (auto simp: archive_Export_def whole_export_def)
next
  case (Some k)
  have "prefix (take k xs) (xs @ ys)" for xs ys :: string
    by (metis append.assoc append_take_drop_id prefixI)
  with assms Some show ?thesis by (auto simp: archive_Export_def whole_export_def)
qed

section \<open>The two passes are one\<close>

text \<open>
  The reference: walk the files from the oldest on and remove each but the current one until the
  rest fits; \<open>K\<close> is what happens at the end of the list.
\<close>

fun oldest_first ::
  "os_call \<Rightarrow> int \<Rightarrow> string \<Rightarrow> (int \<Rightarrow> directory \<Rightarrow> string option \<times> directory) \<Rightarrow> log_file list
     \<Rightarrow> int \<Rightarrow> directory \<Rightarrow> string option \<times> directory" where
  "oldest_first os limit current K [] bytes dir = K bytes dir"
| "oldest_first os limit current K (f # fs) bytes dir =
     (if bytes \<le> limit then (None, dir)
      else if lf_name f = current then oldest_first os limit current K fs bytes dir
      else if os_no_remove os (lf_name f) then (Some ''remove oversized application log'', dir)
      else oldest_first os limit current K fs (bytes - lf_size f) (remove_file (lf_name f) dir))"

definition over_limit :: "int \<Rightarrow> int \<Rightarrow> directory \<Rightarrow> string option \<times> directory" where
  "over_limit limit bytes dir =
     (if bytes > limit then (Some ''application logs remain above hard limit'', dir) else (None, dir))"

lemma oldest_first_append:
  "oldest_first os limit current K (A @ B) bytes dir
     = oldest_first os limit current (\<lambda>b d. oldest_first os limit current K B b d) A bytes dir"
  by (induction A arbitrary: bytes dir) simp_all

lemma oldest_first_cong:
  "(\<And>b d. K b d = L b d) \<Longrightarrow> oldest_first os limit current K A bytes dir = oldest_first os limit current L A bytes dir"
  by (induction A arbitrary: bytes dir) simp_all

lemma shrink_Nil [simp]: "shrink os r cutoff limit current [] st = Continue st"
  by (cases st rule: prod_cases3) simp

lemma shrink_append:
  "shrink os r cutoff limit current (A @ B) st =
     (case shrink os r cutoff limit current A st of
        Return v \<Rightarrow> Return v | Continue st' \<Rightarrow> shrink os r cutoff limit current B st')"
proof (induction A arbitrary: st)
  case (Cons f A)
  obtain b R d where "st = (b, R, d)" by (metis prod_cases3)
  with Cons show ?case by simp
qed simp

lemma shrink_skips:
  assumes "\<forall>f \<in> set A. if r then \<not> lf_modTime f < cutoff else lf_modTime f < cutoff"
  shows "shrink os r cutoff limit current A (b, R, d) =
    (if A \<noteq> [] \<and> b \<le> limit then Return (None, d) else Continue (b, R, d))"
  using assms by (induction A) (auto split: if_splits)

lemma shrink_removes:
  assumes "\<forall>f \<in> set A. if r then lf_modTime f < cutoff else \<not> lf_modTime f < cutoff"
    and "distinct (map lf_name A)" and "lf_name ` set A \<inter> set R = {}"
    and "\<And>b R' d. set R' \<subseteq> lf_name ` set A \<union> set R \<Longrightarrow> L b R' d = K b d"
  shows "(case shrink os r cutoff limit current A (b, R, d) of
      Return v \<Rightarrow> v | Continue (b', R', d') \<Rightarrow> L b' R' d') = oldest_first os limit current K A b d"
  using assms
proof (induction A arbitrary: b R d)
  case Nil
  then show ?case by simp
next
  case (Cons f A)
  have later: "(case shrink os r cutoff limit current A (b, R', d) of
      Return v \<Rightarrow> v | Continue (b', R', d') \<Rightarrow> L b' R' d') = oldest_first os limit current K A b d"
    if "set R' \<subseteq> insert (lf_name f) (set R)" for b R' d
  proof (rule Cons.IH)
    show "\<forall>f \<in> set A. if r then lf_modTime f < cutoff else \<not> lf_modTime f < cutoff"
      "distinct (map lf_name A)" using Cons.prems(1,2) by simp_all
    have apart: "lf_name f \<notin> lf_name ` set A" "lf_name ` set A \<inter> set R = {}"
      using Cons.prems(2,3) by auto
    have "x \<notin> set R'" if x: "x \<in> lf_name ` set A" for x
    proof
      assume "x \<in> set R'"
      with \<open>set R' \<subseteq> insert (lf_name f) (set R)\<close> have "x = lf_name f \<or> x \<in> set R" by (rule subsetD [THEN insertE]) auto
      with x apart show False by (metis IntI empty_iff)
    qed
    then show "lf_name ` set A \<inter> set R' = {}" by (simp only: disjoint_iff) simp
    show "L b R'' d = K b d" if "set R'' \<subseteq> lf_name ` set A \<union> set R'" for b R'' d
      by (rule Cons.prems(4)) (use that \<open>set R' \<subseteq> insert (lf_name f) (set R)\<close> in auto)
  qed
  have stay: "(case shrink os r cutoff limit current A (b, R, d) of
      Return v \<Rightarrow> v | Continue (b', R', d') \<Rightarrow> L b' R' d') = oldest_first os limit current K A b d" for b d
    by (rule later) auto
  have go: "(case shrink os r cutoff limit current A (b, lf_name f # R, d) of
      Return v \<Rightarrow> v | Continue (b', R', d') \<Rightarrow> L b' R' d') = oldest_first os limit current K A b d" for b d
    by (rule later) auto
  have "lf_name f \<notin> set R" "if r then lf_modTime f < cutoff else \<not> lf_modTime f < cutoff"
    using Cons.prems(1,3) by auto
  with stay go show ?case by (auto split: if_splits)
qed

lemma sorted_split:
  assumes "sorted (map age_key files)"
  obtains A B where "files = A @ B" "\<forall>f \<in> set A. lf_modTime f < cutoff" "\<forall>f \<in> set B. \<not> lf_modTime f < cutoff"
proof
  let ?P = "\<lambda>f. lf_modTime f < cutoff"
  show "files = takeWhile ?P files @ dropWhile ?P files" by simp
  show "\<forall>f \<in> set (takeWhile ?P files). ?P f" by (auto dest: set_takeWhileD)
  show "\<forall>f \<in> set (dropWhile ?P files). \<not> ?P f"
    using assms
  proof (induction files)
    case (Cons a files)
    have le: "lf_modTime a \<le> lf_modTime f" if "f \<in> set files" for f
    proof -
      from Cons.prems that have "age_key a \<le> age_key f" by simp
      then show ?thesis by (simp add: age_key_def less_eq_prod_def) linarith
    qed
    show ?case
    proof (cases "?P a")
      case True
      from Cons.prems have "sorted (map age_key files)" by simp
      then have "\<forall>f \<in> set (dropWhile ?P files). \<not> ?P f" by (rule Cons.IH)
      moreover have "dropWhile ?P (a # files) = dropWhile ?P files" using True by simp
      ultimately show ?thesis by (simp only:)
    next
      case False
      have "\<not> ?P f" if "f \<in> set files" for f using le [OF that] False by linarith
      with False show ?thesis by simp
    qed
  qed simp
qed

lemma two_passes_are_one:
  assumes "sorted (map age_key files)" and "distinct (map lf_name files)" and "files \<noteq> []"
  shows "(case shrink os True cutoff limit current files (b, [], d) of
        Return v \<Rightarrow> v
      | Continue (b1, R1, d1) \<Rightarrow>
          (case shrink os False cutoff limit current files (b1, R1, d1) of
             Return v \<Rightarrow> v | Continue (b2, R2, d2) \<Rightarrow> over_limit limit b2 d2))
    = oldest_first os limit current (over_limit limit) files b d"
proof -
  obtain A B where AB: "files = A @ B" and old: "\<forall>f \<in> set A. lf_modTime f < cutoff"
    and young: "\<forall>f \<in> set B. \<not> lf_modTime f < cutoff"
    using sorted_split [OF assms(1)] by blast
  define second where "second b1 R1 d1 = (case shrink os False cutoff limit current (A @ B) (b1, R1, d1) of
      Return v \<Rightarrow> v | Continue (b2, R2, d2) \<Rightarrow> over_limit limit b2 d2)" for b1 R1 d1
  define L where "L b1 R1 d1 = (case shrink os True cutoff limit current B (b1, R1, d1) of
      Return v \<Rightarrow> v | Continue (b2, R2, d2) \<Rightarrow> second b2 R2 d2)" for b1 R1 d1
  let ?one = "oldest_first os limit current (over_limit limit)"
  have fits: "?one B b1 d1 = (None, d1)" if "b1 \<le> limit" for b1 d1
    using that by (cases B) (simp_all add: over_limit_def)
  have second: "second b1 R1 d1 = ?one B b1 d1" if "set R1 \<subseteq> lf_name ` set A" for b1 R1 d1
  proof -
    have "(case shrink os False cutoff limit current B (b1, R1, d1) of
        Return v \<Rightarrow> v | Continue (b2, R2, d2) \<Rightarrow> over_limit limit b2 d2) = ?one B b1 d1"
    proof (rule shrink_removes)
      show "lf_name ` set B \<inter> set R1 = {}" using assms(2) that by (auto simp: AB)
    qed (use young assms(2) in \<open>simp_all add: AB\<close>)
    then show ?thesis
      using old fits by (simp add: second_def shrink_append shrink_skips)
  qed
  have L: "L b1 R1 d1 = ?one B b1 d1" if "set R1 \<subseteq> lf_name ` set A" for b1 R1 d1
    using young fits second [OF that] by (simp add: L_def shrink_skips)
  have "(case shrink os True cutoff limit current A (b, [], d) of
      Return v \<Rightarrow> v | Continue (b1, R1, d1) \<Rightarrow> L b1 R1 d1) = oldest_first os limit current (?one B) A b d"
    by (rule shrink_removes) (use old assms(2) L in \<open>simp_all add: AB\<close>)
  moreover have "(case shrink os True cutoff limit current (A @ B) (b, [], d) of
      Return v \<Rightarrow> v | Continue (b1, R1, d1) \<Rightarrow> second b1 R1 d1)
    = (case shrink os True cutoff limit current A (b, [], d) of
      Return v \<Rightarrow> v | Continue (b1, R1, d1) \<Rightarrow> L b1 R1 d1)"
    by (simp add: shrink_append L_def split: flow.split prod.split)
  ultimately show ?thesis
    unfolding AB oldest_first_append second_def by (simp only:)
qed

section \<open>What a cleanup removes\<close>

definition managed_total :: "directory \<Rightarrow> int" where
  "managed_total dir = sum_list (map lf_size (filter managed dir))"

definition drop_files :: "string set \<Rightarrow> directory \<Rightarrow> directory" where
  "drop_files N dir = filter (\<lambda>f. lf_name f \<notin> N) dir"

lemma lf_size_nonneg [simp]: "0 \<le> lf_size f"
  by (simp add: lf_size_def)

lemma drop_files_empty [simp]: "drop_files {} dir = dir"
  by (simp add: drop_files_def)

lemma drop_files_remove: "drop_files N (remove_file n dir) = drop_files (insert n N) dir"
  by (simp add: drop_files_def remove_file_def conj_commute)

lemma drop_files_twice: "drop_files N (drop_files M dir) = drop_files (N \<union> M) dir"
  by (auto simp: drop_files_def intro: filter_cong)

lemma distinct_drop: "distinct (map lf_name dir) \<Longrightarrow> distinct (map lf_name (drop_files N dir))"
  by (simp add: drop_files_def distinct_map_filter)

lemma managed_total_drop: "managed_total (drop_files N dir) \<le> managed_total dir"
  by (induction dir) (auto simp: managed_total_def drop_files_def intro: add_increasing)

lemma remove_absent: "n \<notin> lf_name ` set dir \<Longrightarrow> remove_file n dir = dir"
  by (induction dir) (auto simp: remove_file_def)

lemma managed_total_remove:
  "distinct (map lf_name dir) \<Longrightarrow> f \<in> set dir \<Longrightarrow> managed f \<Longrightarrow>
   managed_total (remove_file (lf_name f) dir) = managed_total dir - lf_size f"
proof (induction dir)
  case (Cons a dir)
  show ?case
  proof (cases "a = f")
    case True
    with Cons.prems have "remove_file (lf_name f) dir = dir" by (intro remove_absent) auto
    then show ?thesis using True Cons.prems by (simp add: remove_file_def managed_total_def)
  next
    case False
    with Cons.prems have "f \<in> set dir" "lf_name a \<noteq> lf_name f" by auto
    with Cons show ?thesis by (simp add: remove_file_def managed_total_def)
  qed
qed simp

lemma expire_None:
  "expire os cutoff current files dir = (None, d) \<Longrightarrow>
   d = drop_files (lf_name ` {f \<in> set files. lf_name f \<noteq> current \<and> lf_modTime f < cutoff}) dir"
proof (induction files arbitrary: dir)
  case (Cons f files)
  have split: "lf_name ` {g \<in> set (f # files). lf_name g \<noteq> current \<and> lf_modTime g < cutoff}
      = (if lf_name f \<noteq> current \<and> lf_modTime f < cutoff then {lf_name f} else {})
        \<union> lf_name ` {g \<in> set files. lf_name g \<noteq> current \<and> lf_modTime g < cutoff}"
    by auto
  show ?case
    using Cons.prems Cons.IH [of dir] Cons.IH [of "remove_file (lf_name f) dir"]
    unfolding split by (auto simp: drop_files_remove split: if_splits)
qed simp

lemma expire_keeps:
  "\<exists>N. snd (expire os cutoff current files dir) = drop_files N dir
     \<and> N \<subseteq> lf_name ` set files - {current}"
proof (induction files arbitrary: dir)
  case Nil
  show ?case by (auto intro!: exI [of _ "{}"])
next
  case (Cons f files)
  obtain N where N: "snd (expire os cutoff current files dir) = drop_files N dir"
    "N \<subseteq> lf_name ` set files - {current}" using Cons by blast
  obtain M where M: "snd (expire os cutoff current files (remove_file (lf_name f) dir))
      = drop_files (insert (lf_name f) M) dir" "M \<subseteq> lf_name ` set files - {current}"
    using Cons [of "remove_file (lf_name f) dir"] by (auto simp: drop_files_remove)
  consider "lf_name f = current \<or> \<not> lf_modTime f < cutoff"
    | "lf_name f \<noteq> current" "lf_modTime f < cutoff" "os_no_remove os (lf_name f)"
    | "lf_name f \<noteq> current" "lf_modTime f < cutoff" "\<not> os_no_remove os (lf_name f)" by blast
  then show ?case
  proof cases
    case 1
    with N show ?thesis by (intro exI [of _ N]) auto
  next
    case 2
    then show ?thesis by (intro exI [of _ "{}"]) simp
  next
    case 3
    with M show ?thesis by (intro exI [of _ "insert (lf_name f) M"]) auto
  qed
qed

lemma oldest_first_keeps:
  "\<exists>N. snd (oldest_first os limit current (over_limit limit) files b dir) = drop_files N dir
     \<and> N \<subseteq> lf_name ` set files - {current}"
proof (induction files arbitrary: b dir)
  case Nil
  show ?case by (auto simp: over_limit_def intro!: exI [of _ "{}"])
next
  case (Cons f files)
  let ?run = "oldest_first os limit current (over_limit limit)"
  obtain N where N: "snd (?run files b dir) = drop_files N dir"
    "N \<subseteq> lf_name ` set files - {current}" using Cons by blast
  obtain M where M: "snd (?run files (b - lf_size f) (remove_file (lf_name f) dir))
      = drop_files (insert (lf_name f) M) dir" "M \<subseteq> lf_name ` set files - {current}"
    using Cons [of "b - lf_size f" "remove_file (lf_name f) dir"] by (auto simp: drop_files_remove)
  consider "b \<le> limit \<or> lf_name f \<noteq> current \<and> os_no_remove os (lf_name f)"
    | "\<not> b \<le> limit" "lf_name f = current"
    | "\<not> b \<le> limit" "lf_name f \<noteq> current" "\<not> os_no_remove os (lf_name f)" by blast
  then show ?case
  proof cases
    case 1
    then show ?thesis by (intro exI [of _ "{}"]) auto
  next
    case 2
    with N show ?thesis by (intro exI [of _ N]) auto
  next
    case 3
    with M show ?thesis by (intro exI [of _ "insert (lf_name f) M"]) auto
  qed
qed

lemma oldest_first_None:
  assumes "oldest_first os limit current (over_limit limit) files b d = (None, d')"
    and "distinct (map lf_name files)" and "distinct (map lf_name d)"
    and "set files \<subseteq> {f \<in> set d. managed f}" and "b = managed_total d"
  shows "\<exists>pre rest. files = pre @ rest \<and> d' = drop_files (lf_name ` set pre - {current}) d
    \<and> managed_total d' \<le> limit
    \<and> (lf_name ` set pre \<subseteq> {current}
       \<or> (\<exists>g \<in> set pre. lf_name g \<noteq> current \<and> limit < managed_total d' + lf_size g))"
  using assms
proof (induction files arbitrary: b d)
  case Nil
  then show ?case by (auto simp: over_limit_def split: if_splits intro!: exI [of _ "[]"])
next
  case (Cons f files)
  show ?case
  proof (cases "b \<le> limit")
    case True
    with Cons.prems show ?thesis by (intro exI [of _ "[]"] exI [of _ "f # files"]) simp
  next
    case over: False
    show ?thesis
    proof (cases "lf_name f = current")
      case True
      with over Cons.prems obtain pre rest where "files = pre @ rest"
        "d' = drop_files (lf_name ` set pre - {current}) d" "managed_total d' \<le> limit"
        "lf_name ` set pre \<subseteq> {current}
         \<or> (\<exists>g \<in> set pre. lf_name g \<noteq> current \<and> limit < managed_total d' + lf_size g)"
        using Cons.IH [of b d] by auto
      with True show ?thesis by (intro exI [of _ "f # pre"] exI [of _ rest]) auto
    next
      case False
      let ?d = "remove_file (lf_name f) d"
      from over False Cons.prems(1) have run:
        "oldest_first os limit current (over_limit limit) files (b - lf_size f) ?d = (None, d')"
        by (simp split: if_splits)
      have "distinct (map lf_name ?d)"
        using distinct_drop [OF Cons.prems(3), of "{lf_name f}"] by (simp add: drop_files_def remove_file_def)
      moreover have "set files \<subseteq> {f \<in> set ?d. managed f}"
        using Cons.prems(2,4) by (auto simp: remove_file_def image_iff)
      moreover have less: "b - lf_size f = managed_total ?d"
        using Cons.prems(3-5) by (simp add: managed_total_remove)
      ultimately obtain pre rest where IH: "files = pre @ rest"
        "d' = drop_files (lf_name ` set pre - {current}) ?d" "managed_total d' \<le> limit"
        "lf_name ` set pre \<subseteq> {current}
         \<or> (\<exists>g \<in> set pre. lf_name g \<noteq> current \<and> limit < managed_total d' + lf_size g)"
        using Cons.IH [OF run] Cons.prems(2) by auto
      have "insert (lf_name f) (lf_name ` set pre - {current}) = lf_name ` set (f # pre) - {current}"
        using False by auto
      then have d': "d' = drop_files (lf_name ` set (f # pre) - {current}) d"
        using IH(2) by (simp add: drop_files_remove)
      have "\<exists>g \<in> set (f # pre). lf_name g \<noteq> current \<and> limit < managed_total d' + lf_size g"
      proof (cases "lf_name ` set pre \<subseteq> {current}")
        case True
        then have "lf_name ` set pre - {current} = {}" by auto
        with IH(2) have "d' = ?d" by (simp only: drop_files_empty)
        with less over False show ?thesis by auto
      next
        case False2: False
        with IH(4) show ?thesis by auto
      qed
      with IH d' show ?thesis by (intro exI [of _ "f # pre"] exI [of _ rest]) simp
    qed
  qed
qed

lemma listLogFiles_Inr:
  assumes "listLogFiles os dir = Inr files"
  shows "set files = {f \<in> set dir. managed f}" and "sorted (map age_key files)"
    and "distinct (map lf_name dir) \<Longrightarrow> distinct (map lf_name files)"
    and "sum_list (map lf_size files) = managed_total dir"
proof -
  have files: "files = sort_key age_key (filter managed dir)"
    using assms by (simp add: listLogFiles_def split: if_splits)
  then show "set files = {f \<in> set dir. managed f}" "sorted (map age_key files)" by simp_all
  have perm: "mset files = mset (filter managed dir)" by (simp add: files)
  then have "mset (map lf_size files) = mset (map lf_size (filter managed dir))" by simp
  then show "sum_list (map lf_size files) = managed_total dir"
    unfolding managed_total_def by (metis sum_mset_sum_list)
  assume "distinct (map lf_name dir)"
  then have "distinct (map lf_name (filter managed dir))" by (simp add: distinct_map_filter)
  moreover have "mset (map lf_name files) = mset (map lf_name (filter managed dir))" using perm by simp
  ultimately show "distinct (map lf_name files)" by (metis mset_eq_imp_distinct_iff)
qed

text \<open>The whole cleanup as a reference: expired files go, then the oldest until the rest fits.\<close>

definition reference_cleanup ::
  "os_call \<Rightarrow> log_options \<Rightarrow> string \<Rightarrow> directory \<Rightarrow> string option \<times> directory" where
  "reference_cleanup os opts current dir =
     (if os_list_fails os then (Some ''read application log directory'', dir)
      else (case expire os (os_now os - MaxAge opts) current (sort_key age_key (filter managed dir)) dir of
              (Some err, dir1) \<Rightarrow> (Some err, dir1)
            | (None, dir1) \<Rightarrow>
                oldest_first os (MaxTotalBytes opts) current (over_limit (MaxTotalBytes opts))
                  (sort_key age_key (filter managed dir1)) (managed_total dir1) dir1))"

lemma expire_distinct:
  assumes "distinct (map lf_name dir)" and "expire os cutoff current files dir = (r, dir1)"
  shows "distinct (map lf_name dir1)"
  using expire_keeps [of os cutoff current files dir] assms by (auto simp: distinct_drop)

lemma cleanup_is_reference:
  assumes "distinct (map lf_name dir)" and "0 \<le> MaxTotalBytes opts"
  shows "cleanup_dir os opts current dir = reference_cleanup os opts current dir"
proof (cases "os_list_fails os")
  case True
  then show ?thesis by (simp add: cleanup_dir_def reference_cleanup_def listLogFiles_def)
next
  case listed: False
  obtain r dir1 where step: "expire os (os_now os - MaxAge opts) current
      (sort_key age_key (filter managed dir)) dir = (r, dir1)" by fastforce
  note distinct1 = expire_distinct [OF assms(1) step]
  define files1 where "files1 = sort_key age_key (filter managed dir1)"
  have list: "listLogFiles os dir1 = Inr files1" by (simp add: listLogFiles_def files1_def listed)
  let ?limit = "MaxTotalBytes opts"
  note facts = listLogFiles_Inr [OF list]
  show ?thesis
  proof (cases "managed_total dir1 \<le> ?limit")
    case True
    then have "oldest_first os ?limit current (over_limit ?limit) files1 (managed_total dir1) dir1 = (None, dir1)"
      by (cases files1) (simp_all add: over_limit_def)
    with True step list facts(4) show ?thesis
      by (simp add: cleanup_dir_def reference_cleanup_def listLogFiles_def listed Let_def files1_def
          split: option.split)
  next
    case over: False
    then have "files1 \<noteq> []" using facts(4) assms(2) by auto
    note one = two_passes_are_one [OF facts(2) facts(3) [OF distinct1] this,
        where os = os and cutoff = "os_now os - PreferredMinAge opts" and limit = ?limit
          and current = current and b = "managed_total dir1" and d = dir1, unfolded over_limit_def]
    have first: "listLogFiles os dir = Inr (sort_key age_key (filter managed dir))"
      by (simp add: listLogFiles_def listed)
    from over step one show ?thesis
      unfolding cleanup_dir_def reference_cleanup_def
      by (simp add: first list facts(4) listed Let_def files1_def [symmetric] over_limit_def [abs_def]
          split: option.split)
  qed
qed

text \<open>Whatever happens, a cleanup only takes managed files away, and never the current one.\<close>

lemma cleanup_keeps:
  assumes "distinct (map lf_name dir)" and "0 \<le> MaxTotalBytes opts"
  shows "\<exists>N. snd (cleanup_dir os opts current dir) = drop_files N dir
    \<and> N \<subseteq> lf_name ` {f \<in> set dir. managed f} - {current}"
proof (cases "os_list_fails os")
  case True
  then show ?thesis
    by (intro exI [of _ "{}"]) (simp add: cleanup_is_reference assms reference_cleanup_def)
next
  case listed: False
  obtain r dir1 where step: "expire os (os_now os - MaxAge opts) current
      (sort_key age_key (filter managed dir)) dir = (r, dir1)" by fastforce
  obtain N where N: "dir1 = drop_files N dir" "N \<subseteq> lf_name ` {f \<in> set dir. managed f} - {current}"
    using expire_keeps [of os "os_now os - MaxAge opts" current "sort_key age_key (filter managed dir)" dir]
      step by auto
  show ?thesis
  proof (cases r)
    case (Some err)
    with N step listed show ?thesis
      by (intro exI [of _ N]) (simp add: cleanup_is_reference assms reference_cleanup_def)
  next
    case None
    obtain M where M: "snd (oldest_first os (MaxTotalBytes opts) current (over_limit (MaxTotalBytes opts))
          (sort_key age_key (filter managed dir1)) (managed_total dir1) dir1) = drop_files M dir1"
      "M \<subseteq> lf_name ` set (sort_key age_key (filter managed dir1)) - {current}"
      using oldest_first_keeps by blast
    have "N \<union> M \<subseteq> lf_name ` {f \<in> set dir. managed f} - {current}"
      using N M(2) by (auto simp: drop_files_def)
    moreover have "snd (cleanup_dir os opts current dir) = drop_files (N \<union> M) dir"
      using None step listed M(1) N(1)
      by (simp add: cleanup_is_reference assms reference_cleanup_def drop_files_twice Un_commute)
    ultimately show ?thesis by blast
  qed
qed

lemma sorted_before:
  assumes "sorted (map age_key (pre @ rest))" and "distinct (map lf_name (pre @ rest))"
    and "g \<in> set pre" and "f \<in> set rest"
  shows "age_key g < age_key f"
proof -
  from assms have "age_key g \<le> age_key f" by (auto simp: sorted_append)
  moreover from assms have "lf_name g \<noteq> lf_name f" by (auto dest: image_eqI)
  then have "age_key g \<noteq> age_key f" by (simp add: age_key_def)
  ultimately show ?thesis by simp
qed

lemma older_key: "lf_modTime g < c \<Longrightarrow> \<not> lf_modTime f < c \<Longrightarrow> age_key g < age_key f"
  by (simp add: age_key_def less_prod_def)

lemma same_file: "distinct (map lf_name dir) \<Longrightarrow> f \<in> set dir \<Longrightarrow> g \<in> set dir \<Longrightarrow> lf_name f = lf_name g \<Longrightarrow> f = g"
  by (auto simp: distinct_map dest: inj_onD)

lemma cleanup_None:
  assumes distinct: "distinct (map lf_name dir)" and limit: "0 \<le> MaxTotalBytes opts"
    and run: "cleanup_dir os opts current dir = (None, dir')"
  obtains N where "dir' = drop_files N dir" "managed_total dir' \<le> MaxTotalBytes opts"
    "\<And>f. f \<in> set dir' \<Longrightarrow> managed f \<Longrightarrow> lf_name f \<noteq> current \<Longrightarrow> os_now os - MaxAge opts \<le> lf_modTime f"
    "\<And>f g. f \<in> set dir' \<Longrightarrow> managed f \<Longrightarrow> lf_name f \<noteq> current \<Longrightarrow> g \<in> set dir \<Longrightarrow>
       lf_name g \<in> N \<Longrightarrow> age_key g < age_key f"
    "\<And>g. g \<in> set dir \<Longrightarrow> lf_name g \<in> N \<Longrightarrow> managed g \<and> lf_name g \<noteq> current"
    "(\<forall>g \<in> set dir. lf_name g \<in> N \<longrightarrow> lf_modTime g < os_now os - MaxAge opts)
     \<or> (\<exists>g \<in> set dir. lf_name g \<in> N \<and> MaxTotalBytes opts < managed_total dir' + lf_size g)"
proof -
  let ?cutoff = "os_now os - MaxAge opts" and ?limit = "MaxTotalBytes opts"
  define files where "files = sort_key age_key (filter managed dir)"
  have files: "set files = {f \<in> set dir. managed f}" by (simp add: files_def)
  from run have listed: "\<not> os_list_fails os"
    by (auto simp: cleanup_is_reference [OF distinct limit] reference_cleanup_def split: if_splits)
  then obtain dir1 where step: "expire os ?cutoff current files dir = (None, dir1)"
    and rest: "oldest_first os ?limit current (over_limit ?limit)
      (sort_key age_key (filter managed dir1)) (managed_total dir1) dir1 = (None, dir')"
    using run by (auto simp: cleanup_is_reference [OF distinct limit] reference_cleanup_def files_def
        split: prod.splits option.splits)
  define E where "E = lf_name ` {f \<in> set files. lf_name f \<noteq> current \<and> lf_modTime f < ?cutoff}"
  have dir1: "dir1 = drop_files E dir" using expire_None [OF step] by (simp add: E_def)
  note distinct1 = expire_distinct [OF distinct step]
  define files1 where "files1 = sort_key age_key (filter managed dir1)"
  have list1: "listLogFiles os dir1 = Inr files1" by (simp add: listLogFiles_def listed files1_def)
  note facts = listLogFiles_Inr [OF list1]
  from oldest_first_None [OF rest [folded files1_def] facts(3) [OF distinct1] distinct1] facts(1)
  obtain pre later where files1: "files1 = pre @ later"
    and dir': "dir' = drop_files (lf_name ` set pre - {current}) dir1"
    and fits: "managed_total dir' \<le> ?limit"
    and needed: "lf_name ` set pre \<subseteq> {current}
      \<or> (\<exists>g \<in> set pre. lf_name g \<noteq> current \<and> ?limit < managed_total dir' + lf_size g)"
    by blast
  define N where "N = E \<union> (lf_name ` set pre - {current})"
  have in1: "f \<in> set dir \<and> managed f" if "f \<in> set pre" for f
    using that facts(1) files1 dir1 by (auto simp: drop_files_def)
  have kept: "f \<in> set later \<and> \<not> lf_modTime f < ?cutoff"
    if "f \<in> set dir'" "managed f" "lf_name f \<noteq> current" for f
  proof -
    from that dir' have "f \<in> set dir1" "f \<notin> set pre" by (auto simp: drop_files_def)
    with that facts(1) files1 have "f \<in> set later" by auto
    moreover from \<open>f \<in> set dir1\<close> dir1 have "f \<in> set dir" "lf_name f \<notin> E"
      by (auto simp: drop_files_def)
    with that files have "\<not> lf_modTime f < ?cutoff" by (auto simp: E_def)
    ultimately show ?thesis by simp
  qed
  have gone: "managed g \<and> lf_name g \<noteq> current \<and> (lf_modTime g < ?cutoff \<or> g \<in> set pre)"
    if "g \<in> set dir" "lf_name g \<in> N" for g
  proof -
    from that(2) obtain h where h: "lf_name h = lf_name g" "lf_name h \<noteq> current"
      "h \<in> set files \<and> lf_modTime h < ?cutoff \<or> h \<in> set pre"
      by (auto simp: N_def E_def)
    with in1 files have "h \<in> set dir" "managed h" by auto
    with same_file [OF distinct _ that(1)] h(1) have "h = g" by blast
    with h \<open>managed h\<close> show ?thesis by auto
  qed
  show thesis
  proof (rule that [of N])
    show "dir' = drop_files N dir" by (simp add: dir' dir1 drop_files_twice N_def Un_commute)
    show "managed_total dir' \<le> ?limit" by (rule fits)
    show "?cutoff \<le> lf_modTime f" if "f \<in> set dir'" "managed f" "lf_name f \<noteq> current" for f
      using kept [OF that] by simp
    show "age_key g < age_key f"
      if "f \<in> set dir'" "managed f" "lf_name f \<noteq> current" "g \<in> set dir" "lf_name g \<in> N" for f g
      using kept [OF that(1-3)] gone [OF that(4,5)] facts(2) facts(3) [OF distinct1]
      unfolding files1 by (auto intro: older_key sorted_before)
    show "managed g \<and> lf_name g \<noteq> current" if "g \<in> set dir" "lf_name g \<in> N" for g
      using gone [OF that] by simp
    show "(\<forall>g \<in> set dir. lf_name g \<in> N \<longrightarrow> lf_modTime g < ?cutoff)
      \<or> (\<exists>g \<in> set dir. lf_name g \<in> N \<and> ?limit < managed_total dir' + lf_size g)"
      using needed
    proof
      assume "lf_name ` set pre \<subseteq> {current}"
      with gone show ?thesis by blast
    next
      assume "\<exists>g \<in> set pre. lf_name g \<noteq> current \<and> ?limit < managed_total dir' + lf_size g"
      with in1 show ?thesis by (auto simp: N_def)
    qed
  qed
qed

lemma cleanup_keeps_the_limit:
  assumes "distinct (map lf_name dir)" and "0 \<le> MaxTotalBytes opts"
    and "fst (cleanup_dir os opts current dir) = None"
  shows "managed_total (snd (cleanup_dir os opts current dir)) \<le> MaxTotalBytes opts"
  by (rule cleanup_None [OF assms(1,2), of os current "snd (cleanup_dir os opts current dir)"])
    (use assms(3) in \<open>auto simp: prod_eq_iff\<close>)

section \<open>Properties\<close>

text \<open>
  C36. The cleanup keeps the newest logs: when it succeeds, the managed files fit the limit, the
  file being written and every foreign file are untouched, no expired file is left, each file that
  went is older than each that stayed, and if more than expired files went, then the last one
  that went no longer fitted.
\<close>

theorem cleanup_keeps_the_newest:
  assumes "distinct (map lf_name dir)" and "0 \<le> MaxTotalBytes opts"
    and "cleanup_dir os opts current dir = (None, dir')"
  shows "\<exists>gone. dir' = filter (\<lambda>f. f \<notin> gone) dir
    \<and> managed_total dir' \<le> MaxTotalBytes opts
    \<and> (\<forall>g \<in> gone. managed g \<and> lf_name g \<noteq> current)
    \<and> (\<forall>f \<in> set dir'. managed f \<and> lf_name f \<noteq> current \<longrightarrow>
        os_now os - MaxAge opts \<le> lf_modTime f \<and> (\<forall>g \<in> gone. age_key g < age_key f))
    \<and> ((\<forall>g \<in> gone. lf_modTime g < os_now os - MaxAge opts)
       \<or> (\<exists>g \<in> gone. MaxTotalBytes opts < managed_total dir' + lf_size g))"
proof -
  obtain N where dir': "dir' = drop_files N dir"
    and fits: "managed_total dir' \<le> MaxTotalBytes opts"
    and fresh: "\<And>f. f \<in> set dir' \<Longrightarrow> managed f \<Longrightarrow> lf_name f \<noteq> current \<Longrightarrow>
        os_now os - MaxAge opts \<le> lf_modTime f"
    and older: "\<And>f g. f \<in> set dir' \<Longrightarrow> managed f \<Longrightarrow> lf_name f \<noteq> current \<Longrightarrow> g \<in> set dir \<Longrightarrow>
        lf_name g \<in> N \<Longrightarrow> age_key g < age_key f"
    and own: "\<And>g. g \<in> set dir \<Longrightarrow> lf_name g \<in> N \<Longrightarrow> managed g \<and> lf_name g \<noteq> current"
    and needed: "(\<forall>g \<in> set dir. lf_name g \<in> N \<longrightarrow> lf_modTime g < os_now os - MaxAge opts)
      \<or> (\<exists>g \<in> set dir. lf_name g \<in> N \<and> MaxTotalBytes opts < managed_total dir' + lf_size g)"
    by (rule cleanup_None [OF assms]) (rule that, assumption+)
  show ?thesis
  proof (intro exI [of _ "{g \<in> set dir. lf_name g \<in> N}"] conjI)
    show "dir' = filter (\<lambda>f. f \<notin> {g \<in> set dir. lf_name g \<in> N}) dir"
      unfolding dir' drop_files_def by (rule filter_cong) auto
  qed (use fits fresh older own needed in blast)+
qed

definition day_ns :: int where "day_ns = 24 * 3600 * 1000000000"

definition old_log :: "string \<Rightarrow> int \<Rightarrow> nat \<Rightarrow> log_file" where
  "old_log name t n = \<lparr>lf_name = name, lf_content = replicate n (CHR ''x''), lf_modTime = t, lf_isDir = False\<rparr>"

definition busy_dir :: directory where
  "busy_dir = [old_log ''log-c.log'' 70 3, old_log ''log-a.log'' 10 3, old_log ''notes.txt'' 1 9,
     old_log ''log-b.log'' 60 3, old_log ''log-d.log'' 80 3]"

definition small_options :: log_options where
  "small_options = \<lparr>MaxAge = 80, PreferredMinAge = 20, MaxFileBytes = 4, MaxTotalBytes = 7,
     MaxRecordBytes = 4, CleanupEveryBytes = 4\<rparr>"

definition quiet_os :: os_call where
  "quiet_os = \<lparr>os_now = 100, os_stamp = ''t'', os_pid = 1, os_no_cwd = False,
     os_no_mkdir = False, os_no_chmod = False, os_no_create = (\<lambda>n. False),
     os_short_write = None, os_sync_fails = False, os_close_fails = False, os_list_fails = False, os_no_remove = (\<lambda>n. False)\<rparr>"

text \<open>One file is expired, one more has to go, and it is the oldest left.\<close>

lemma busy_cleanup:
  "cleanup_dir quiet_os small_options ''log-d.log'' busy_dir
     = (None, [old_log ''log-c.log'' 70 3, old_log ''notes.txt'' 1 9, old_log ''log-d.log'' 80 3])"
  by code_simp

theorem cleanup_keeps_the_newest_witness:
  "managed_total (snd (cleanup_dir quiet_os small_options ''log-d.log'' busy_dir)) \<le> 7"
proof -
  have "distinct (map lf_name busy_dir)" by (simp add: busy_dir_def old_log_def)
  moreover have "0 \<le> MaxTotalBytes small_options" by (simp add: small_options_def)
  ultimately show ?thesis
    using cleanup_keeps_the_newest [OF _ _ busy_cleanup] busy_cleanup by (auto simp: small_options_def)
qed

end
