(* ===== verification/Log_Bounds.thy ===== *)
theory Log_Bounds
  imports Log_Archive
begin

text \<open>
  What every sequence of writes leaves of the log archive: files within their size limit, the
  whole within its own, and the file being written always there with the size the store believes
  it has.
\<close>

section \<open>Records and names\<close>

lemma truncateRecord_length:
  "0 \<le> m \<Longrightarrow> int (length (truncateRecord p m)) \<le> m"
  by (auto simp: truncateRecord_def)

lemma truncateRecord_short: "int (length p) \<le> m \<Longrightarrow> truncateRecord p m = p"
  by (simp add: truncateRecord_def)

lemma log_name_managed: "isManagedLogName (log_name os k)"
proof -
  have "log_name os k = (''log-'' @ os_stamp os @ ''-'' @ Itoa (os_pid os) @ ''-'' @ pad6 k) @ ''.log''"
    by (simp add: log_name_def)
  then have "suffix ''.log'' (log_name os k)" by (metis suffixI)
  moreover have "prefix ''log-'' (log_name os k)" by (simp add: log_name_def)
  ultimately show ?thesis by (simp add: isManagedLogName_def)
qed

lemma has_file_iff: "has_file dir n \<longleftrightarrow> n \<in> lf_name ` set dir"
  by (auto simp: has_file_def list_ex_iff)

definition new_file :: "string \<Rightarrow> int \<Rightarrow> log_file" where
  "new_file name now = \<lparr>lf_name = name, lf_content = [], lf_modTime = now, lf_isDir = False\<rparr>"

definition created_or_failed :: "os_call \<Rightarrow> log_store \<Rightarrow> string + string \<Rightarrow> log_store \<Rightarrow> bool" where
  "created_or_failed os s res s1 \<longleftrightarrow>
     (\<exists>err k. res = Inl err \<and> s1 = s\<lparr>ls_fileSequence := k\<rparr>)
     \<or> (\<exists>name k. res = Inr name \<and> isManagedLogName name \<and> name \<notin> lf_name ` set (ls_dir s)
        \<and> s1 = s\<lparr>ls_fileSequence := k, ls_dir := ls_dir s @ [new_file name (os_now os)]\<rparr>)"

lemma created_or_failed_later:
  "created_or_failed os (s\<lparr>ls_fileSequence := j\<rparr>) res s1 \<Longrightarrow> created_or_failed os s res s1"
  unfolding created_or_failed_def by (elim disjE exE conjE) (simp, rule exI, rule refl)+

lemma createLogFileLocked_created_or_failed:
  "created_or_failed os s (fst (createLogFileLocked n os s)) (snd (createLogFileLocked n os s))"
proof (induction n arbitrary: s)
  case 0
  have "s = s\<lparr>ls_fileSequence := ls_fileSequence s\<rparr>" by simp
  then show ?case by (auto simp: created_or_failed_def intro!: exI [of _ "ls_fileSequence s"])
next
  case (Suc n)
  let ?name = "log_name os (ls_fileSequence s + 1)"
  have used: "created_or_failed os s (fst (createLogFileLocked n os (s\<lparr>ls_fileSequence := j\<rparr>)))
      (snd (createLogFileLocked n os (s\<lparr>ls_fileSequence := j\<rparr>)))" for j
    by (rule created_or_failed_later [OF Suc])
  show ?case
  proof (cases "has_file (ls_dir s) ?name")
    case True
    with used show ?thesis by (simp add: Let_def)
  next
    case False
    then show ?thesis
      by (simp add: created_or_failed_def Let_def log_name_managed has_file_iff new_file_def) blast
  qed
qed

lemma createLogFileLocked_result:
  assumes "createLogFileLocked n os s = (res, s1)"
  obtains (failed) err k where "res = Inl err" "s1 = s\<lparr>ls_fileSequence := k\<rparr>"
  | (created) name k where "res = Inr name" "isManagedLogName name" "name \<notin> lf_name ` set (ls_dir s)"
      "s1 = s\<lparr>ls_fileSequence := k, ls_dir := ls_dir s @ [new_file name (os_now os)]\<rparr>"
proof -
  have "created_or_failed os s res s1"
    using createLogFileLocked_created_or_failed [of os s n] assms by simp
  with failed created show thesis unfolding created_or_failed_def by (elim disjE exE conjE) metis+
qed

lemma append_file_names [simp]: "map lf_name (append_file n data now dir) = map lf_name dir"
  by (simp add: append_file_def)

lemma append_file_size:
  "f \<in> set (append_file n data now dir) \<Longrightarrow>
     \<exists>g \<in> set dir. lf_name f = lf_name g \<and> managed f = managed g
       \<and> lf_size f = lf_size g + (if lf_name g = n then int (length data) else 0)"
  by (auto simp: append_file_def managed_def lf_size_def)

lemma append_file_member:
  "g \<in> set dir \<Longrightarrow>
     \<exists>f \<in> set (append_file n data now dir). lf_name f = lf_name g \<and> managed f = managed g
       \<and> lf_size f = lf_size g + (if lf_name g = n then int (length data) else 0)"
  unfolding append_file_def
  by (rule bexI [of _ "if lf_name g = n then g\<lparr>lf_content := lf_content g @ data, lf_modTime := now\<rparr> else g"])
    (auto simp: managed_def lf_size_def)

lemma append_absent: "n \<notin> lf_name ` set dir \<Longrightarrow> append_file n data now dir = dir"
  by (induction dir) (auto simp: append_file_def)

lemma managed_total_append:
  "distinct (map lf_name dir) \<Longrightarrow> managed_total (append_file n data now dir) \<le> managed_total dir + int (length data)"
proof (induction dir)
  case Nil
  then show ?case by (simp add: append_file_def managed_total_def)
next
  case (Cons a dir)
  show ?case
  proof (cases "lf_name a = n")
    case True
    with Cons.prems have "append_file n data now dir = dir" by (intro append_absent) auto
    with True show ?thesis by (simp add: append_file_def managed_total_def managed_def lf_size_def)
  next
    case False
    with Cons show ?thesis by (simp add: append_file_def managed_total_def)
  qed
qed

section \<open>The invariant\<close>

definition files_ok :: "log_options \<Rightarrow> directory \<Rightarrow> bool" where
  "files_ok opts dir \<longleftrightarrow> distinct (map lf_name dir)
     \<and> list_all (\<lambda>f. managed f \<longrightarrow> lf_size f \<le> MaxFileBytes opts) dir"

definition current_ok :: "log_store \<Rightarrow> bool" where
  "current_ok s \<longleftrightarrow> (ls_file s \<longrightarrow>
     list_ex (\<lambda>f. lf_name f = ls_currentName s \<and> managed f \<and> lf_size f = ls_currentSize s) (ls_dir s))"

definition archive_base :: "log_store \<Rightarrow> bool" where
  "archive_base s \<longleftrightarrow> validateOptions (ls_opts s) = None \<and> files_ok (ls_opts s) (ls_dir s)
     \<and> current_ok s \<and> 0 \<le> ls_bytesSinceGC s
     \<and> managed_total (ls_dir s)
         \<le> MaxTotalBytes (ls_opts s) + CleanupEveryBytes (ls_opts s) + MaxRecordBytes (ls_opts s)"

definition archive_ok :: "log_store \<Rightarrow> bool" where
  "archive_ok s \<longleftrightarrow> archive_base s
     \<and> (ls_writeDisabled s \<or>
        (managed_total (ls_dir s) \<le> MaxTotalBytes (ls_opts s) + ls_bytesSinceGC s
         \<and> ls_bytesSinceGC s < CleanupEveryBytes (ls_opts s)))"

lemma options_valid:
  "validateOptions opts = None \<longleftrightarrow> 0 < MaxAge opts \<and> 0 \<le> PreferredMinAge opts
     \<and> PreferredMinAge opts \<le> MaxAge opts \<and> 0 < MaxFileBytes opts \<and> 0 < MaxTotalBytes opts
     \<and> MaxFileBytes opts \<le> MaxTotalBytes opts \<and> 0 < MaxRecordBytes opts
     \<and> MaxRecordBytes opts \<le> MaxFileBytes opts \<and> 0 < CleanupEveryBytes opts"
  by (auto simp: validateOptions_def)

text \<open>Rotation adds an empty file and makes it the current one, or adds nothing.\<close>

lemma rotateLocked_cases:
  assumes "rotateLocked os s = (err, s1)"
  obtains (none) e k where "err = Some e" "s1 = s\<lparr>ls_fileSequence := k\<rparr>"
  | (new) name k where "isManagedLogName name" "name \<notin> lf_name ` set (ls_dir s)"
      "s1 = s\<lparr>ls_fileSequence := k, ls_dir := ls_dir s @ [new_file name (os_now os)], ls_file := True,
         ls_currentName := name, ls_currentDay := utc_day (os_now os), ls_currentSize := 0\<rparr>"
proof -
  obtain res s0 where step: "createLogFileLocked 1000 os s = (res, s0)" by fastforce
  from step show thesis
  proof (cases rule: createLogFileLocked_result)
    case (failed e k)
    with assms step have "err = Some e" "s1 = s\<lparr>ls_fileSequence := k\<rparr>" by (auto simp: rotateLocked_def)
    then show ?thesis by (rule none)
  next
    case (created name k)
    with assms step new [of name k] show ?thesis
      by (auto simp: rotateLocked_def Let_def split: if_splits)
  qed
qed

lemma managed_total_new: "managed_total (dir @ [new_file name now]) = managed_total dir"
  by (simp add: managed_total_def new_file_def lf_size_def)

lemma new_file_fields [simp]:
  "lf_name (new_file n now) = n" "lf_size (new_file n now) = 0"
  "managed (new_file n now) = isManagedLogName n"
  by (simp_all add: new_file_def lf_size_def managed_def)

lemma files_ok_new:
  assumes "files_ok opts dir" and "name \<notin> lf_name ` set dir" and "validateOptions opts = None"
  shows "files_ok opts (dir @ [new_file name now])"
  using assms by (simp add: files_ok_def options_valid)

lemma rotate_keeps:
  assumes "rotateLocked os s = (err, s1)" and "files_ok (ls_opts s) (ls_dir s)" and "current_ok s"
    and "validateOptions (ls_opts s) = None"
  shows "files_ok (ls_opts s1) (ls_dir s1) \<and> current_ok s1
    \<and> managed_total (ls_dir s1) = managed_total (ls_dir s) \<and> ls_opts s1 = ls_opts s
    \<and> ls_bytesSinceGC s1 = ls_bytesSinceGC s \<and> ls_writeDisabled s1 = ls_writeDisabled s
    \<and> (err = None \<longrightarrow> ls_file s1 \<and> ls_currentSize s1 = 0)"
  using assms(1)
proof (cases rule: rotateLocked_cases)
  case (none e k)
  then show ?thesis using assms(2,3) by (simp add: current_ok_def)
next
  case (new name k)
  then show ?thesis
    using files_ok_new [OF assms(2) new(2) assms(4)]
    by (simp add: current_ok_def managed_total_new)
qed

text \<open>An append of no more than a record to the current file, with room for it.\<close>

lemma append_keeps:
  assumes "files_ok (ls_opts s) (ls_dir s)" and "current_ok s" and "ls_file s"
    and "ls_currentSize s + int (length data) \<le> MaxFileBytes (ls_opts s)"
  shows "files_ok (ls_opts s) (append_file (ls_currentName s) data now (ls_dir s))"
    and "list_ex (\<lambda>f. lf_name f = ls_currentName s \<and> managed f
        \<and> lf_size f = ls_currentSize s + int (length data)) (append_file (ls_currentName s) data now (ls_dir s))"
proof -
  let ?n = "ls_currentName s"
  from assms(2,3) obtain c where c: "c \<in> set (ls_dir s)" "lf_name c = ?n" "managed c"
    "lf_size c = ls_currentSize s"
    by (auto simp: current_ok_def list_ex_iff)
  have same: "g = c" if "g \<in> set (ls_dir s)" "lf_name g = ?n" for g
    using that c assms(1) same_file [of "ls_dir s" g c] by (simp add: files_ok_def)
  have "lf_size f \<le> MaxFileBytes (ls_opts s)"
    if f: "f \<in> set (append_file ?n data now (ls_dir s))" "managed f" for f
  proof -
    from append_file_size [OF f(1)] obtain g where g: "g \<in> set (ls_dir s)" "managed g"
      "lf_size f = lf_size g + (if lf_name g = ?n then int (length data) else 0)"
      using f(2) by auto
    show ?thesis
    proof (cases "lf_name g = ?n")
      case True
      with same [OF g(1)] g c assms(4) show ?thesis by simp
    next
      case False
      with g assms(1) show ?thesis by (auto simp: files_ok_def list_all_iff)
    qed
  qed
  then show "files_ok (ls_opts s) (append_file ?n data now (ls_dir s))"
    using assms(1) by (simp add: files_ok_def list_all_iff)
  from append_file_member [OF c(1), of ?n data now] c show
    "list_ex (\<lambda>f. lf_name f = ?n \<and> managed f \<and> lf_size f = ls_currentSize s + int (length data))
      (append_file ?n data now (ls_dir s))"
    by (auto simp: list_ex_iff)
qed

text \<open>The state in which a record is written: rotated if need be, with room for the record.\<close>

definition ready_for :: "string \<Rightarrow> log_store \<Rightarrow> bool" where
  "ready_for data s \<longleftrightarrow> files_ok (ls_opts s) (ls_dir s) \<and> current_ok s \<and> ls_file s
     \<and> int (length data) \<le> MaxRecordBytes (ls_opts s)
     \<and> ls_currentSize s + int (length data) \<le> MaxFileBytes (ls_opts s)"

definition prepared :: "os_call \<Rightarrow> string \<Rightarrow> log_store \<Rightarrow> string option \<times> log_store" where
  "prepared os data s =
     (if \<not> ls_file s \<or> ls_currentDay s \<noteq> utc_day (os_now os)
         \<or> (ls_currentSize s > 0 \<and> ls_currentSize s + int (length data) > MaxFileBytes (ls_opts s))
      then rotateLocked os s else (None, s))"

lemma prepared_keeps:
  assumes ok: "archive_base s" and step: "prepared os data s = (err, s1)"
    and size: "int (length data) \<le> MaxRecordBytes (ls_opts s)"
  shows "files_ok (ls_opts s1) (ls_dir s1) \<and> managed_total (ls_dir s1) = managed_total (ls_dir s)
    \<and> ls_opts s1 = ls_opts s \<and> ls_bytesSinceGC s1 = ls_bytesSinceGC s
    \<and> ls_writeDisabled s1 = ls_writeDisabled s \<and> (err = None \<longrightarrow> ready_for data s1)"
proof -
  from ok have files: "files_ok (ls_opts s) (ls_dir s)" "current_ok s" "validateOptions (ls_opts s) = None"
    by (simp_all add: archive_base_def)
  note room = files(3) [unfolded options_valid]
  show ?thesis
  proof (cases "prepared os data s = rotateLocked os s")
    case True
    with step rotate_keeps [OF _ files, of os err s1] room size show ?thesis
      by (auto simp: ready_for_def)
  next
    case False
    then have "err = None" "s1 = s" "ls_file s" "ls_currentSize s > 0 \<longrightarrow>
        ls_currentSize s + int (length data) \<le> MaxFileBytes (ls_opts s)"
      using step by (auto simp: prepared_def split: if_splits)
    with files room size show ?thesis
      by (cases "ls_currentSize s > 0") (auto simp: ready_for_def)
  qed
qed

lemma write_locked_prepared:
  "write_locked os p s =
     (let data = truncateRecord p (MaxRecordBytes (ls_opts s))
      in if ls_closed s \<or> ls_writeDisabled s then (False, s)
         else (case prepared os data s of
                 (Some err, s1) \<Rightarrow> (False, disableWritesLocked s1)
               | (None, s1) \<Rightarrow>
                   (case os_short_write os of
                      Some k \<Rightarrow>
                        (False, disableWritesLocked
                          (s1\<lparr>ls_dir := append_file (ls_currentName s1) (take k data) (os_now os) (ls_dir s1)\<rparr>))
                    | None \<Rightarrow>
                        let gc = ls_bytesSinceGC s1 + int (length data);
                            needsCleanup = gc \<ge> CleanupEveryBytes (ls_opts s1)
                        in (needsCleanup,
                            s1\<lparr>ls_dir := append_file (ls_currentName s1) data (os_now os) (ls_dir s1),
                               ls_currentSize := ls_currentSize s1 + int (length data),
                               ls_bytesSinceGC := (if needsCleanup then 0 else gc)\<rparr>))))"
  by (simp add: write_locked_def prepared_def Let_def cong: if_cong)

lemma write_locked_open:
  assumes "write_locked os p s = (gc, s1)" and gc
  shows "\<not> ls_closed s1 \<and> \<not> ls_writeDisabled s1"
proof -
  define data where "data = truncateRecord p (MaxRecordBytes (ls_opts s))"
  from assms have running: "\<not> ls_closed s" "\<not> ls_writeDisabled s" by (auto simp: write_locked_prepared)
  obtain err s0 where prep: "prepared os data s = (err, s0)" by fastforce
  have "ls_closed s0 = ls_closed s" "ls_writeDisabled s0 = ls_writeDisabled s"
  proof -
    have "ls_closed s0 = ls_closed s \<and> ls_writeDisabled s0 = ls_writeDisabled s"
      if "rotateLocked os s = (err, s0)"
      using that by (cases rule: rotateLocked_cases) simp_all
    with prep show "ls_closed s0 = ls_closed s" "ls_writeDisabled s0 = ls_writeDisabled s"
      by (auto simp: prepared_def split: if_splits)
  qed
  with assms running prep show ?thesis
    by (auto simp: write_locked_prepared data_def [symmetric] Let_def split: option.splits)
qed

lemma append_total:
  assumes "files_ok opts dir" and "managed_total dir \<le> b"
  shows "managed_total (append_file n data now dir) \<le> b + int (length data)"
  using managed_total_append [of dir n data now] assms by (simp add: files_ok_def)

lemma write_locked_keeps:
  assumes ok: "archive_ok s" and step: "write_locked os p s = (gc, s')"
  shows "archive_base s' \<and> ls_opts s' = ls_opts s \<and> (gc \<longrightarrow> ls_bytesSinceGC s' = 0) \<and> (\<not> gc \<longrightarrow> archive_ok s')"
proof -
  define data where "data = truncateRecord p (MaxRecordBytes (ls_opts s))"
  from ok have base: "archive_base s" by (simp add: archive_ok_def)
  then have valid: "validateOptions (ls_opts s) = None" by (simp add: archive_base_def)
  note room = valid [unfolded options_valid]
  have len: "int (length data) \<le> MaxRecordBytes (ls_opts s)"
    using room by (simp add: data_def truncateRecord_length)
  show ?thesis
  proof (cases "ls_closed s \<or> ls_writeDisabled s")
    case True
    with step ok base show ?thesis by (auto simp: write_locked_prepared)
  next
    case running: False
    obtain err s1 where prep: "prepared os data s = (err, s1)" by fastforce
    note kept = prepared_keeps [OF base prep len]
    have total: "managed_total (ls_dir s1) \<le> MaxTotalBytes (ls_opts s) + ls_bytesSinceGC s"
      "ls_bytesSinceGC s < CleanupEveryBytes (ls_opts s)" "0 \<le> ls_bytesSinceGC s"
      using ok running kept by (auto simp: archive_ok_def archive_base_def)
    show ?thesis
    proof (cases err)
      case (Some e)
      with step running prep kept total valid room show ?thesis
        by (auto simp: write_locked_prepared data_def [symmetric] disableWritesLocked_def archive_ok_def
            archive_base_def current_ok_def Let_def)
    next
      case None
      with kept have ready: "ready_for data s1" by simp
      show ?thesis
      proof (cases "os_short_write os")
        case (Some k)
        have "files_ok (ls_opts s1) (append_file (ls_currentName s1) (take k data) (os_now os) (ls_dir s1))"
          using ready by (intro append_keeps) (auto simp: ready_for_def)
        moreover have "managed_total (append_file (ls_currentName s1) (take k data) (os_now os) (ls_dir s1))
            \<le> MaxTotalBytes (ls_opts s) + ls_bytesSinceGC s + int (length (take k data))"
          using kept total(1) by (intro append_total) auto
        moreover have "int (length (take k data)) \<le> MaxRecordBytes (ls_opts s)" using len by simp
        ultimately show ?thesis
          using Some None step running prep kept total valid room
          by (auto simp: write_locked_prepared data_def [symmetric] disableWritesLocked_def archive_ok_def
              archive_base_def current_ok_def Let_def)
      next
        case full: None
        let ?dir = "append_file (ls_currentName s1) data (os_now os) (ls_dir s1)"
        have "files_ok (ls_opts s1) ?dir" and current: "list_ex (\<lambda>f. lf_name f = ls_currentName s1
            \<and> managed f \<and> lf_size f = ls_currentSize s1 + int (length data)) ?dir"
          using ready append_keeps [of s1 data "os_now os"] by (auto simp: ready_for_def)
        moreover have "managed_total ?dir \<le> MaxTotalBytes (ls_opts s) + ls_bytesSinceGC s + int (length data)"
          using kept total(1) by (intro append_total) auto
        ultimately show ?thesis
          using full None step running prep kept total valid room len
          by (auto simp: write_locked_prepared data_def [symmetric] archive_ok_def
              archive_base_def current_ok_def Let_def)
      qed
    qed
  qed
qed

section \<open>Every operation keeps it\<close>

lemma drop_keeps_base:
  assumes "archive_base s" and "N \<subseteq> lf_name ` {f \<in> set (ls_dir s). managed f} - {ls_currentName s}"
  shows "archive_base (s\<lparr>ls_dir := drop_files N (ls_dir s)\<rparr>)"
proof -
  have "files_ok (ls_opts s) (drop_files N (ls_dir s))"
    using assms(1) distinct_drop [of "ls_dir s" N]
    by (auto simp: archive_base_def files_ok_def drop_files_def list_all_iff)
  moreover have "current_ok (s\<lparr>ls_dir := drop_files N (ls_dir s)\<rparr>)"
    using assms by (auto simp: archive_base_def current_ok_def drop_files_def list_ex_iff)
  ultimately show ?thesis
    using assms(1) managed_total_drop [of N "ls_dir s"] by (simp add: archive_base_def)
qed

lemma cleanup_keeps_base:
  assumes "archive_base s" and "cleanup os s = (err, s')"
  shows "archive_base s' \<and> (err = None \<longrightarrow> managed_total (ls_dir s') \<le> MaxTotalBytes (ls_opts s'))
    \<and> ls_opts s' = ls_opts s \<and> ls_bytesSinceGC s' = ls_bytesSinceGC s"
proof -
  have valid: "distinct (map lf_name (ls_dir s))" "0 \<le> MaxTotalBytes (ls_opts s)"
    using assms(1) by (auto simp: archive_base_def files_ok_def options_valid)
  obtain dir where step: "cleanup_dir os (ls_opts s) (ls_currentName s) (ls_dir s) = (err, dir)"
    and s': "s' = s\<lparr>ls_dir := dir\<rparr>"
    using assms(2) by (auto simp: cleanup_def split: prod.splits)
  from cleanup_keeps [OF valid, of os "ls_currentName s"] step obtain N where
    "dir = drop_files N (ls_dir s)" "N \<subseteq> lf_name ` {f \<in> set (ls_dir s). managed f} - {ls_currentName s}"
    by auto
  with drop_keeps_base [OF assms(1)] s' have "archive_base s'" by simp
  moreover have "managed_total dir \<le> MaxTotalBytes (ls_opts s)" if "err = None"
    using cleanup_keeps_the_limit [OF valid, of os "ls_currentName s"] step that by simp
  ultimately show ?thesis by (simp add: s')
qed

lemma disabled_ok: "archive_base s \<Longrightarrow> archive_ok (disableWritesLocked s)"
  by (simp add: archive_ok_def archive_base_def current_ok_def disableWritesLocked_def)

lemma archive_Write_keeps: "archive_ok s \<Longrightarrow> archive_ok (archive_Write os1 os2 p s)"
proof -
  assume ok: "archive_ok s"
  obtain gc s1 where step: "write_locked os1 p s = (gc, s1)" by fastforce
  note kept = write_locked_keeps [OF ok step]
  show ?thesis
  proof (cases gc)
    case False
    with kept step show ?thesis by (simp add: archive_Write_def)
  next
    case True
    obtain err s2 where clean: "cleanup os2 s1 = (err, s2)" by fastforce
    with kept have base: "archive_base s2" and fits: "err = None \<longrightarrow>
        managed_total (ls_dir s2) \<le> MaxTotalBytes (ls_opts s2)" and "ls_bytesSinceGC s2 = 0"
      using cleanup_keeps_base [OF _ clean] True by auto
    have "archive_ok s2" if "err = None"
      using base fits that \<open>ls_bytesSinceGC s2 = 0\<close>
      by (auto simp: archive_ok_def archive_base_def options_valid)
    moreover have "archive_ok (disableWrites s2)" if "err \<noteq> None"
    proof (cases "ls_writeDisabled s2 \<or> ls_closed s2")
      case False
      then show ?thesis using disabled_ok [OF base] by (simp add: disableWrites_def)
    next
      case over: True
      have "ls_closed s2 = ls_closed s1" "ls_writeDisabled s2 = ls_writeDisabled s1"
        using clean by (auto simp: cleanup_def split: prod.splits)
      moreover have "\<not> ls_closed s1 \<and> \<not> ls_writeDisabled s1"
        using step True by (rule write_locked_open)
      ultimately show ?thesis using over by simp
    qed
    ultimately show ?thesis
      using step True clean by (auto simp: archive_Write_def split: option.split)
  qed
qed

lemma archive_Open_ok:
  assumes "archive_Open os1 os2 path opts dir = Inr s" and "distinct (map lf_name dir)"
    and "list_all (\<lambda>f. managed f \<longrightarrow> lf_size f \<le> MaxFileBytes opts) dir"
  shows "archive_ok s \<and> ls_opts s = opts"
proof -
  define s0 where "s0 = \<lparr>ls_opts = opts, ls_dir = dir, ls_file = False, ls_currentName = [],
    ls_currentDay = 0, ls_currentSize = 0, ls_bytesSinceGC = 0, ls_fileSequence = 0,
    ls_closed = False, ls_writeDisabled = False\<rparr>"
  from assms(1) obtain s1 where valid: "validateOptions opts = None" and clean: "cleanup os1 s0 = (None, s1)"
    and rotate: "rotateLocked os2 s1 = (None, s)"
    by (auto simp: archive_Open_def Let_def s0_def split: if_splits option.splits prod.splits)
  obtain dir1 where step: "cleanup_dir os1 opts [] dir = (None, dir1)" and s1: "s1 = s0\<lparr>ls_dir := dir1\<rparr>"
    using clean by (auto simp: cleanup_def s0_def split: prod.splits)
  have limit: "0 \<le> MaxTotalBytes opts" using valid by (simp add: options_valid)
  obtain N where dir1: "dir1 = drop_files N dir"
    using cleanup_keeps [OF assms(2) limit, of os1 "[]"] step by auto
  have "files_ok opts dir1"
    using assms(2,3) distinct_drop [OF assms(2), of N]
    by (auto simp: files_ok_def dir1 drop_files_def list_all_iff)
  moreover have "managed_total dir1 \<le> MaxTotalBytes opts"
    using cleanup_keeps_the_limit [OF assms(2) limit, of os1 "[]"] step by simp
  moreover have "current_ok s1" by (simp add: s1 s0_def current_ok_def)
  ultimately show ?thesis
    using rotate_keeps [OF rotate] valid
    by (auto simp: s1 s0_def archive_ok_def archive_base_def options_valid)
qed

definition write_all :: "(os_call \<times> os_call \<times> string) list \<Rightarrow> log_store \<Rightarrow> log_store" where
  "write_all ws s = fold (\<lambda>(os1, os2, p). archive_Write os1 os2 p) ws s"

lemma write_all_ok: "archive_ok s \<Longrightarrow> archive_ok (write_all ws s)"
  unfolding write_all_def by (induction ws arbitrary: s) (auto intro: archive_Write_keeps)

lemma cleanup_opts: "ls_opts (snd (cleanup os s)) = ls_opts s"
  by (simp add: cleanup_def split: prod.split)

lemma archive_Write_opts:
  assumes "archive_ok s"
  shows "ls_opts (archive_Write os1 os2 p s) = ls_opts s"
proof -
  obtain gc s1 where step: "write_locked os1 p s = (gc, s1)" by fastforce
  obtain err s2 where clean: "cleanup os2 s1 = (err, s2)" by fastforce
  have "ls_opts s1 = ls_opts s" using write_locked_keeps [OF assms step] by simp
  moreover have "ls_opts s2 = ls_opts s1" using cleanup_opts [of os2 s1] clean by simp
  ultimately show ?thesis
    using step clean
    by (simp add: archive_Write_def disableWrites_def disableWritesLocked_def split: option.split)
qed

lemma write_all_opts: "archive_ok s \<Longrightarrow> ls_opts (write_all ws s) = ls_opts s"
  unfolding write_all_def
  by (induction ws arbitrary: s) (auto simp: archive_Write_opts archive_Write_keeps)

section \<open>Properties\<close>

text \<open>
  C12. The archive stays within its disk budget: opened on a directory whose logs respect the file
  limit, then, after any number of writes on any days, with any failures of the system, no log
  file is larger than its limit, and all of them together are at most the total limit plus one
  cleanup interval plus one record; while writing is enabled the current file is there and has
  exactly the size the store counts.
\<close>

theorem log_archive_is_bounded:
  assumes "archive_Open os1 os2 path opts dir = Inr s0" and "distinct (map lf_name dir)"
    and "list_all (\<lambda>f. managed f \<longrightarrow> lf_size f \<le> MaxFileBytes opts) dir"
    and "write_all ws s0 = s"
  shows "managed_total (ls_dir s) \<le> MaxTotalBytes opts + CleanupEveryBytes opts + MaxRecordBytes opts
    \<and> list_all (\<lambda>f. managed f \<longrightarrow> lf_size f \<le> MaxFileBytes opts) (ls_dir s)
    \<and> (ls_file s \<longrightarrow> list_ex (\<lambda>f. lf_name f = ls_currentName s \<and> lf_size f = ls_currentSize s) (ls_dir s))"
proof -
  from archive_Open_ok [OF assms(1-3)] have "archive_ok s0" "ls_opts s0 = opts" by simp_all
  with write_all_ok write_all_opts assms(4) have "archive_ok s" "ls_opts s = opts" by auto
  then show ?thesis
    by (auto simp: archive_ok_def archive_base_def files_ok_def current_ok_def list_ex_iff)
qed

theorem log_archive_is_bounded_witness:
  "case archive_Open quiet_os quiet_os ''logs'' small_options busy_dir of
     Inl err \<Rightarrow> False
   | Inr s \<Rightarrow> managed_total (ls_dir (write_all [(quiet_os, quiet_os, ''abc''),
       (quiet_os, quiet_os, ''abcdefgh'')] s)) \<le> 15"
proof -
  have opened: "case archive_Open quiet_os quiet_os ''logs'' small_options busy_dir of
      Inl err \<Rightarrow> False | Inr s \<Rightarrow> True"
    by code_simp
  then obtain s where s: "archive_Open quiet_os quiet_os ''logs'' small_options busy_dir = Inr s"
    by (auto split: sum.splits)
  have "distinct (map lf_name busy_dir)"
    "list_all (\<lambda>f. managed f \<longrightarrow> lf_size f \<le> MaxFileBytes small_options) busy_dir"
    by code_simp+
  from log_archive_is_bounded [OF s this refl, of "[(quiet_os, quiet_os, ''abc''), (quiet_os, quiet_os, ''abcdefgh'')]"] s
  show ?thesis by (simp add: small_options_def)
qed

end

