(* ===== verification/Log_Queue.thy ===== *)
theory Log_Queue
  imports Log_Bounds
begin

text \<open>
  The asynchronous front of the log archive (internal/applog/async.go): loggers enqueue records
  under a lock without ever waiting for the disk, one worker writes them, a flush is a barrier in
  the queue, and closing lets the worker drain what was accepted. What the worker writes to is an
  interface, the locale \<open>log_sink\<close>; the archive is its instance. The fields \<open>lq_accepted\<close>,
  \<open>lq_written\<close> and \<open>lq_marks\<close> record the history and decide nothing. Waiting (a flush that finds the
  queue full tries again, contexts that end) changes no state; the warnings on stderr are left
  out.
\<close>

section \<open>State\<close>

definition asyncQueueRecords :: nat where "asyncQueueRecords = 1024"
definition asyncQueueBytes :: int where "asyncQueueBytes = 8388608"

datatype archiveJob = LogRecord string | Barrier nat

datatype log_worker = Waiting | Writing string | Counting nat | Stopped

record 's async_store =
  lq_store :: 's
  lq_queue :: "archiveJob list"
  lq_closed :: bool
  lq_queuedBytes :: int
  lq_dropped :: nat
  lq_worker :: log_worker
  lq_opened :: "nat list"
  lq_accepted :: "string list"
  lq_written :: "string list"
  lq_marks :: "(nat \<times> nat) list"

definition NewAsyncStore :: "'s \<Rightarrow> 's async_store" where
  "NewAsyncStore s = \<lparr>lq_store = s, lq_queue = [], lq_closed = False, lq_queuedBytes = 0, lq_dropped = 0,
     lq_worker = Waiting, lq_opened = [], lq_accepted = [], lq_written = [], lq_marks = []\<rparr>"

section \<open>Operations\<close>

text \<open>\<open>AsyncStore.Write\<close>; \<open>m\<close> is the archive's MaxRecordBytes. The caller is always told success.\<close>

definition async_Write :: "int \<Rightarrow> string \<Rightarrow> 's async_store \<Rightarrow> nat \<times> 's async_store" where
  "async_Write m p a =
     (let data = truncateRecord p m
      in if lq_closed a \<or> lq_queuedBytes a + int (length data) > asyncQueueBytes then
           (length p, if lq_closed a then a else a\<lparr>lq_dropped := lq_dropped a + 1\<rparr>)
         else if length (lq_queue a) = asyncQueueRecords then
           (length p, a\<lparr>lq_dropped := lq_dropped a + 1\<rparr>)
         else (length p, a\<lparr>lq_queue := lq_queue a @ [LogRecord data],
                 lq_queuedBytes := lq_queuedBytes a + int (length data),
                 lq_accepted := lq_accepted a @ [data]\<rparr>))"

text \<open>One attempt of \<open>Flush\<close> to put its barrier \<open>b\<close> into the queue.\<close>

datatype flush_result = Closing | QueueFull | Queued

definition flush_attempt :: "nat \<Rightarrow> 's async_store \<Rightarrow> flush_result \<times> 's async_store" where
  "flush_attempt b a =
     (if lq_closed a then (Closing, a)
      else if length (lq_queue a) < asyncQueueRecords then
        (Queued, a\<lparr>lq_queue := lq_queue a @ [Barrier b], lq_marks := (b, length (lq_accepted a)) # lq_marks a\<rparr>)
      else (QueueFull, a))"

text \<open>
  \<open>Close\<close> first closes the queue, \<open>async_Close\<close>. Then it waits, \<open>async_Close_end\<close>: for the worker to
  have stopped, after which the archive is closed, or for its deadline, after which the archive is
  left to the worker. \<open>None\<close> says that the case waited for has not come.
\<close>

definition async_Close :: "'s async_store \<Rightarrow> 's async_store" where
  "async_Close a = a\<lparr>lq_closed := True\<rparr>"

datatype close_wait = WorkerDone | DeadlinePassed

definition async_Close_end ::
  "close_wait \<Rightarrow> os_call \<Rightarrow> (log_store \<times> nat) async_store
     \<Rightarrow> (string option \<times> (log_store \<times> nat) async_store) option" where
  "async_Close_end w os a =
     (case w of
        WorkerDone \<Rightarrow>
          if lq_worker a = Stopped then
            (case archive_Close os (fst (lq_store a)) of
               (err, s) \<Rightarrow> Some (err, a\<lparr>lq_store := (s, snd (lq_store a))\<rparr>))
          else None
      | DeadlinePassed \<Rightarrow> Some (Some ''portable log archive drain timed out'', a))"

text \<open>\<open>Export\<close> waits for a flush first; \<open>flushed\<close> is what the flush returned.\<close>

definition async_Export ::
  "string option \<Rightarrow> os_call \<Rightarrow> export_call \<Rightarrow> string \<Rightarrow> (log_store \<times> nat) async_store \<Rightarrow> string option \<times> string list" where
  "async_Export flushed os xc stamp a =
     (case flushed of Some err \<Rightarrow> (Some err, []) | None \<Rightarrow> archive_Export os xc stamp (fst (lq_store a)))"

definition Dropped :: "'s async_store \<Rightarrow> nat" where
  "Dropped a = lq_dropped a"

text \<open>The worker: receive, write, count; it stops when the queue is closed and empty.\<close>

definition worker_step :: "(string \<Rightarrow> 's \<Rightarrow> 's) \<Rightarrow> 's async_store \<Rightarrow> 's async_store option" where
  "worker_step wr a =
     (case lq_worker a of
        Waiting \<Rightarrow>
          (case lq_queue a of
             [] \<Rightarrow> (if lq_closed a then Some (a\<lparr>lq_worker := Stopped\<rparr>) else None)
           | Barrier b # js \<Rightarrow> Some (a\<lparr>lq_queue := js, lq_opened := b # lq_opened a\<rparr>)
           | LogRecord d # js \<Rightarrow> Some (a\<lparr>lq_queue := js, lq_worker := Writing d\<rparr>))
      | Writing d \<Rightarrow>
          Some (a\<lparr>lq_store := wr d (lq_store a), lq_worker := Counting (length d),
                  lq_written := lq_written a @ [d]\<rparr>)
      | Counting n \<Rightarrow> Some (a\<lparr>lq_queuedBytes := lq_queuedBytes a - int n, lq_worker := Waiting\<rparr>)
      | Stopped \<Rightarrow> None)"

inductive async_step :: "(string \<Rightarrow> 's \<Rightarrow> 's) \<Rightarrow> int \<Rightarrow> 's async_store \<Rightarrow> 's async_store \<Rightarrow> bool"
  for wr :: "string \<Rightarrow> 's \<Rightarrow> 's" and m :: int where
  logging: "async_Write m p a = (n, a') \<Longrightarrow> async_step wr m a a'"
| flushing: "b \<notin> fst ` set (lq_marks a) \<Longrightarrow> flush_attempt b a = (r, a') \<Longrightarrow> async_step wr m a a'"
| working: "worker_step wr a = Some a' \<Longrightarrow> async_step wr m a a'"
| closing: "async_step wr m a (async_Close a)"

inductive_cases async_stepE: "async_step wr m a a'"

section \<open>The interface of what is written to\<close>

locale log_sink =
  fixes wr :: "string \<Rightarrow> 's \<Rightarrow> 's"
    and healthy :: "'s \<Rightarrow> bool"
  assumes healthy_write: "healthy s \<Longrightarrow> healthy (wr d s)"
begin

lemma healthy_fold: "healthy s \<Longrightarrow> healthy (fold wr ds s)"
  by (induction ds arbitrary: s) (simp_all add: healthy_write)

end

section \<open>The invariant\<close>

primrec job_records :: "archiveJob \<Rightarrow> string list" where
  "job_records (LogRecord d) = [d]"
| "job_records (Barrier b) = []"

definition queued_records :: "archiveJob list \<Rightarrow> string list" where
  "queued_records js = concat (map job_records js)"

primrec in_hand :: "log_worker \<Rightarrow> string list" where
  "in_hand Waiting = []"
| "in_hand (Writing d) = [d]"
| "in_hand (Counting n) = []"
| "in_hand Stopped = []"

primrec uncounted :: "log_worker \<Rightarrow> int" where
  "uncounted Waiting = 0"
| "uncounted (Writing d) = int (length d)"
| "uncounted (Counting n) = int n"
| "uncounted Stopped = 0"

definition bytes_of :: "string list \<Rightarrow> int" where
  "bytes_of ds = sum_list (map (\<lambda>d. int (length d)) ds)"

text \<open>The barriers still queued, with the number of records accepted before each.\<close>

fun queued_marks :: "nat \<Rightarrow> archiveJob list \<Rightarrow> (nat \<times> nat) list" where
  "queued_marks n [] = []"
| "queued_marks n (LogRecord d # js) = queued_marks (Suc n) js"
| "queued_marks n (Barrier b # js) = (b, n) # queued_marks n js"

definition queue_ok :: "(string \<Rightarrow> 's \<Rightarrow> 's) \<Rightarrow> 's \<Rightarrow> 's async_store \<Rightarrow> bool" where
  "queue_ok wr s0 a \<longleftrightarrow>
     lq_accepted a = lq_written a @ in_hand (lq_worker a) @ queued_records (lq_queue a)
     \<and> lq_store a = fold wr (lq_written a) s0
     \<and> lq_queuedBytes a = uncounted (lq_worker a) + bytes_of (queued_records (lq_queue a))
     \<and> lq_queuedBytes a \<le> asyncQueueBytes
     \<and> length (lq_queue a) \<le> asyncQueueRecords
     \<and> (lq_worker a = Stopped \<longrightarrow> lq_closed a \<and> lq_queue a = [])
     \<and> set (queued_marks (length (lq_written a @ in_hand (lq_worker a))) (lq_queue a)) \<subseteq> set (lq_marks a)
     \<and> distinct (map fst (lq_marks a)) \<and> set (lq_opened a) \<subseteq> fst ` set (lq_marks a)
     \<and> (\<forall>b n. (b, n) \<in> set (lq_marks a) \<longrightarrow> b \<in> set (lq_opened a) \<longrightarrow> n \<le> length (lq_written a))"

lemma queued_records_simps [simp]:
  "queued_records [] = []" "queued_records (LogRecord d # js) = d # queued_records js"
  "queued_records (Barrier b # js) = queued_records js"
  "queued_records (js @ ks) = queued_records js @ queued_records ks"
  by (simp_all add: queued_records_def)

lemma bytes_of_simps [simp]:
  "bytes_of [] = 0" "bytes_of (d # ds) = int (length d) + bytes_of ds"
  "bytes_of (ds @ es) = bytes_of ds + bytes_of es"
  by (simp_all add: bytes_of_def)

lemma queued_marks_append:
  "queued_marks n (js @ ks) = queued_marks n js @ queued_marks (n + length (queued_records js)) ks"
  by (induction n js rule: queued_marks.induct) simp_all

lemma mark_unique:
  "distinct (map fst ms) \<Longrightarrow> (b, n) \<in> set ms \<Longrightarrow> (b, k) \<in> set ms \<Longrightarrow> n = k"
  by (metis Some_eq_map_of_iff option.inject)

lemma queue_ok_start: "queue_ok wr s0 (NewAsyncStore s0)"
  by (simp add: queue_ok_def NewAsyncStore_def asyncQueueBytes_def)

lemma queue_ok_write: "async_Write m p a = (n, a') \<Longrightarrow> queue_ok wr s0 a \<Longrightarrow> queue_ok wr s0 a'"
  by (auto simp: async_Write_def queue_ok_def Let_def queued_marks_append split: if_splits)

lemma queue_ok_flush:
  assumes "flush_attempt b a = (r, a')" and "b \<notin> fst ` set (lq_marks a)" and "queue_ok wr s0 a"
  shows "queue_ok wr s0 a'"
proof -
  from assms(2,3) have "b \<notin> set (lq_opened a)" by (auto simp: queue_ok_def)
  with assms show ?thesis
    by (auto simp: flush_attempt_def queue_ok_def queued_marks_append split: if_splits)
qed

lemma queue_ok_work:
  assumes step: "worker_step wr a = Some a'" and ok: "queue_ok wr s0 a"
  shows "queue_ok wr s0 a'"
proof (cases "lq_worker a")
  case Waiting
  show ?thesis
  proof (cases "lq_queue a")
    case Nil
    with Waiting assms show ?thesis by (auto simp: worker_step_def queue_ok_def split: if_splits)
  next
    case (Cons j js)
    show ?thesis
    proof (cases j)
      case (LogRecord d)
      with Waiting Cons assms show ?thesis by (auto simp: worker_step_def queue_ok_def)
    next
      case (Barrier b)
      have mark: "(b, length (lq_written a)) \<in> set (lq_marks a)" and "distinct (map fst (lq_marks a))"
        using ok Waiting Cons Barrier by (auto simp: queue_ok_def)
      then have bound: "\<forall>n. (b, n) \<in> set (lq_marks a) \<longrightarrow> n \<le> length (lq_written a)"
        by (metis mark_unique order_refl)
      have known: "b \<in> fst ` set (lq_marks a)" using mark by force
      from step Waiting Cons Barrier have a': "a' = a\<lparr>lq_queue := js, lq_opened := b # lq_opened a\<rparr>"
        by (simp add: worker_step_def)
      show ?thesis
        using ok bound known Waiting Cons Barrier unfolding a' queue_ok_def by simp
    qed
  qed
next
  case (Writing d)
  then have a': "a' = a\<lparr>lq_store := wr d (lq_store a), lq_worker := Counting (length d),
      lq_written := lq_written a @ [d]\<rparr>"
    using step by (simp add: worker_step_def)
  show ?thesis
    using ok Writing unfolding a' queue_ok_def by (simp add: le_SucI)
next
  case (Counting n)
  with assms show ?thesis by (auto simp: worker_step_def queue_ok_def)
next
  case Stopped
  with assms show ?thesis by (simp add: worker_step_def)
qed

lemma queue_ok_close: "queue_ok wr s0 a \<Longrightarrow> queue_ok wr s0 (async_Close a)"
  by (simp add: async_Close_def queue_ok_def)

lemma queue_ok_step: "async_step wr m a a' \<Longrightarrow> queue_ok wr s0 a \<Longrightarrow> queue_ok wr s0 a'"
  by (erule async_stepE) (auto intro: queue_ok_write queue_ok_flush queue_ok_work queue_ok_close)

lemma queue_ok_reachable: "(async_step wr m)\<^sup>*\<^sup>* (NewAsyncStore s0) a \<Longrightarrow> queue_ok wr s0 a"
  by (induction rule: rtranclp_induct) (auto intro: queue_ok_start queue_ok_step)

context log_sink begin

lemma healthy_reachable:
  assumes "healthy s0" and "(async_step wr m)\<^sup>*\<^sup>* (NewAsyncStore s0) a"
  shows "healthy (lq_store a)"
  using queue_ok_reachable [OF assms(2)] healthy_fold [OF assms(1)] by (simp add: queue_ok_def)

end

text \<open>The archive as the sink; \<open>calls k\<close> is what the system answers during the \<open>k\<close>th write.\<close>

definition archive_sink ::
  "(nat \<Rightarrow> os_call \<times> os_call) \<Rightarrow> string \<Rightarrow> log_store \<times> nat \<Rightarrow> log_store \<times> nat" where
  "archive_sink calls d s =
     (archive_Write (fst (calls (snd s))) (snd (calls (snd s))) d (fst s), snd s + 1)"

interpretation archive: log_sink "archive_sink calls" "\<lambda>s. archive_ok (fst s)"
  by unfold_locales (simp add: archive_sink_def archive_Write_keeps)

section \<open>Draining\<close>

primrec run_worker :: "nat \<Rightarrow> (string \<Rightarrow> 's \<Rightarrow> 's) \<Rightarrow> 's async_store \<Rightarrow> 's async_store" where
  "run_worker 0 wr a = a"
| "run_worker (Suc n) wr a =
     (case worker_step wr a of None \<Rightarrow> a | Some a' \<Rightarrow> run_worker n wr a')"

primrec job_work :: "archiveJob \<Rightarrow> nat" where
  "job_work (LogRecord d) = 3"
| "job_work (Barrier b) = 1"

primrec hand_work :: "log_worker \<Rightarrow> nat" where
  "hand_work Waiting = 1"
| "hand_work (Writing d) = 3"
| "hand_work (Counting n) = 2"
| "hand_work Stopped = 0"

definition work_left :: "'s async_store \<Rightarrow> nat" where
  "work_left a = hand_work (lq_worker a) + sum_list (map job_work (lq_queue a))"

lemma worker_progress:
  assumes "lq_closed a" and "lq_worker a \<noteq> Stopped"
  shows "\<exists>a'. worker_step wr a = Some a' \<and> work_left a = Suc (work_left a') \<and> lq_closed a'
    \<and> lq_accepted a' = lq_accepted a"
proof (cases "lq_worker a")
  case Waiting
  with assms show ?thesis
    by (cases "lq_queue a"; cases "hd (lq_queue a)") (auto simp: worker_step_def work_left_def)
qed (use assms in \<open>auto simp: worker_step_def work_left_def\<close>)

lemma run_worker_stops:
  assumes "queue_ok wr s0 a" and "lq_closed a" and "work_left a \<le> n"
  shows "queue_ok wr s0 (run_worker n wr a) \<and> lq_worker (run_worker n wr a) = Stopped
    \<and> lq_accepted (run_worker n wr a) = lq_accepted a"
  using assms
proof (induction n arbitrary: a)
  case 0
  then show ?case by (cases "lq_worker a") (auto simp: work_left_def)
next
  case (Suc n)
  show ?case
  proof (cases "lq_worker a = Stopped")
    case True
    with Suc.prems show ?thesis by (simp add: worker_step_def)
  next
    case False
    from worker_progress [OF Suc.prems(2) False, of wr] obtain a' where a': "worker_step wr a = Some a'"
      "work_left a = Suc (work_left a')" "lq_closed a'" "lq_accepted a' = lq_accepted a" by blast
    with queue_ok_work [OF a'(1) Suc.prems(1)] Suc.IH [of a'] Suc.prems(3) show ?thesis by simp
  qed
qed

lemma job_work_bound: "sum_list (map job_work js) \<le> 3 * length js"
proof (induction js)
  case (Cons j js)
  then show ?case by (cases j) simp_all
qed simp

lemma work_left_bound: "queue_ok wr s0 a \<Longrightarrow> work_left a \<le> 3 * 1024 + 3"
  using job_work_bound [of "lq_queue a"]
  by (cases "lq_worker a") (auto simp: work_left_def queue_ok_def asyncQueueRecords_def)

section \<open>Properties\<close>

text \<open>
  C10. The archive receives the accepted log records in order and none twice: in every reachable
  interleaving of loggers, flushes, the worker and closing, what the worker wrote is a prefix of
  what was accepted, the archive is the result of exactly these writes and within its bounds, the
  queue holds at most 1024 jobs and 8 MiB, and a flush whose barrier was reached has all records
  accepted before it written.
\<close>

theorem log_queue_is_fifo:
  assumes "archive_ok s0" and "(async_step (archive_sink calls) m)\<^sup>*\<^sup>* (NewAsyncStore (s0, 0)) a"
  shows "prefix (lq_written a) (lq_accepted a)
    \<and> lq_store a = fold (archive_sink calls) (lq_written a) (s0, 0) \<and> archive_ok (fst (lq_store a))
    \<and> length (lq_queue a) \<le> 1024 \<and> bytes_of (queued_records (lq_queue a)) \<le> 8388608
    \<and> (\<forall>b n. (b, n) \<in> set (lq_marks a) \<and> b \<in> set (lq_opened a) \<longrightarrow>
        prefix (take n (lq_accepted a)) (lq_written a))"
proof -
  note ok = queue_ok_reachable [OF assms(2)]
  have "archive_ok (fst (lq_store a))"
    by (rule archive.healthy_reachable [OF _ assms(2)]) (simp add: assms(1))
  moreover have "prefix (take n (lq_accepted a)) (lq_written a)"
    if "(b, n) \<in> set (lq_marks a)" "b \<in> set (lq_opened a)" for b n
    using ok that by (auto simp: queue_ok_def take_is_prefix)
  moreover have "0 \<le> uncounted (lq_worker a)" by (cases "lq_worker a") simp_all
  then have "bytes_of (queued_records (lq_queue a)) \<le> 8388608"
    using ok by (auto simp: queue_ok_def asyncQueueBytes_def)
  moreover have "prefix (lq_written a) (lq_accepted a)" "length (lq_queue a) \<le> 1024"
    "lq_store a = fold (archive_sink calls) (lq_written a) (s0, 0)"
    using ok by (simp_all add: queue_ok_def asyncQueueRecords_def)
  ultimately show ?thesis by blast
qed

definition fresh_archive :: log_store where
  "fresh_archive = \<lparr>ls_opts = small_options, ls_dir = [], ls_file = False, ls_currentName = [],
     ls_currentDay = 0, ls_currentSize = 0, ls_bytesSinceGC = 0, ls_fileSequence = 0,
     ls_closed = False, ls_writeDisabled = False\<rparr>"

lemma fresh_archive_ok: "archive_ok fresh_archive"
  by (simp add: archive_ok_def archive_base_def files_ok_def current_ok_def fresh_archive_def
      small_options_def options_valid managed_total_def)

theorem log_queue_is_fifo_witness:
  "prefix (lq_written (snd (async_Write 4 ''abc'' (NewAsyncStore (fresh_archive, 0 :: nat)))))
     (lq_accepted (snd (async_Write 4 ''abc'' (NewAsyncStore (fresh_archive, 0 :: nat)))))"
proof -
  have "(async_step (archive_sink (\<lambda>k. (quiet_os, quiet_os))) 4)\<^sup>*\<^sup>* (NewAsyncStore (fresh_archive, 0))
      (snd (async_Write 4 ''abc'' (NewAsyncStore (fresh_archive, 0))))"
    by (rule r_into_rtranclp, rule async_step.logging [OF prod.collapse [symmetric]])
  from log_queue_is_fifo [OF fresh_archive_ok this] show ?thesis by (rule conjunct1)
qed

text \<open>
  The archive is closed only under a worker that has stopped, so never under a record being
  written, and with every record accepted in it.
\<close>

lemma async_Close_end_drained:
  assumes "async_Close_end w os a = Some (err, a')"
  shows "w = WorkerDone \<longrightarrow> lq_worker a = Stopped \<and> ls_closed (fst (lq_store a')) \<and> lq_written a' = lq_written a"
    and "w = DeadlinePassed \<longrightarrow> a' = a \<and> err \<noteq> None"
  using assms
  by (auto simp: async_Close_end_def archive_Close_def split: close_wait.splits if_splits prod.splits)

text \<open>
  C11. Closing loses nothing that was accepted: from every reachable state, once the queue is
  closed, the worker alone stops after at most 3075 steps, and then every record ever accepted
  has been written to the archive, in order.
\<close>

theorem closing_drains_the_log:
  assumes "(async_step (archive_sink calls) m)\<^sup>*\<^sup>* (NewAsyncStore (s0, 0)) a"
  shows "lq_worker (run_worker 3075 (archive_sink calls) (async_Close a)) = Stopped
    \<and> lq_written (run_worker 3075 (archive_sink calls) (async_Close a)) = lq_accepted a
    \<and> lq_store (run_worker 3075 (archive_sink calls) (async_Close a))
        = fold (archive_sink calls) (lq_accepted a) (s0, 0)"
proof -
  let ?a = "run_worker 3075 (archive_sink calls) (async_Close a)"
  have ok: "queue_ok (archive_sink calls) (s0, 0) (async_Close a)"
    by (rule queue_ok_close [OF queue_ok_reachable [OF assms]])
  have "lq_closed (async_Close a)" "lq_accepted (async_Close a) = lq_accepted a"
    by (simp_all add: async_Close_def)
  with run_worker_stops [OF ok, of 3075] work_left_bound [OF ok]
  have drained: "queue_ok (archive_sink calls) (s0, 0) ?a" "lq_worker ?a = Stopped"
    "lq_accepted ?a = lq_accepted a" by auto
  then have "lq_written ?a = lq_accepted a" by (auto simp: queue_ok_def)
  with drained show ?thesis by (simp add: queue_ok_def)
qed

theorem closing_drains_the_log_witness:
  "lq_written (run_worker 3075 (archive_sink (\<lambda>k. (quiet_os, quiet_os)))
     (async_Close (snd (async_Write 4 ''abc'' (NewAsyncStore (fresh_archive, 0 :: nat)))))) = [''abc'']"
proof -
  have "(async_step (archive_sink (\<lambda>k. (quiet_os, quiet_os))) 4)\<^sup>*\<^sup>* (NewAsyncStore (fresh_archive, 0))
      (snd (async_Write 4 ''abc'' (NewAsyncStore (fresh_archive, 0))))"
    by (rule r_into_rtranclp, rule async_step.logging [OF prod.collapse [symmetric]])
  from closing_drains_the_log [OF this] show ?thesis
    by (simp add: async_Write_def NewAsyncStore_def truncateRecord_def asyncQueueBytes_def
        asyncQueueRecords_def Let_def)
qed

end
