(* ===== verification/Port_Clearing.thy ===== *)
theory Port_Clearing
  imports Gateway_Core
begin

text \<open>
  Clearing a port before a server listens on it (internal/process/kill.go): the external command
  that is run. What the command does is an argument.
\<close>

record command =
  cmd_name :: string
  cmd_args :: "string list"

definition windows_script :: "int \<Rightarrow> string" where
  \<open>windows_script port = ''Get-NetTCPConnection -LocalPort '' @ Itoa port
     @ '' -State Listen -ErrorAction SilentlyContinue | Select-Object -ExpandProperty OwningProcess -Unique''
     @ '' | ForEach-Object { Stop-Process -Id $_ -Force }''\<close>

definition unix_script :: "int \<Rightarrow> string" where
  \<open>unix_script port = ''pids=$(lsof -ti tcp:'' @ Itoa port
     @ '' -sTCP:LISTEN 2>/dev/null || true); if [ -n "$pids" ]; then kill -9 $pids; fi''\<close>

definition kill_command :: "bool \<Rightarrow> int \<Rightarrow> command" where
  "kill_command windows port =
     (if windows then \<lparr>cmd_name = ''powershell'',
        cmd_args = [''-NoProfile'', ''-NonInteractive'', ''-Command'', windows_script port]\<rparr>
      else \<lparr>cmd_name = ''bash'', cmd_args = [''-c'', unix_script port]\<rparr>)"

text \<open>\<open>run\<close> answers with the command's error, if any, and what it printed.\<close>

datatype kill_error = InvalidPort int | KillFailed int string string

definition process_KillPort ::
  "bool \<Rightarrow> (command \<Rightarrow> string option \<times> string) \<Rightarrow> int \<Rightarrow> kill_error option" where
  "process_KillPort windows run port =
     (if port \<le> 0 \<or> 65535 < port then Some (InvalidPort port)
      else (case run (kill_command windows port) of
              (Some err, printed) \<Rightarrow> Some (KillFailed port err printed)
            | (None, printed) \<Rightarrow> None))"

text \<open>A gateway that runs only clears ports in the range of tool ports.\<close>

lemma cleared_ports_are_tool_ports:
  assumes "Run ending g = (err, started)" and "KillPort port \<in> set started"
  shows "MinToolPort \<le> port \<and> port \<le> MaxToolPort"
proof -
  from assms have "ValidateEnabledTools (gw_cfg g) = None" and "KillPort port \<in> set (run_servers g)"
    by (auto simp: Run_def split: option.splits)
  then obtain t where "t \<in> set (cfg_tools (gw_cfg g))" "tool_enabled t" "port = tool_port t"
    "config_ok ((gw_cfg g)\<lparr>cfg_tools := filter tool_enabled (cfg_tools (gw_cfg g))\<rparr>)"
    by (auto simp: run_servers_def ValidateEnabledTools_None_iff split: if_splits)
  then show ?thesis
    by (auto simp: config_ok_def tools_config_ok_def list_all_iff tool_ok_def MinToolPort_def MaxToolPort_def)
qed

lemma process_KillPort_in_range:
  assumes "MinToolPort \<le> port" and "port \<le> MaxToolPort"
  shows "process_KillPort windows run port
    = (case fst (run (kill_command windows port)) of
         None \<Rightarrow> None | Some err \<Rightarrow> Some (KillFailed port err (snd (run (kill_command windows port)))))"
  using assms
  by (auto simp: process_KillPort_def MinToolPort_def MaxToolPort_def split: prod.splits option.splits)

end
