(* ===== verification/Config_Files.thy ===== *)
theory Config_Files
  imports Go_Flags Config_Store
begin

text \<open>
  Files: reading a YAML configuration (internal/config/config.go, Load and resolveRelativePath),
  writing one (WriteAtomic), the generated compatibility mirror (internal/configstore/store.go) and
  the private export (src/cmd), and opening the database. Files are a map from absolute paths to
  contents; every state a write passes through is recorded, so that a crash between two calls of
  the system is one of them. The YAML coder, the working directory and the failures of the
  system's calls are arguments. Modes of files and directories are left out.
\<close>

section \<open>Reading a configuration\<close>

type_synonym files = "string \<rightharpoonup> string"

definition resolveRelativePath :: "string \<Rightarrow> string \<Rightarrow> string" where
  "resolveRelativePath baseDir path0 =
     (let path = TrimSpace path0
      in if path = [] \<or> IsAbs path then path else Clean (Join [baseDir, path]))"

datatype read_error = NoAbsolutePath string | Unreadable string | BadYAML string

definition config_Load ::
  "string option \<Rightarrow> (string \<Rightarrow> string option) \<Rightarrow> (string \<Rightarrow> string + config) \<Rightarrow> string \<Rightarrow> read_error + config" where
  "config_Load cwd readFile unmarshal path =
     (case Abs cwd path of
        None \<Rightarrow> Inl (NoAbsolutePath path)
      | Some absoluteConfigPath \<Rightarrow>
          (case readFile absoluteConfigPath of
             None \<Rightarrow> Inl (Unreadable absoluteConfigPath)
           | Some data \<Rightarrow>
               (case unmarshal data of
                  Inl err \<Rightarrow> Inl (BadYAML err)
                | Inr cfg \<Rightarrow>
                    let configDir = Dir absoluteConfigPath;
                        tls = shelly_tls (cfg_defaults cfg)
                    in Inr (cfg\<lparr>cfg_defaults := (cfg_defaults cfg)\<lparr>shelly_tls :=
                         \<lparr>server_ca_file = resolveRelativePath configDir (server_ca_file tls),
                          client_cert_file = resolveRelativePath configDir (client_cert_file tls),
                          client_key_file = resolveRelativePath configDir (client_key_file tls)\<rparr>\<rparr>\<rparr>))))"

section \<open>Calls of the system\<close>

datatype file_call =
    MakeDir | ReadOld | OpenBackup | WriteBackup | CreateTemp | ChmodTemp | OpenTemp | WriteTemp
  | SyncTemp | CloseTemp | RenameTemp | RemoveTemp

record fsys =
  fs_now :: files
  fs_past :: "files list"

text \<open>The calls that fail, and how many bytes a failing write still wrote.\<close>

record file_faults =
  ff_fails :: "file_call \<Rightarrow> bool"
  ff_partial :: nat

definition fs_put :: "string \<Rightarrow> string option \<Rightarrow> fsys \<Rightarrow> fsys" where
  "fs_put path v st = st\<lparr>fs_now := (fs_now st)(path := v), fs_past := fs_now st # fs_past st\<rparr>"

definition fs_rename :: "string \<Rightarrow> string \<Rightarrow> fsys \<Rightarrow> fsys" where
  "fs_rename a b st =
     st\<lparr>fs_now := (fs_now st)(b := fs_now st a, a := None), fs_past := fs_now st # fs_past st\<rparr>"

text \<open>\<open>os.WriteFile\<close>: open and truncate, then write.\<close>

definition os_WriteFile ::
  "file_faults \<Rightarrow> file_call \<Rightarrow> file_call \<Rightarrow> string \<Rightarrow> string \<Rightarrow> fsys \<Rightarrow> string option \<times> fsys" where
  "os_WriteFile ff openCall writeCall path data st =
     (if ff_fails ff openCall then (Some ''open'', st)
      else let st1 = fs_put path (Some []) st
           in if ff_fails ff writeCall then (Some ''write'', fs_put path (Some (take (ff_partial ff) data)) st1)
              else (None, fs_put path (Some data) st1))"

section \<open>Writing\<close>

definition WriteAtomic ::
  "file_faults \<Rightarrow> (config \<Rightarrow> string + string) \<Rightarrow> string \<Rightarrow> config \<Rightarrow> fsys \<Rightarrow> string option \<times> fsys" where
  "WriteAtomic ff marshal path cfg st =
     (case marshal cfg of
        Inl err \<Rightarrow> (Some err, st)
      | Inr data \<Rightarrow>
          let st1 = (if ff_fails ff ReadOld then st
                     else case fs_now st path of
                            None \<Rightarrow> st
                          | Some oldData \<Rightarrow>
                              snd (os_WriteFile ff OpenBackup WriteBackup (path @ ''.bak'') oldData st));
              tmpPath = path @ ''.tmp''
          in (case os_WriteFile ff OpenTemp WriteTemp tmpPath data st1 of
                (Some err, st2) \<Rightarrow> (Some err, st2)
              | (None, st2) \<Rightarrow>
                  if ff_fails ff RenameTemp then (Some ''rename'', st2)
                  else (None, fs_rename tmpPath path st2)))"

text \<open>
  The common part of the mirror and the export: a temporary file of a new name \<open>temp\<close>, filled and
  renamed; the deferred removal takes it away when it is still there.
\<close>

definition remove_temp :: "file_faults \<Rightarrow> string \<Rightarrow> fsys \<Rightarrow> fsys" where
  "remove_temp ff temp st =
     (if ff_fails ff RemoveTemp \<or> fs_now st temp = None then st else fs_put temp None st)"

definition replace_by_temp ::
  "file_faults \<Rightarrow> string \<Rightarrow> string \<Rightarrow> string \<Rightarrow> fsys \<Rightarrow> string option \<times> fsys" where
  "replace_by_temp ff temp target data st =
     (if ff_fails ff CreateTemp \<or> fs_now st temp \<noteq> None then (Some ''create temporary file'', st)
      else let st1 = fs_put temp (Some []) st
           in if ff_fails ff ChmodTemp then (Some ''chmod temporary file'', remove_temp ff temp st1)
              else if ff_fails ff WriteTemp then
                (Some ''write temporary file'',
                 remove_temp ff temp (fs_put temp (Some (take (ff_partial ff) data)) st1))
              else let st2 = fs_put temp (Some data) st1
                   in if ff_fails ff SyncTemp then (Some ''sync temporary file'', remove_temp ff temp st2)
                      else if ff_fails ff CloseTemp then (Some ''close temporary file'', remove_temp ff temp st2)
                      else if ff_fails ff RenameTemp then (Some ''replace file'', remove_temp ff temp st2)
                      else (None, remove_temp ff temp (fs_rename temp target st2)))"

definition mirrorHeader :: string where
  "mirrorHeader = ''# GENERATED FILE. SQLite gateway.sqlite3 is authoritative.'' @ [CHR 0x0A]
     @ ''# Manual changes to this file are ignored after database initialization.'' @ [CHR 0x0A]"

text \<open>\<open>temp\<close> is the name \<open>os.CreateTemp\<close> picks in the target's directory.\<close>

definition writeGeneratedMirror ::
  "file_faults \<Rightarrow> string option \<Rightarrow> (config \<Rightarrow> string + string) \<Rightarrow> string \<Rightarrow> string \<Rightarrow> config \<Rightarrow> fsys
     \<Rightarrow> string option \<times> fsys" where
  "writeGeneratedMirror ff cwd marshal temp path cfg st =
     (case Abs cwd path of
        None \<Rightarrow> (Some ''resolve mirror path'', st)
      | Some absolutePath \<Rightarrow>
          if ff_fails ff MakeDir then (Some ''create mirror directory'', st)
          else (case marshal cfg of
                  Inl err \<Rightarrow> (Some err, st)
                | Inr body \<Rightarrow>
                    let data = mirrorHeader @ body
                    in if ff_fails ff ReadOld then (Some ''read existing compatibility YAML'', st)
                       else (case fs_now st absolutePath of
                               None \<Rightarrow> replace_by_temp ff temp absolutePath data st
                             | Some oldData \<Rightarrow>
                                 (case os_WriteFile ff OpenBackup WriteBackup (absolutePath @ ''.bak'') oldData st of
                                    (Some err, st1) \<Rightarrow> (Some ''write compatibility YAML backup'', st1)
                                  | (None, st1) \<Rightarrow> replace_by_temp ff temp absolutePath data st1))))"

definition writePrivateAtomic ::
  "file_faults \<Rightarrow> string option \<Rightarrow> string \<Rightarrow> string \<Rightarrow> string \<Rightarrow> fsys \<Rightarrow> string option \<times> fsys" where
  "writePrivateAtomic ff cwd temp path data st =
     (case Abs cwd path of
        None \<Rightarrow> (Some ''resolve output path'', st)
      | Some absolutePath \<Rightarrow>
          if ff_fails ff MakeDir then (Some ''create output directory'', st)
          else replace_by_temp ff temp absolutePath data st)"

section \<open>Opening the database\<close>

datatype open_error =
    PathRequired
  | NoDatabasePath
  | NoDatabaseDirectory
  | OpenFailed
  | PragmaFailed string
  | MigrationFailed store_error
  | QuickCheckFailed string

record config_store =
  st_path :: string
  st_mirrorPath :: string

text \<open>What the database driver answers while it is opened.\<close>

record open_faults =
  of_directory :: bool
  of_open :: bool
  of_pragma :: "string \<Rightarrow> bool"
  of_sql :: "sql_call \<Rightarrow> sql_error option"
  of_quick_check :: "string + string"

definition pragmas :: "string list" where
  "pragmas = [''PRAGMA foreign_keys = ON'', ''PRAGMA busy_timeout = 5000'',
     ''PRAGMA journal_mode = DELETE'', ''PRAGMA synchronous = FULL'']"

definition configure :: "open_faults \<Rightarrow> open_error option" where
  "configure fl = (case List.find (of_pragma fl) pragmas of None \<Rightarrow> None | Some p \<Rightarrow> Some (PragmaFailed p))"

definition QuickCheck :: "open_faults \<Rightarrow> open_error option" where
  "QuickCheck fl =
     (case of_quick_check fl of
        Inl err \<Rightarrow> Some (QuickCheckFailed err)
      | Inr result \<Rightarrow> if result \<noteq> ''ok'' then Some (QuickCheckFailed result) else None)"

definition store_Open ::
  "open_faults \<Rightarrow> string option \<Rightarrow> string \<Rightarrow> string \<Rightarrow> database \<Rightarrow> (open_error + config_store) \<times> database" where
  "store_Open fl cwd path mirrorPath db =
     (if TrimSpace path = [] then (Inl PathRequired, db)
      else (case Abs cwd path of
              None \<Rightarrow> (Inl NoDatabasePath, db)
            | Some absolutePath \<Rightarrow>
                if of_directory fl then (Inl NoDatabaseDirectory, db)
                else if of_open fl then (Inl OpenFailed, db)
                else (case configure fl of
                        Some err \<Rightarrow> (Inl err, db)
                      | None \<Rightarrow>
                          (case migrate (of_sql fl) db of
                             (Some err, db1) \<Rightarrow> (Inl (MigrationFailed err), db1)
                           | (None, db1) \<Rightarrow>
                               (case QuickCheck fl of
                                  Some err \<Rightarrow> (Inl err, db1)
                                | None \<Rightarrow> (Inr \<lparr>st_path = absolutePath, st_mirrorPath = mirrorPath\<rparr>, db1))))))"

section \<open>Facts\<close>

lemma resolveRelativePath_absolute:
  "IsAbs base \<Longrightarrow> resolveRelativePath base p = [] \<or> IsAbs (resolveRelativePath base p)"
  by (auto simp: resolveRelativePath_def Let_def intro: IsAbs_Clean IsAbs_Join)

text \<open>Whether a path keeps its content in every state passed through, and the state after.\<close>

definition seen :: "string \<Rightarrow> fsys \<Rightarrow> string option set" where
  "seen p st = (\<lambda>fs. fs p) ` set (fs_now st # fs_past st)"

lemma fs_put_now [simp]: "fs_now (fs_put q v st) = (fs_now st)(q := v)"
  by (simp add: fs_put_def)

lemma fs_rename_now [simp]: "fs_now (fs_rename a b st) = (fs_now st)(b := fs_now st a, a := None)"
  by (simp add: fs_rename_def)

lemma seen_fs_put: "seen p (fs_put q v st) = insert (if p = q then v else fs_now st p) (seen p st)"
  by (auto simp: seen_def fs_put_def)

lemma seen_fs_rename:
  "a \<noteq> b \<Longrightarrow> seen p (fs_rename a b st)
     = insert (if p = a then None else if p = b then fs_now st a else fs_now st p) (seen p st)"
  by (auto simp: seen_def fs_rename_def)

lemma seen_now [simp]: "fs_now st p \<in> seen p st"
  by (simp add: seen_def)

lemma remove_temp_other:
  "p \<noteq> temp \<Longrightarrow> fs_now (remove_temp ff temp st) p = fs_now st p \<and> seen p (remove_temp ff temp st) = seen p st"
  by (auto simp: remove_temp_def seen_fs_put insert_absorb)

text \<open>The target is only ever what it was or the whole new text.\<close>

lemma replace_by_temp_target:
  assumes "replace_by_temp ff temp target data st = (err, st')" and "temp \<noteq> target"
  shows "fs_now st' target = (if err = None then Some data else fs_now st target)"
    and "seen target st' \<subseteq> insert (Some data) (seen target st)"
  using assms
  by (auto simp: replace_by_temp_def Let_def remove_temp_other seen_fs_put seen_fs_rename insert_absorb
      split: if_splits)

lemma replace_by_temp_other:
  assumes "replace_by_temp ff temp target data st = (err, st')" and "p \<noteq> target" and "p \<noteq> temp"
    and "temp \<noteq> target"
  shows "fs_now st' p = fs_now st p"
  using assms by (auto simp: replace_by_temp_def Let_def remove_temp_other split: if_splits)

lemma replace_by_temp_leftover:
  assumes "replace_by_temp ff temp target data st = (err, st')" and "\<not> ff_fails ff RemoveTemp"
    and "temp \<noteq> target" and "fs_now st temp = None"
  shows "fs_now st' temp = None"
  using assms by (auto simp: replace_by_temp_def Let_def remove_temp_def split: if_splits)

lemma os_WriteFile_other:
  assumes "os_WriteFile ff oc wc q data st = (err, st')" and "p \<noteq> q"
  shows "fs_now st' p = fs_now st p \<and> seen p st' = seen p st"
  using assms by (auto simp: os_WriteFile_def Let_def seen_fs_put insert_absorb split: if_splits)

lemma os_WriteFile_written:
  "os_WriteFile ff oc wc q data st = (None, st') \<Longrightarrow> fs_now st' q = Some data"
  by (auto simp: os_WriteFile_def Let_def split: if_splits)

text \<open>What the mirror's writer does to the target: nothing, or the replacement after the backup.\<close>

lemma writeGeneratedMirror_cases:
  assumes "writeGeneratedMirror ff cwd marshal temp path cfg st = (err, st')" and "Abs cwd path = Some target"
  obtains (nothing) "err \<noteq> None" "st' = st"
  | (no_backup) oldData where "err \<noteq> None" "fs_now st target = Some oldData"
      "fst (os_WriteFile ff OpenBackup WriteBackup (target @ ''.bak'') oldData st) \<noteq> None"
      "st' = snd (os_WriteFile ff OpenBackup WriteBackup (target @ ''.bak'') oldData st)"
  | (first) body where "marshal cfg = Inr body" "fs_now st target = None"
      "replace_by_temp ff temp target (mirrorHeader @ body) st = (err, st')"
  | (again) body oldData st1 where "marshal cfg = Inr body" "fs_now st target = Some oldData"
      "os_WriteFile ff OpenBackup WriteBackup (target @ ''.bak'') oldData st = (None, st1)"
      "replace_by_temp ff temp target (mirrorHeader @ body) st1 = (err, st')"
proof (cases "ff_fails ff MakeDir \<or> ff_fails ff ReadOld \<or> (\<exists>e. marshal cfg = Inl e)")
  case True
  with assms have "err \<noteq> None" "st' = st"
    by (auto simp: writeGeneratedMirror_def Let_def split: if_splits sum.splits)
  then show ?thesis by (rule nothing)
next
  case False
  then obtain body where body: "marshal cfg = Inr body" by (cases "marshal cfg") auto
  show ?thesis
  proof (cases "fs_now st target")
    case None
    with assms False body have "replace_by_temp ff temp target (mirrorHeader @ body) st = (err, st')"
      by (simp add: writeGeneratedMirror_def Let_def)
    with body None show ?thesis by (rule first [of body])
  next
    case (Some oldData)
    obtain e st1 where backup: "os_WriteFile ff OpenBackup WriteBackup (target @ ''.bak'') oldData st = (e, st1)"
      by fastforce
    show ?thesis
    proof (cases e)
      case None
      with assms False body Some backup
      have "replace_by_temp ff temp target (mirrorHeader @ body) st1 = (err, st')"
        by (simp add: writeGeneratedMirror_def Let_def)
      with body Some backup None again [of body oldData st1] show ?thesis by simp
    next
      case (Some f)
      with assms False body \<open>fs_now st target = Some oldData\<close> backup
      have "err \<noteq> None" "st' = st1" by (auto simp: writeGeneratedMirror_def Let_def)
      with \<open>fs_now st target = Some oldData\<close> backup Some no_backup [of oldData] show ?thesis by simp
    qed
  qed
qed

section \<open>Properties\<close>

text \<open>
  C15. The compatibility mirror is replaced whole: in every state the write passes through, so also
  after a crash between any two calls, the mirror is either the old file or the complete new one;
  an error leaves the old one; success leaves the new one, and the old one as the backup.
\<close>

theorem mirror_is_replaced_whole:
  assumes "Abs cwd path = Some target" and "marshal cfg = Inr body"
    and "temp \<noteq> target" and "temp \<noteq> target @ ''.bak''" and "fs_past st = []"
    and "writeGeneratedMirror ff cwd marshal temp path cfg st = (err, st')"
  shows "(\<forall>fs \<in> set (fs_now st' # fs_past st'). fs target \<in> {fs_now st target, Some (mirrorHeader @ body)})
    \<and> (case err of
         Some e \<Rightarrow> fs_now st' target = fs_now st target
       | None \<Rightarrow> fs_now st' target = Some (mirrorHeader @ body)
           \<and> (fs_now st target = None \<or> fs_now st' (target @ ''.bak'') = fs_now st target))"
proof -
  let ?new = "Some (mirrorHeader @ body)"
  let ?outcome = "case err of
      Some e \<Rightarrow> fs_now st' target = fs_now st target
    | None \<Rightarrow> fs_now st' target = ?new
        \<and> (fs_now st target = None \<or> fs_now st' (target @ ''.bak'') = fs_now st target)"
  have start: "seen target st = {fs_now st target}" using assms(5) by (simp add: seen_def)
  have apart: "target \<noteq> target @ ''.bak''" by simp
  have all: "(\<forall>fs \<in> set (fs_now st' # fs_past st'). fs target \<in> {fs_now st target, ?new})
      \<longleftrightarrow> seen target st' \<subseteq> {fs_now st target, ?new}"
    by (auto simp: seen_def)
  show ?thesis
    unfolding all
  proof (rule writeGeneratedMirror_cases [OF assms(6,1)])
    assume "err \<noteq> None" "st' = st"
    then show "seen target st' \<subseteq> {fs_now st target, ?new} \<and> ?outcome"
      using start by (cases err) simp_all
  next
    fix oldData
    assume "err \<noteq> None" and st': "st' = snd (os_WriteFile ff OpenBackup WriteBackup (target @ ''.bak'') oldData st)"
    with os_WriteFile_other [OF prod.collapse [symmetric] apart, of ff OpenBackup WriteBackup oldData st] start
    show "seen target st' \<subseteq> {fs_now st target, ?new} \<and> ?outcome"
      by (cases err) simp_all
  next
    fix body'
    assume "marshal cfg = Inr body'" and none: "fs_now st target = None"
      and run: "replace_by_temp ff temp target (mirrorHeader @ body') st = (err, st')"
    with assms(2) replace_by_temp_target [OF run assms(3)] start
    show "seen target st' \<subseteq> {fs_now st target, ?new} \<and> ?outcome"
      by (cases err) auto
  next
    fix body' oldData st1
    assume "marshal cfg = Inr body'" and old: "fs_now st target = Some oldData"
      and backup: "os_WriteFile ff OpenBackup WriteBackup (target @ ''.bak'') oldData st = (None, st1)"
      and run: "replace_by_temp ff temp target (mirrorHeader @ body') st1 = (err, st')"
    have "fs_now st' (target @ ''.bak'') = Some oldData"
      using replace_by_temp_other [OF run apart [symmetric] assms(4) [symmetric] assms(3)]
        os_WriteFile_written [OF backup] by (rule trans)
    moreover have "fs_now st1 target = fs_now st target" "seen target st1 = seen target st"
      using os_WriteFile_other [OF backup apart] by simp_all
    moreover have "body' = body" using assms(2) \<open>marshal cfg = Inr body'\<close> by simp
    ultimately show "seen target st' \<subseteq> {fs_now st target, ?new} \<and> ?outcome"
      using replace_by_temp_target [OF run assms(3)] start old by (cases err) auto
  qed
qed

definition broken_rename :: file_faults where
  "broken_rename = \<lparr>ff_fails = (\<lambda>c. c = RenameTemp), ff_partial = 0\<rparr>"

definition mirror_files :: fsys where
  "mirror_files = \<lparr>fs_now = [''/etc/config.yaml'' \<mapsto> ''old''], fs_past = []\<rparr>"

theorem mirror_is_replaced_whole_witness:
  "fs_now (snd (writeGeneratedMirror broken_rename None (\<lambda>cfg. Inr ''new'') ''/etc/.config.yaml.1.tmp''
     ''/etc/config.yaml'' (shop_config []) mirror_files)) ''/etc/config.yaml'' = Some ''old''"
proof -
  let ?w = "writeGeneratedMirror broken_rename None (\<lambda>cfg. Inr ''new'') ''/etc/.config.yaml.1.tmp''
     ''/etc/config.yaml'' (shop_config []) mirror_files"
  have path: "Abs None ''/etc/config.yaml'' = Some ''/etc/config.yaml''" by code_simp
  have failed: "fst ?w \<noteq> None" by code_simp
  have names: "''/etc/.config.yaml.1.tmp'' \<noteq> ''/etc/config.yaml''"
    "''/etc/.config.yaml.1.tmp'' \<noteq> ''/etc/config.yaml'' @ ''.bak''" by simp_all
  have fresh: "fs_past mirror_files = []" by (simp add: mirror_files_def)
  obtain e st' where w: "?w = (Some e, st')" using failed by (metis not_Some_eq prod.collapse)
  from mirror_is_replaced_whole [where marshal = "\<lambda>cfg. Inr ''new''", OF path refl names fresh w]
  have "fs_now st' ''/etc/config.yaml'' = fs_now mirror_files ''/etc/config.yaml''"
    unfolding option.case by (elim conjE)
  then show ?thesis unfolding w snd_conv by (simp add: mirror_files_def)
qed

end
