(* ===== verification/Main_Cmd.thy ===== *)
theory Main_Cmd
  imports Config_Files Gateway_Core Log_Queue Update_Auth
begin

text \<open>
  The command line (src/cmd/fbs-interlock-gateway/main.go): which paths are used, the first start
  with its import of the legacy configuration, export and import of the configuration, and what a
  start of the gateway puts together. The environment of the process (its files, the database
  driver, the YAML coder, the clock) is a record of arguments; what is printed is kept as a value.
\<close>

section \<open>The environment and errors\<close>

record main_env =
  me_cwd :: "string option"
  me_executable :: "string option"
  me_db_path_env :: string
  me_unreadable :: "string \<Rightarrow> bool"
  me_unmarshal :: "string \<Rightarrow> string + config"
  me_marshal :: "config \<Rightarrow> string + string"
  me_open :: open_faults
  me_sql :: "sql_call \<Rightarrow> sql_error option"
  me_load_fault :: "nat \<Rightarrow> sql_error option"
  me_now :: string
  me_tls :: tls_files
  me_log_open :: os_call
  me_log_rotate :: os_call
  me_log_dir :: directory
  me_file_faults :: file_faults
  me_temp_name :: string
  me_stdout_fails :: bool
  me_verifier :: verifier

datatype main_error =
    NoExecutable
  | Flags string
  | DatabaseOpen open_error
  | LoadFailed store_error
  | LegacyUnreadable read_error
  | LegacyInvalid config_error
  | ImportFailed store_error
  | ReloadFailed store_error
  | CommandUsage
  | UnknownCommand string
  | InputRequired
  | ImportUnreadable read_error
  | ImportInvalid config_error
  | MarshalFailed string
  | OutputFailed string
  | GatewayFailed "store_error gateway_error"
  | UpdateRefused update_error

section \<open>Paths\<close>

record paths =
  pa_db :: string
  pa_yaml :: string

definition defaultPaths :: "main_env \<Rightarrow> main_error + paths" where
  "defaultPaths env =
     (case me_executable env of
        None \<Rightarrow> Inl NoExecutable
      | Some exePath \<Rightarrow>
          let dir = Dir exePath;
              dbPath = TrimSpace (me_db_path_env env)
          in Inr \<lparr>pa_db = (if dbPath = [] then Join [dir, ''gateway.sqlite3''] else dbPath),
                  pa_yaml = Join [dir, ''config.yaml'']\<rparr>)"

definition resolveRuntimeDBPath :: "main_env \<Rightarrow> string \<Rightarrow> string \<Rightarrow> string" where
  "resolveRuntimeDBPath env flagValue configPath =
     (if TrimSpace flagValue \<noteq> [] then TrimSpace flagValue
      else if TrimSpace (me_db_path_env env) \<noteq> [] then TrimSpace (me_db_path_env env)
      else Join [Dir configPath, ''gateway.sqlite3''])"

section \<open>The first start\<close>

text \<open>A load of the database whose queries may fail.\<close>

definition store_Load :: "sql_error option \<Rightarrow> database \<Rightarrow> store_error + config" where
  "store_Load fault db =
     (case fault of Some e \<Rightarrow> Inl (SQL ''query gateway settings'' e) | None \<Rightarrow> Load db)"

text \<open>Reading a configuration file of the process's files, some of which cannot be read.\<close>

definition load_file :: "main_env \<Rightarrow> files \<Rightarrow> string \<Rightarrow> read_error + config" where
  "load_file env fs path =
     config_Load (me_cwd env) (\<lambda>p. if me_unreadable env p then None else fs p) (me_unmarshal env) path"

definition loadOrMigrate ::
  "main_env \<Rightarrow> files \<Rightarrow> string \<Rightarrow> database \<Rightarrow> (main_error + config \<times> bool) \<times> database" where
  "loadOrMigrate env fs legacyConfigPath db =
     (case store_Load (me_load_fault env 0) db of
        Inr cfg \<Rightarrow> (Inr (cfg, False), db)
      | Inl err \<Rightarrow>
          if err \<noteq> ErrUninitialized then (Inl (LoadFailed err), db)
          else (case load_file env fs legacyConfigPath of
                  Inl e \<Rightarrow> (Inl (LegacyUnreadable e), db)
                | Inr legacy \<Rightarrow>
                    let legacyCfg = ApplyDefaults legacy
                    in (case Validate legacyCfg of
                          Some e \<Rightarrow> (Inl (LegacyInvalid e), db)
                        | None \<Rightarrow>
                            (case Initialize (me_sql env) [] (me_now env) legacyCfg db of
                               (Some e, db1, mirror) \<Rightarrow> (Inl (ImportFailed e), db1)
                             | (None, db1, mirror) \<Rightarrow>
                                 (case store_Load (me_load_fault env 1) db1 of
                                    Inl e \<Rightarrow> (Inl (ReloadFailed e), db1)
                                  | Inr cfg \<Rightarrow> (Inr (cfg, True), db1))))))"

section \<open>Export and import\<close>

definition redactConfigSecrets :: "config \<Rightarrow> config" where
  "redactConfigSecrets cfg =
     cfg\<lparr>cfg_tools := map (\<lambda>t. if tool_password t \<noteq> None then t\<lparr>tool_password := Some ''REDACTED''\<rparr> else t)
                        (cfg_tools cfg)\<rparr>"

definition exportHeader :: string where
  "exportHeader = ''# Exported from the authoritative SQLite configuration database.'' @ [CHR 0x0A]"

datatype export_target = Stdout string | WrittenTo string

definition export_kinds :: "string \<rightharpoonup> flag_kind" where
  "export_kinds = [''db'' \<mapsto> StringFlag, ''output'' \<mapsto> StringFlag, ''redact-secrets'' \<mapsto> BoolFlag]"

definition runConfigExport ::
  "main_env \<Rightarrow> string list \<Rightarrow> fsys \<Rightarrow> database \<Rightarrow> (main_error + export_target) \<times> fsys \<times> database" where
  "runConfigExport env args fs db =
     (case defaultPaths env of
        Inl e \<Rightarrow> (Inl e, fs, db)
      | Inr defs \<Rightarrow>
     (case flag_parse export_kinds Map.empty args of
        Inl e \<Rightarrow> (Inl (Flags e), fs, db)
      | Inr (vals, rest) \<Rightarrow>
     (case store_Open (me_open env) (me_cwd env) (flag_string vals ''db'' (pa_db defs)) [] db of
        (Inl e, db1) \<Rightarrow> (Inl (DatabaseOpen e), fs, db1)
      | (Inr store, db1) \<Rightarrow>
     (case store_Load (me_load_fault env 0) db1 of
        Inl e \<Rightarrow> (Inl (LoadFailed e), fs, db1)
      | Inr cfg0 \<Rightarrow>
          let cfg = (if flag_bool vals ''redact-secrets'' then redactConfigSecrets cfg0 else cfg0);
              output_path = flag_string vals ''output'' ''-''
          in (case me_marshal env cfg of
                Inl e \<Rightarrow> (Inl (MarshalFailed e), fs, db1)
              | Inr body \<Rightarrow>
                  let data = exportHeader @ body
                  in if output_path = ''-'' then
                       (if me_stdout_fails env then (Inl (OutputFailed ''write stdout''), fs, db1)
                        else (Inr (Stdout data), fs, db1))
                     else (case writePrivateAtomic (me_file_faults env) (me_cwd env) (me_temp_name env)
                                  output_path data fs of
                             (Some e, fs1) \<Rightarrow> (Inl (OutputFailed e), fs1, db1)
                           | (None, fs1) \<Rightarrow> (Inr (WrittenTo output_path), fs1, db1)))))))"

definition import_kinds :: "string \<rightharpoonup> flag_kind" where
  "import_kinds = [''db'' \<mapsto> StringFlag, ''input'' \<mapsto> StringFlag, ''mirror-config'' \<mapsto> StringFlag]"

text \<open>
  The result of an import is the number of tools it announces; the files are those after the
  mirror was written, whose failure is only logged.
\<close>

definition write_mirror :: "main_env \<Rightarrow> string \<Rightarrow> config option \<Rightarrow> fsys \<Rightarrow> fsys" where
  "write_mirror env path mirror fs =
     (case mirror of
        None \<Rightarrow> fs
      | Some cfg \<Rightarrow> snd (writeGeneratedMirror (me_file_faults env) (me_cwd env) (me_marshal env)
                        (me_temp_name env) path cfg fs))"

definition runConfigImport ::
  "main_env \<Rightarrow> string list \<Rightarrow> fsys \<Rightarrow> database \<Rightarrow> (main_error + nat) \<times> fsys \<times> database" where
  "runConfigImport env args fs db =
     (case defaultPaths env of
        Inl e \<Rightarrow> (Inl e, fs, db)
      | Inr defs \<Rightarrow>
     (case flag_parse import_kinds Map.empty args of
        Inl e \<Rightarrow> (Inl (Flags e), fs, db)
      | Inr (vals, rest) \<Rightarrow>
          if TrimSpace (flag_string vals ''input'' []) = [] then (Inl InputRequired, fs, db)
          else (case load_file env (fs_now fs) (flag_string vals ''input'' []) of
                  Inl e \<Rightarrow> (Inl (ImportUnreadable e), fs, db)
                | Inr cfg0 \<Rightarrow>
                    let cfg = ApplyDefaults cfg0
                    in (case Validate cfg of
                          Some e \<Rightarrow> (Inl (ImportInvalid e), fs, db)
                        | None \<Rightarrow>
                            (case store_Open (me_open env) (me_cwd env) (flag_string vals ''db'' (pa_db defs))
                                    (flag_string vals ''mirror-config'' []) db of
                               (Inl e, db1) \<Rightarrow> (Inl (DatabaseOpen e), fs, db1)
                             | (Inr store, db1) \<Rightarrow>
                                 (case Replace (me_sql env) (st_mirrorPath store) (me_now env) cfg db1 of
                                    (Some e, db2, mirror) \<Rightarrow> (Inl (ImportFailed e), fs, db2)
                                  | (None, db2, mirror) \<Rightarrow>
                                      (Inr (length (cfg_tools cfg)),
                                       write_mirror env (st_mirrorPath store) mirror fs, db2)))))))"

definition runConfigCommand ::
  "main_env \<Rightarrow> string list \<Rightarrow> fsys \<Rightarrow> database
     \<Rightarrow> (main_error + export_target + nat) \<times> fsys \<times> database" where
  "runConfigCommand env args fs db =
     (case args of
        [] \<Rightarrow> (Inl CommandUsage, fs, db)
      | a # rest \<Rightarrow>
          if a = ''export'' then
            (case runConfigExport env rest fs db of
               (Inl e, fs1, db1) \<Rightarrow> (Inl e, fs1, db1)
             | (Inr r, fs1, db1) \<Rightarrow> (Inr (Inl r), fs1, db1))
          else if a = ''import'' then
            (case runConfigImport env rest fs db of
               (Inl e, fs1, db1) \<Rightarrow> (Inl e, fs1, db1)
             | (Inr n, fs1, db1) \<Rightarrow> (Inr (Inr n), fs1, db1))
          else (Inl (UnknownCommand a), fs, db))"

section \<open>The gateway\<close>

text \<open>
  The persistence behind \<open>New\<close> (internal/gateway/gateway.go), the constructor that writes a YAML file
  instead of the database; the command line does not use it.
\<close>

definition fileConfigPersistence ::
  "file_faults \<Rightarrow> (config \<Rightarrow> string + string) \<Rightarrow> string \<Rightarrow> (string, fsys) persistence" where
  "fileConfigPersistence ff marshal path cfg st = WriteAtomic ff marshal path cfg st"

definition gateway_New ::
  "tls_files \<Rightarrow> file_faults \<Rightarrow> (config \<Rightarrow> string + string) \<Rightarrow> config \<Rightarrow> string \<Rightarrow> string
     \<Rightarrow> (string, fsys) gateway" where
  "gateway_New tls ff marshal cfg configPath addr =
     NewWithStore tls cfg (Some (fileConfigPersistence ff marshal configPath)) addr"

text \<open>
  What a start of the gateway comes to: its error, the log archive it opened, whether it imported
  the legacy file, the gateway it built (none when it failed before or only showed its version)
  and the servers it started.
\<close>

record gateway_run =
  gr_err :: "main_error option"
  gr_archive :: "log_store option"
  gr_migrated :: bool
  gr_gateway :: "(store_error, database) gateway option"
  gr_started :: "started list"

definition stopped :: "main_error option \<Rightarrow> log_store option \<Rightarrow> gateway_run" where
  "stopped err archive = \<lparr>gr_err = err, gr_archive = archive, gr_migrated = False, gr_gateway = None,
     gr_started = []\<rparr>"

definition gateway_kinds :: "string \<rightharpoonup> flag_kind" where
  "gateway_kinds = [''db'' \<mapsto> StringFlag, ''config'' \<mapsto> StringFlag, ''version'' \<mapsto> BoolFlag]"

definition adminAddr :: string where
  "adminAddr = ''127.0.0.1:18090''"

definition open_archive :: "main_env \<Rightarrow> string \<Rightarrow> log_store option" where
  "open_archive env resolvedDBPath =
     (case archive_Open (me_log_open env) (me_log_rotate env) (Join [Dir resolvedDBPath, ''logs''])
             DefaultOptions (me_log_dir env) of
        Inl err \<Rightarrow> None
      | Inr logStore \<Rightarrow> Some logStore)"

definition runGateway ::
  "main_env \<Rightarrow> run_end \<Rightarrow> string list \<Rightarrow> files \<Rightarrow> database \<Rightarrow> gateway_run \<times> database" where
  "runGateway env ending args fs db =
     (case defaultPaths env of
        Inl e \<Rightarrow> (stopped (Some e) None, db)
      | Inr defs \<Rightarrow>
     (case flag_parse gateway_kinds Map.empty args of
        Inl e \<Rightarrow> (stopped (Some (Flags e)) None, db)
      | Inr (vals, rest) \<Rightarrow>
          if flag_bool vals ''version'' then (stopped None None, db)
          else
            let configPath = flag_string vals ''config'' (pa_yaml defs);
                resolvedDBPath = resolveRuntimeDBPath env (flag_string vals ''db'' []) configPath;
                archive = open_archive env resolvedDBPath
            in (case store_Open (me_open env) (me_cwd env) resolvedDBPath configPath db of
                  (Inl e, db1) \<Rightarrow> (stopped (Some (DatabaseOpen e)) archive, db1)
                | (Inr store, db1) \<Rightarrow>
                    (case loadOrMigrate env fs configPath db1 of
                       (Inl e, db2) \<Rightarrow> (stopped (Some e) archive, db2)
                     | (Inr (cfg, migrated), db2) \<Rightarrow>
                         let app0 = NewWithStore (me_tls env) cfg
                               (Some (database_persistence (me_sql env) (st_mirrorPath store) (me_now env))) adminAddr;
                             app = (if archive \<noteq> None then SetLogExporter True app0 else app0)
                         in (case Run ending app of
                               (err, started) \<Rightarrow>
                                 (\<lparr>gr_err = map_option GatewayFailed err, gr_archive = archive,
                                   gr_migrated = migrated, gr_gateway = Some app,
                                   gr_started = started\<rparr>, db2))))))"

section \<open>The process\<close>

datatype main_outcome = ChecksumShown string | ConfigDone "export_target + nat" | GatewayEnded gateway_run

text \<open>\<open>args\<close> are the arguments after the program's name; the exit code comes first.\<close>

definition main_run ::
  "main_env \<Rightarrow> run_end \<Rightarrow> string list \<Rightarrow> fsys \<Rightarrow> database
     \<Rightarrow> nat \<times> (main_error + main_outcome) \<times> fsys \<times> database" where
  "main_run env ending args fs db =
     (if args \<noteq> [] \<and> hd args = ''verify-update-checksum'' then
        (case VerifyUpdateChecksumCommand (me_verifier env) (tl args) of
           Inl e \<Rightarrow> (1, Inl (UpdateRefused e), fs, db)
         | Inr checksum \<Rightarrow> (0, Inr (ChecksumShown checksum), fs, db))
      else if args \<noteq> [] \<and> hd args = ''config'' then
        (case runConfigCommand env (tl args) fs db of
           (Inl e, fs1, db1) \<Rightarrow> (1, Inl e, fs1, db1)
         | (Inr r, fs1, db1) \<Rightarrow> (0, Inr (ConfigDone r), fs1, db1))
      else
        (case runGateway env ending args (fs_now fs) db of
           (r, db1) \<Rightarrow>
             (case gr_err r of
                Some e \<Rightarrow> (1, Inl e, fs, db1)
              | None \<Rightarrow> (0, Inr (GatewayEnded r), fs, db1))))"

section \<open>Facts\<close>

lemma Load_Inr:
  assumes "Load db = Inr cfg"
  shows "ApplyDefaults cfg = cfg" and "config_ok cfg"
  using assms by (auto simp: Load_def Let_def Validate_None_iff split: option.splits)

lemma migrate_version:
  assumes "migrate faults db = (None, db1)" and "db_user_version db2 = db_user_version db1"
  shows "snd (migrate faults' db2) = db2"
  using assms
  by (auto simp: migrate_def schemaVersion_def Let_def exec_def split: if_splits sum.splits option.splits)

lemma store_Open_Inr:
  assumes "store_Open fl cwd path mirrorPath db = (Inr store, db1)"
  shows "migrate (of_sql fl) db = (None, db1)" and "st_mirrorPath store = mirrorPath"
  using assms by (auto simp: store_Open_def split: if_splits option.splits prod.splits)

lemma store_Open_migrated:
  assumes "snd (migrate (of_sql fl) db) = db"
  shows "snd (store_Open fl cwd path mirrorPath db) = db"
  using assms by (auto simp: store_Open_def split: option.splits prod.splits)

lemma replace_tx_version:
  "replace_tx faults now cfg db = Inr db' \<Longrightarrow> db_user_version db' = db_user_version db"
  by (auto simp: replace_tx_def Let_def split: sum.splits option.splits)

text \<open>The three ways a load or import can go well or leave the database alone.\<close>

lemma loadOrMigrate_Inr:
  assumes "loadOrMigrate env fs path db = (Inr (cfg, migrated), db')"
  shows "Load db' = Inr cfg" and "db_user_version db' = db_user_version db"
    and "migrated \<longleftrightarrow> Load db = Inl ErrUninitialized" and "\<not> migrated \<Longrightarrow> db' = db"
proof -
  consider (kept) "Load db = Inr cfg" "\<not> migrated" "db' = db"
    | (imported) legacy mirror where "Load db = Inl ErrUninitialized" "migrated"
        "Initialize (me_sql env) [] (me_now env) legacy db = (None, db', mirror)" "Load db' = Inr cfg"
    using assms
    by (auto simp: loadOrMigrate_def store_Load_def Let_def
        split: option.splits sum.splits if_splits prod.splits)
  then have "Load db' = Inr cfg \<and> db_user_version db' = db_user_version db
    \<and> (migrated \<longleftrightarrow> Load db = Inl ErrUninitialized) \<and> (\<not> migrated \<longrightarrow> db' = db)"
  proof cases
    case kept
    then show ?thesis by simp
  next
    case imported
    then have "replace_tx (me_sql env) (me_now env) (ApplyDefaults legacy) db = Inr db'"
      by (cases "me_sql env" "[] :: string" "me_now env" False legacy db rule: replace_cases)
        (auto simp: Initialize_def)
    with imported replace_tx_version show ?thesis by simp
  qed
  then show "Load db' = Inr cfg" "db_user_version db' = db_user_version db"
    "migrated \<longleftrightarrow> Load db = Inl ErrUninitialized" "\<not> migrated \<Longrightarrow> db' = db" by blast+
qed

lemma runGateway_gateway:
  assumes "runGateway env ending args fs db = (run, db')" and "gr_gateway run = Some app"
  obtains path config_path store db1 where
    "store_Open (me_open env) (me_cwd env) path config_path db = (Inr store, db1)"
    "loadOrMigrate env fs config_path db1 = (Inr (ConfigSnapshot app, gr_migrated run), db')"
    "gateway_SafeOutput app = SafeOutput (ConfigSnapshot app)"
proof -
  from assms obtain path config_path store db1 cfg app0 where
      opened: "store_Open (me_open env) (me_cwd env) path config_path db = (Inr store, db1)"
    and loaded: "loadOrMigrate env fs config_path db1 = (Inr (cfg, gr_migrated run), db')"
    and app: "app0 = NewWithStore (me_tls env) cfg
        (Some (database_persistence (me_sql env) (st_mirrorPath store) (me_now env))) adminAddr"
      "app = app0 \<or> app = SetLogExporter True app0"
    by (auto simp: runGateway_def stopped_def Let_def split: sum.splits prod.splits if_splits)
  have "ConfigSnapshot app = ApplyDefaults cfg" "gateway_SafeOutput app = SafeOutput cfg"
    using app
    by (auto simp: ConfigSnapshot_def gateway_SafeOutput_def NewWithStore_def SetLogExporter_def Let_def)
  moreover have "ApplyDefaults cfg = cfg"
    using loadOrMigrate_Inr(1) [OF loaded] by (rule Load_Inr(1))
  ultimately show ?thesis using that [OF opened] loaded by simp
qed

text \<open>An environment in which nothing fails, and whose YAML knows one configuration.\<close>

definition calm_files :: file_faults where
  "calm_files = \<lparr>ff_fails = (\<lambda>c. False), ff_partial = 0\<rparr>"

definition calm_open :: open_faults where
  "calm_open = \<lparr>of_directory = False, of_open = False, of_pragma = (\<lambda>p. False), of_sql = (\<lambda>c. None),
     of_quick_check = Inr ''ok''\<rparr>"

definition shop :: config where
  "shop = shop_config [shop_tool ''A'' ''10.0.0.1'' 8081]"

definition calm_env :: main_env where
  "calm_env = \<lparr>me_cwd = Some ''/opt'', me_executable = Some ''/opt/gw'', me_db_path_env = [],
     me_unreadable = (\<lambda>p. False), me_unmarshal = (\<lambda>text0. Inr shop), me_marshal = (\<lambda>cfg. Inr ''yaml''),
     me_open = calm_open, me_sql = (\<lambda>c. None), me_load_fault = (\<lambda>n. None), me_now = ''t'',
     me_tls = \<lparr>read_file = (\<lambda>p. Inr []), has_certs = (\<lambda>p. True), load_pair = (\<lambda>a b. None)\<rparr>,
     me_log_open = quiet_os, me_log_rotate = quiet_os, me_log_dir = [], me_file_faults = calm_files,
     me_temp_name = ''/opt/.tmp'', me_stdout_fails = False, me_verifier = test_verifier\<rparr>"

definition new_db :: database where
  "new_db = \<lparr>db_user_version = 0, db_schema = False, db_gateway_settings = None, db_tools = []\<rparr>"

definition first_run :: "gateway_run \<times> database" where
  "first_run = runGateway calm_env Shutdown [] [''/opt/config.yaml'' \<mapsto> ''yaml''] new_db"

section \<open>Properties\<close>

text \<open>
  C13. A gateway runs what its database holds, and a restart runs the same: whatever the files, the
  flags and the answers of the database, a start that gets as far as building the gateway gives it
  the configuration the database then holds, which is valid; and any later start on that database that gets as far, with whatever legacy
  file is lying about by then, imports nothing, leaves the database as it is, and runs the same
  configuration with the same fail-safe state.
\<close>

theorem restart_keeps_configuration:
  assumes "runGateway env ending args fs db = (run, db1)" and "gr_gateway run = Some app"
    and "runGateway env' ending' args' fs' db1 = (run', db2)" and "gr_gateway run' = Some app'"
  shows "Load db1 = Inr (ConfigSnapshot app) \<and> config_ok (ConfigSnapshot app)
    \<and> db2 = db1 \<and> \<not> gr_migrated run' \<and> ConfigSnapshot app' = ConfigSnapshot app
    \<and> gateway_SafeOutput app' = gateway_SafeOutput app"
proof -
  obtain path cfg_path store opened where
      first: "store_Open (me_open env) (me_cwd env) path cfg_path db = (Inr store, opened)"
        "loadOrMigrate env fs cfg_path opened = (Inr (ConfigSnapshot app, gr_migrated run), db1)"
        "gateway_SafeOutput app = SafeOutput (ConfigSnapshot app)"
    using assms(1,2) by (rule runGateway_gateway)
  obtain path' cfg_path' store' opened' where
      again: "store_Open (me_open env') (me_cwd env') path' cfg_path' db1 = (Inr store', opened')"
        "loadOrMigrate env' fs' cfg_path' opened' = (Inr (ConfigSnapshot app', gr_migrated run'), db2)"
        "gateway_SafeOutput app' = SafeOutput (ConfigSnapshot app')"
    using assms(3,4) by (rule runGateway_gateway)
  have loaded: "Load db1 = Inr (ConfigSnapshot app)" using first(2) by (rule loadOrMigrate_Inr(1))
  have "opened' = db1"
    using store_Open_migrated [OF migrate_version [OF store_Open_Inr(1) [OF first(1)]
        loadOrMigrate_Inr(2) [OF first(2)]]] again(1)
    by (metis snd_conv)
  with loadOrMigrate_Inr [OF again(2)] loaded
  have "\<not> gr_migrated run'" "db2 = db1" "ConfigSnapshot app' = ConfigSnapshot app" by auto
  with loaded Load_Inr(2) [OF loaded] first(3) again(3) show ?thesis by simp
qed

text \<open>The first start imports the file; a second one finds another file and keeps the first.\<close>

theorem restart_keeps_configuration_witness:
  "\<exists>app app'. gr_gateway (fst first_run) = Some app \<and> gr_migrated (fst first_run)
     \<and> gr_gateway (fst (runGateway calm_env Shutdown [] Map.empty (snd first_run))) = Some app'
     \<and> ConfigSnapshot app' = ConfigSnapshot app"
proof -
  obtain run db1 where first: "first_run = (run, db1)" by fastforce
  obtain run' db2 where again: "runGateway calm_env Shutdown [] Map.empty db1 = (run', db2)" by fastforce
  have "gr_gateway (fst first_run) \<noteq> None" "gr_migrated (fst first_run)"
    "gr_gateway (fst (runGateway calm_env Shutdown [] Map.empty (snd first_run))) \<noteq> None" by code_simp+
  then have "gr_gateway run \<noteq> None" "gr_migrated run" "gr_gateway run' \<noteq> None"
    unfolding first fst_conv snd_conv again .
  then obtain app app' where apps: "gr_gateway run = Some app" "gr_gateway run' = Some app'" by blast
  have "ConfigSnapshot app' = ConfigSnapshot app"
    using restart_keeps_configuration [OF first [unfolded first_run_def] apps(1) again apps(2)] by (elim conjE)
  with apps \<open>gr_migrated run\<close> show ?thesis unfolding first fst_conv snd_conv again fst_conv by blast
qed

end
