(* ===== verification/Config_Backup.thy ===== *)
theory Config_Backup
  imports Main_Cmd
begin

text \<open>
  What an export is worth: on a machine where nothing fails, the export of a saved configuration
  followed by its import into an empty database gives the same configuration; an export without
  secrets says nothing about them and is refused by an import.
\<close>

section \<open>Writing to an empty table\<close>

definition row_of :: "int \<Rightarrow> nat \<Rightarrow> string \<Rightarrow> tool \<Rightarrow> tool_row" where
  "row_of rid k now t = \<lparr>tr_id = rid, tr_sort_order = int k,
     tr_interlock_name = TrimSpace (tool_interlock_name t), tr_ip = TrimSpace (tool_ip t),
     tr_protocol = ToolProtocol t, tr_port = tool_port t, tr_switch_id = tool_switch_id t,
     tr_username = tool_username t, tr_password = tool_password t,
     tr_enabled = boolInt (tool_enabled t), tr_created_at = now, tr_updated_at = now\<rparr>"

text \<open>Tools whose rows pass every constraint of the table.\<close>

definition tools_fit :: "tool list \<Rightarrow> bool" where
  "tools_fit ts \<longleftrightarrow> list_all (\<lambda>t. tool_check (row_of 0 0 [] t) = None) ts
     \<and> distinct (map (TrimSpace \<circ> tool_interlock_name) ts) \<and> distinct (map (TrimSpace \<circ> tool_ip) ts)
     \<and> distinct (map tool_port ts)"

definition rows_below :: "int \<Rightarrow> nat \<Rightarrow> tool list \<Rightarrow> tool_row list \<Rightarrow> bool" where
  "rows_below n k ts rows \<longleftrightarrow> (\<forall>r \<in> set rows. tr_id r < n \<and> tr_sort_order r < int k
     \<and> tr_interlock_name r \<notin> (TrimSpace \<circ> tool_interlock_name) ` set ts
     \<and> tr_ip r \<notin> (TrimSpace \<circ> tool_ip) ` set ts \<and> tr_port r \<notin> tool_port ` set ts)"

lemma tool_check_row_of: "tool_check (row_of rid k now t) = tool_check (row_of 0 0 [] t)"
  by (simp add: tool_check_def row_of_def)

lemma preserved_Nil [simp]: "preserved [] t = None"
  by (simp add: preserved_def nameCount_def byPort_def Let_def)

lemma insertTool_fresh:
  assumes "tool_check (row_of 0 0 [] t) = None" and "tool_unique (row_of rid k now t) rows = None"
  shows "insertTool None rid k t (ToolProtocol t) now now rows = Inr (rows @ [row_of rid k now t])"
proof -
  have "\<lparr>tr_id = rid, tr_sort_order = int k, tr_interlock_name = TrimSpace (tool_interlock_name t),
      tr_ip = TrimSpace (tool_ip t), tr_protocol = ToolProtocol t, tr_port = tool_port t,
      tr_switch_id = tool_switch_id t, tr_username = stringPtrValue (tool_username t),
      tr_password = stringPtrValue (tool_password t), tr_enabled = boolInt (tool_enabled t),
      tr_created_at = now, tr_updated_at = now\<rparr> = row_of rid k now t"
    by (simp add: row_of_def stringPtrValue_def split: option.split)
  with assms show ?thesis by (simp add: insertTool_def tool_check_row_of [of rid k now t])
qed

lemma write_tools_fresh:
  assumes "tools_fit ts" and "rows_below n k ts rows"
  shows "\<exists>rows'. write_tools (\<lambda>c. None) now [] n k ts rows = Inr rows'"
  using assms
proof (induction ts arbitrary: n k rows)
  case Nil
  then show ?case by simp
next
  case (Cons t ts)
  have unique: "tool_unique (row_of n k now t) rows = None"
    using Cons.prems(2) by (fastforce simp: tool_unique_def row_of_def rows_below_def list_ex_iff)
  have "tools_fit ts" using Cons.prems(1) by (simp add: tools_fit_def)
  moreover have "rows_below (n + 1) (Suc k) ts (rows @ [row_of n k now t])"
    using Cons.prems by (fastforce simp: rows_below_def tools_fit_def row_of_def)
  ultimately obtain rows' where
      "write_tools (\<lambda>c. None) now [] (n + 1) (Suc k) ts (rows @ [row_of n k now t]) = Inr rows'"
    using Cons.IH by blast
  moreover have "tool_check (row_of 0 0 [] t) = None" using Cons.prems(1) by (simp add: tools_fit_def)
  ultimately show ?case using insertTool_fresh [OF _ unique] by simp
qed

text \<open>What was saved once fits again.\<close>

lemma load_tool_fields:
  "tool_interlock_name (load_tool r) = tr_interlock_name r" "tool_ip (load_tool r) = tr_ip r"
  "tool_port (load_tool r) = tr_port r"
  by (simp_all add: load_tool_def)

lemma stored_row_trimmed:
  assumes "load_tool r = stored_tool t"
  shows "TrimSpace (tr_interlock_name r) = tr_interlock_name r" and "TrimSpace (tr_ip r) = tr_ip r"
  unfolding load_tool_fields [symmetric] assms by (simp_all add: stored_tool_def TrimSpace_idem)

lemma tool_check_times: "tool_check (r\<lparr>tr_created_at := a, tr_updated_at := b\<rparr>) = tool_check r"
  by (simp add: tool_check_def)

lemma row_of_stored:
  assumes "load_tool r = stored_tool t" and "tool_check r = None"
  shows "row_of (tr_id r) (nat (tr_sort_order r)) now (load_tool r)
    = r\<lparr>tr_created_at := now, tr_updated_at := now\<rparr>"
proof -
  note fixed = stored_row_trimmed [OF assms(1)]
  have "TrimSpace ''http'' = ''http''" "TrimSpace ''https'' = ''https''"
    "ToLower ''http'' = ''http''" "ToLower ''https'' = ''https''"
    by code_simp+
  moreover have "tr_protocol r = ''http'' \<or> tr_protocol r = ''https''"
    using assms(2) by (auto simp: tool_check_def split: if_splits)
  ultimately have "ToolProtocol (load_tool r) = tr_protocol r"
    by (auto intro!: ToolProtocol_fixed simp: load_tool_def)
  moreover have "boolInt (tr_enabled r \<noteq> 0) = tr_enabled r" "0 \<le> tr_sort_order r"
    using assms(2) by (auto simp: tool_check_def boolInt_def split: if_splits)
  ultimately show ?thesis
    using fixed by (simp add: row_of_def load_tool_def nullStringPtr_def split: option.split)
qed

lemma saved_tools_fit:
  assumes "table_ok rows" and "map load_tool rows = map stored_tool ts"
  shows "tools_fit (map stored_tool ts)"
proof -
  have row: "tool_check (row_of 0 0 [] (load_tool r)) = None \<and> TrimSpace (tr_interlock_name r) = tr_interlock_name r
      \<and> TrimSpace (tr_ip r) = tr_ip r" if "r \<in> set rows" for r
  proof -
    have ok: "tool_check r = None" using assms(1) that by (simp add: table_ok_def list_all_iff)
    have "load_tool r \<in> set (map stored_tool ts)"
      unfolding assms(2) [symmetric] set_map using that by (rule imageI)
    then obtain t where t: "load_tool r = stored_tool t" unfolding set_map by (rule imageE)
    have "tool_check (r\<lparr>tr_created_at := [], tr_updated_at := []\<rparr>) = None"
      unfolding tool_check_times using ok .
    then have "tool_check (row_of 0 0 [] (load_tool r)) = None"
      unfolding row_of_stored [OF t ok, of "[]", symmetric]
      by (simp only: tool_check_row_of [of "tr_id r" "nat (tr_sort_order r)"])
    with stored_row_trimmed [OF t] show ?thesis by simp
  qed
  have names: "map (TrimSpace \<circ> tool_interlock_name \<circ> load_tool) rows = map tr_interlock_name rows"
    and ips: "map (TrimSpace \<circ> tool_ip \<circ> load_tool) rows = map tr_ip rows"
    and ports: "map (tool_port \<circ> load_tool) rows = map tr_port rows"
    by (simp_all add: load_tool_fields row)
  have "list_all (\<lambda>t. tool_check (row_of 0 0 [] t) = None) (map load_tool rows)"
    by (simp add: list_all_iff row)
  with assms(1) show ?thesis
    unfolding assms(2) [symmetric] tools_fit_def map_map names ips ports table_ok_def by blast
qed

section \<open>Saving again what was saved\<close>

lemma stored_state_fixed:
  assumes "settings_check (settings_of c now) = None"
  shows "settings_check (settings_of (stored_config c) now') = None"
    and "ToLower (TrimSpace (safe_state_on_error (cfg_defaults (stored_config c))))
      = safe_state_on_error (cfg_defaults (stored_config c))"
proof -
  let ?v = "ToLower (TrimSpace (safe_state_on_error (cfg_defaults c)))"
  have "sql_lower ?v = ?v" by (simp add: sql_lower_def ToLower_def comp_def)
  with assms have v: "?v = ''on'' \<or> ?v = ''off''"
    by (auto simp: settings_check_def settings_of_def split: if_splits)
  have "ToLower (TrimSpace ''on'') = ''on''" "ToLower (TrimSpace ''off'') = ''off''" by code_simp+
  with v have fixed: "ToLower (TrimSpace ?v) = ?v" by auto
  then show "ToLower (TrimSpace (safe_state_on_error (cfg_defaults (stored_config c))))
      = safe_state_on_error (cfg_defaults (stored_config c))" by (simp add: stored_config_def)
  from assms fixed show "settings_check (settings_of (stored_config c) now') = None"
    by (simp add: settings_check_def settings_of_def stored_config_def split: if_splits)
qed

lemma stored_tool_idem: "tool_ok t \<Longrightarrow> stored_tool (stored_tool t) = stored_tool t"
  using ToolProtocol_stored [of t]
  by (simp add: stored_tool_def [of "stored_tool t"] tool_ok_def)
    (simp add: stored_tool_def TrimSpace_idem)

lemma stored_config_idem:
  assumes "settings_check (settings_of c now) = None" and "config_ok c"
  shows "stored_config (stored_config c) = stored_config c"
proof -
  have "map stored_tool (cfg_tools (stored_config c)) = cfg_tools (stored_config c)"
    using assms(2) by (auto simp: stored_config_def config_ok_def tools_config_ok_def list_all_iff stored_tool_idem)
  then show ?thesis
    using stored_state_fixed(2) [OF assms(1)]
    by (cases c; cases "cfg_defaults c") (simp add: stored_config_def)
qed

lemma replace_again:
  assumes "replace faults mp t0 w cfg0 db0 = (None, db, m)" and "Load db = Inr cfg"
    and "db_tools new = []"
  shows "\<exists>new' m'. Replace (\<lambda>c. None) mp' now cfg new = (None, new', m') \<and> Load new' = Inr cfg"
proof -
  let ?c = "ApplyDefaults cfg0"
  have tx: "replace_tx faults t0 ?c db0 = Inr db" and ok: "config_ok ?c"
    using assms(1) by (cases faults mp t0 w cfg0 db0 rule: replace_cases; simp)+
  note saved = replace_tx_Inr [OF tx]
  have cfg: "cfg = stored_config ?c"
    using Load_replaced [OF tx ApplyDefaults_idem ok] assms(2) by simp
  note fixed = Load_Inr [OF assms(2)]
  have settings: "settings_check (settings_of cfg now) = None"
    unfolding cfg using saved(2) by (rule stored_state_fixed(1))
  have "tools_fit (cfg_tools cfg)"
    using saved_tools_fit [OF _ saved(3)] saved(5) by (simp add: cfg stored_config_def db_ok_def)
  then obtain rows where "write_tools (\<lambda>c. None) now [] 1 0 (cfg_tools cfg) [] = Inr rows"
    using write_tools_fresh [of "cfg_tools cfg" 1 0 "[]"] by (auto simp: rows_below_def)
  then obtain new' where new': "replace_tx (\<lambda>c. None) now cfg new = Inr new'"
    using settings assms(3)
    by (simp add: replace_tx_def exec_def loadExistingTools_def first_free_id_def)
  have "stored_config cfg = cfg" unfolding cfg using saved(2) ok by (rule stored_config_idem)
  with Load_replaced [OF new' fixed] have "Load new' = Inr cfg" by simp
  moreover have "Validate cfg = None" using fixed(2) by (simp add: Validate_None_iff)
  ultimately show ?thesis
    using new' fixed(1) by (simp add: Replace_def replace_def)
qed

section \<open>The commands where nothing fails\<close>

definition healthy :: "main_env \<Rightarrow> bool" where
  "healthy env \<longleftrightarrow> me_executable env \<noteq> None \<and> me_cwd env \<noteq> None \<and> me_unreadable env = (\<lambda>p. False)
     \<and> me_open env = calm_open \<and> me_sql env = (\<lambda>c. None) \<and> me_load_fault env = (\<lambda>n. None)
     \<and> me_file_faults env = calm_files"

definition tls_resolved :: "tls_config \<Rightarrow> bool" where
  "tls_resolved tls \<longleftrightarrow> list_all (\<lambda>p. TrimSpace p = p \<and> (p = [] \<or> IsAbs p))
     [server_ca_file tls, client_cert_file tls, client_key_file tls]"

lemma resolveRelativePath_resolved:
  "TrimSpace p = p \<Longrightarrow> p = [] \<or> IsAbs p \<Longrightarrow> resolveRelativePath base p = p"
  by (auto simp: resolveRelativePath_def)

lemma config_Load_resolved:
  assumes "Abs cwd path = Some target" and "readFile target = Some data" and "unmarshal data = Inr cfg"
    and "tls_resolved (shelly_tls (cfg_defaults cfg))"
  shows "config_Load cwd readFile unmarshal path = Inr cfg"
  using assms
  by (cases cfg; cases "cfg_defaults cfg"; cases "shelly_tls (cfg_defaults cfg)")
    (simp add: config_Load_def tls_resolved_def resolveRelativePath_resolved)

lemma defaultPaths_healthy: "healthy env \<Longrightarrow> \<exists>defs. defaultPaths env = Inr defs"
  by (auto simp: healthy_def defaultPaths_def Let_def)

lemma store_Open_healthy:
  assumes "healthy env" and "TrimSpace d \<noteq> []" and "db_user_version db = schemaVersion"
  shows "\<exists>p. store_Open (me_open env) (me_cwd env) d mp db = (Inr \<lparr>st_path = p, st_mirrorPath = mp\<rparr>, db)"
  using assms
  by (auto simp: healthy_def store_Open_def Abs_def calm_open_def configure_def pragmas_def migrate_def
      QuickCheck_def)

lemma export_args:
  "flag_parse export_kinds Map.empty [''-db'', d, ''-output'', out]
     = Inr ([''db'' \<mapsto> d, ''output'' \<mapsto> out], [])"
proof -
  have "read_flag ''-db'' = Flag ''db'' None" "read_flag ''-output'' = Flag ''output'' None"
    by code_simp+
  then show ?thesis by (simp add: export_kinds_def)
qed

lemma import_args:
  "flag_parse import_kinds Map.empty [''-db'', d, ''-input'', file]
     = Inr ([''db'' \<mapsto> d, ''input'' \<mapsto> file], [])"
proof -
  have "read_flag ''-db'' = Flag ''db'' None" "read_flag ''-input'' = Flag ''input'' None"
    by code_simp+
  then show ?thesis by (simp add: import_kinds_def)
qed

text \<open>An export to a file, and an import from one.\<close>

lemma export_writes:
  assumes "healthy env" and "TrimSpace d \<noteq> []" and "db_user_version db = schemaVersion"
    and "Load db = Inr cfg" and "me_marshal env cfg = Inr body" and "out \<noteq> ''-''"
    and "Abs (me_cwd env) out = Some target" and "me_temp_name env \<noteq> target"
    and "fs_now fs (me_temp_name env) = None"
  shows "\<exists>fs1. runConfigExport env [''-db'', d, ''-output'', out] fs db = (Inr (WrittenTo out), fs1, db)
    \<and> fs_now fs1 target = Some (exportHeader @ body)"
proof -
  from defaultPaths_healthy [OF assms(1)] obtain defs where defs: "defaultPaths env = Inr defs" ..
  from store_Open_healthy [OF assms(1-3), of "[]"] obtain p where
    "store_Open (me_open env) (me_cwd env) d [] db = (Inr \<lparr>st_path = p, st_mirrorPath = []\<rparr>, db)" ..
  moreover obtain err fs1 where
    run: "replace_by_temp calm_files (me_temp_name env) target (exportHeader @ body) fs = (err, fs1)"
    by fastforce
  moreover have "err = None"
    using run assms(9) by (auto simp: replace_by_temp_def calm_files_def Let_def)
  ultimately have "runConfigExport env [''-db'', d, ''-output'', out] fs db = (Inr (WrittenTo out), fs1, db)"
    using assms defs
    by (simp add: runConfigExport_def export_args flag_string_def flag_bool_def store_Load_def healthy_def
        writePrivateAtomic_def calm_files_def del: flag_parse.simps)
  with replace_by_temp_target(1) [OF run assms(8)] \<open>err = None\<close> show ?thesis by simp
qed

lemma import_reads:
  assumes "healthy env" and "TrimSpace d \<noteq> []" and "db_user_version db = schemaVersion"
    and "TrimSpace file \<noteq> []" and "Abs (me_cwd env) file = Some target" and "fs_now fs target = Some data"
    and "me_unmarshal env data = Inr cfg" and "tls_resolved (shelly_tls (cfg_defaults cfg))"
    and "ApplyDefaults cfg = cfg" and "config_ok cfg"
    and "Replace (\<lambda>c. None) [] (me_now env) cfg db = (None, db', m)"
  shows "\<exists>fs1. runConfigImport env [''-db'', d, ''-input'', file] fs db
    = (Inr (length (cfg_tools cfg)), fs1, db')"
proof -
  from defaultPaths_healthy [OF assms(1)] obtain defs where defs: "defaultPaths env = Inr defs" ..
  from store_Open_healthy [OF assms(1-3), of "[]"] obtain p where
    opened: "store_Open (me_open env) (me_cwd env) d [] db = (Inr \<lparr>st_path = p, st_mirrorPath = []\<rparr>, db)" ..
  have "load_file env (fs_now fs) file = Inr cfg"
    using assms(1) config_Load_resolved [where readFile = "fs_now fs" and unmarshal = "me_unmarshal env", OF assms(5-8)]
    by (simp add: load_file_def healthy_def)
  moreover have "Validate cfg = None" using assms(10) by (simp add: Validate_None_iff)
  moreover have "me_sql env = (\<lambda>c. None)" using assms(1) by (simp add: healthy_def)
  ultimately show ?thesis
    using defs opened assms(4,9,11)
    by (simp add: runConfigImport_def import_args flag_string_def write_mirror_def del: flag_parse.simps)
qed

section \<open>Properties\<close>

text \<open>
  C14. A backup restores: on machines where nothing fails, a configuration that was saved, exported
  to a file and imported from it into a database without tools is loaded there exactly as it was;
  both commands succeed, and the exported database is not changed. What YAML is asked for is to
  read back this configuration from its own text behind the header comment; the certificate paths
  are those a load of a configuration file leaves, absolute or empty.
\<close>

theorem backup_restores:
  assumes "replace faults mp t0 w cfg0 db0 = (None, db, m)" and "Load db = Inr cfg"
    and "db_user_version db = schemaVersion" and "tls_resolved (shelly_tls (cfg_defaults cfg))"
    and "healthy env" and "healthy env'" and "me_cwd env' = me_cwd env"
    and "me_marshal env cfg = Inr body" and "me_unmarshal env' (exportHeader @ body) = Inr cfg"
    and "Abs (me_cwd env) out = Some target" and "out \<noteq> ''-''" and "TrimSpace out \<noteq> []"
    and "me_temp_name env \<noteq> target" and "fs_now fs (me_temp_name env) = None"
    and "TrimSpace d \<noteq> []" and "TrimSpace d' \<noteq> []"
    and "db_tools new = []" and "db_user_version new = schemaVersion"
  shows "\<exists>fs1 fs2 new'. runConfigExport env [''-db'', d, ''-output'', out] fs db = (Inr (WrittenTo out), fs1, db)
    \<and> runConfigImport env' [''-db'', d', ''-input'', out] fs1 new = (Inr (length (cfg_tools cfg)), fs2, new')
    \<and> Load new' = Inr cfg"
proof -
  from export_writes [OF assms(5,15,3,2,8,11,10,13,14)] obtain fs1 where
      exported: "runConfigExport env [''-db'', d, ''-output'', out] fs db = (Inr (WrittenTo out), fs1, db)"
    and content: "fs_now fs1 target = Some (exportHeader @ body)" by blast
  from replace_again [OF assms(1,2,17)] obtain new' m' where
      saved: "Replace (\<lambda>c. None) [] (me_now env') cfg new = (None, new', m')" and loaded: "Load new' = Inr cfg"
    by blast
  have "Abs (me_cwd env') out = Some target" using assms(7,10) by simp
  from import_reads [OF assms(6,16,18,12) this content assms(9,4) Load_Inr [OF assms(2)] saved] exported loaded
  show ?thesis by blast
qed

definition saved_shop :: "store_error option \<times> database \<times> config option" where
  "saved_shop = replace (\<lambda>c. None) [] ''t0'' False shop empty_db"

theorem backup_restores_witness:
  "\<exists>new' fs2. runConfigImport calm_env [''-db'', ''/new.db'', ''-input'', ''/b.yaml'']
       (fst (snd (runConfigExport calm_env [''-db'', ''/old.db'', ''-output'', ''/b.yaml'']
          \<lparr>fs_now = Map.empty, fs_past = []\<rparr> (fst (snd saved_shop))))) empty_db = (Inr 1, fs2, new')
     \<and> Load new' = Inr shop"
proof -
  obtain err db m where all: "saved_shop = (err, db, m)" by (metis prod.exhaust)
  have "fst saved_shop = None" "db_user_version (fst (snd saved_shop)) = schemaVersion"
    "case Load (fst (snd saved_shop)) of Inl e \<Rightarrow> False | Inr cfg \<Rightarrow> cfg = shop"
    by code_simp+
  then have saved: "replace (\<lambda>c. None) [] ''t0'' False shop empty_db = (None, db, m)"
    and version: "db_user_version db = schemaVersion" and loaded: "Load db = Inr shop"
    by (simp_all add: all saved_shop_def [symmetric] split: sum.splits)
  have healthy: "healthy calm_env" by (simp add: healthy_def calm_env_def)
  have tls: "tls_resolved (shelly_tls (cfg_defaults shop))" by code_simp
  have path: "Abs (me_cwd calm_env) ''/b.yaml'' = Some ''/b.yaml''" by code_simp
  have yaml: "me_marshal calm_env shop = Inr ''yaml''"
    "me_unmarshal calm_env (exportHeader @ ''yaml'') = Inr shop" by (simp_all add: calm_env_def)
  have temp: "me_temp_name calm_env \<noteq> ''/b.yaml''" by (simp add: calm_env_def)
  have names: "''/b.yaml'' \<noteq> ''-''" "TrimSpace ''/b.yaml'' \<noteq> []" "TrimSpace ''/old.db'' \<noteq> []"
    "TrimSpace ''/new.db'' \<noteq> []" by code_simp+
  have target: "db_tools empty_db = []" "db_user_version empty_db = schemaVersion"
    by (simp_all add: empty_db_def schemaVersion_def)
  have fresh: "fs_now \<lparr>fs_now = Map.empty, fs_past = []\<rparr> (me_temp_name calm_env) = None" by simp
  have count: "length (cfg_tools shop) = 1" by (simp add: shop_def shop_config_def)
  from backup_restores [OF saved loaded version tls healthy healthy refl yaml path names(1,2) temp fresh
      names(3,4) target] obtain fs1 fs2 new' where
    "runConfigExport calm_env [''-db'', ''/old.db'', ''-output'', ''/b.yaml''] \<lparr>fs_now = Map.empty, fs_past = []\<rparr> db
       = (Inr (WrittenTo ''/b.yaml''), fs1, db)"
    "runConfigImport calm_env [''-db'', ''/new.db'', ''-input'', ''/b.yaml''] fs1 empty_db
       = (Inr (length (cfg_tools shop)), fs2, new')" "Load new' = Inr shop" by blast
  then show ?thesis unfolding all count by (simp del: One_nat_def)
qed

text \<open>
  C39. An export without secrets gives none away: two databases whose configurations differ in the
  text of passwords only are exported with -redact-secrets to the same bytes, wherever they go; and
  no tool of what is exported has any password but the word REDACTED.
\<close>

theorem redacted_export_hides_passwords:
  assumes "flag_parse export_kinds Map.empty args = Inr (vals, rest)" and "flag_bool vals ''redact-secrets''"
    and "db_user_version db1 = schemaVersion" and "db_user_version db2 = schemaVersion"
    and "Load db1 = Inr cfg1" and "Load db2 = Inr cfg2"
    and "redactConfigSecrets cfg1 = redactConfigSecrets cfg2"
    and "runConfigExport env args fs db1 = (res1, fs1, db1')" and "runConfigExport env args fs db2 = (res2, fs2, db2')"
  shows "res1 = res2 \<and> fs1 = fs2
    \<and> (\<forall>t \<in> set (cfg_tools (redactConfigSecrets cfg1)). tool_password t \<in> {None, Some ''REDACTED''})"
proof -
  have current: "migrate f db = (None, db)" if "db_user_version db = schemaVersion" for f db
    using that by (simp add: migrate_def)
  have "res1 = res2 \<and> fs1 = fs2"
  proof (cases "defaultPaths env")
    case (Inl e)
    with assms(8,9) show ?thesis by (simp add: runConfigExport_def)
  next
    case (Inr defs)
    let ?opened = "\<lambda>db. store_Open (me_open env) (me_cwd env) (flag_string vals ''db'' (pa_db defs)) [] db"
    obtain r where opened: "?opened db1 = (r, db1)" "?opened db2 = (r, db2)"
      using assms(3,4) current
      by (cases "fst (?opened db1)") (auto simp: store_Open_def split: if_splits option.splits)
    with assms Inr show ?thesis
      by (cases r; cases "me_load_fault env 0")
        (auto simp: runConfigExport_def store_Load_def Let_def split: sum.splits if_splits prod.splits option.splits)
  qed
  then show ?thesis by (auto simp: redactConfigSecrets_def)
qed

text \<open>One tool, with either of two passwords of the form the schema asks for.\<close>

definition locked_shop :: "char \<Rightarrow> config" where
  "locked_shop c = shop_config [(shop_tool ''A'' ''10.0.0.1'' 8081)\<lparr>tool_password := Some (replicate 32 c)\<rparr>]"

definition locked_db :: "char \<Rightarrow> database" where
  "locked_db c = fst (snd (replace (\<lambda>c. None) [] ''t0'' False (locked_shop c) empty_db))"

lemma locked_db_holds:
  assumes "c = CHR ''a'' \<or> c = CHR ''b''"
  shows "db_user_version (locked_db c) = schemaVersion \<and> Load (locked_db c) = Inr (locked_shop c)"
proof -
  have "\<forall>c \<in> set [CHR ''a'', CHR ''b'']. db_user_version (locked_db c) = schemaVersion
      \<and> (case Load (locked_db c) of Inl e \<Rightarrow> False | Inr cfg \<Rightarrow> cfg = locked_shop c)"
    by code_simp
  with assms show ?thesis by (auto split: sum.splits)
qed

theorem redacted_export_hides_passwords_witness:
  "locked_shop (CHR ''a'') \<noteq> locked_shop (CHR ''b'')
   \<and> fst (runConfigExport calm_env [''-redact-secrets''] mirror_files (locked_db (CHR ''a'')))
     = fst (runConfigExport calm_env [''-redact-secrets''] mirror_files (locked_db (CHR ''b'')))"
proof -
  have args: "flag_parse export_kinds Map.empty [''-redact-secrets''] = Inr ([''redact-secrets'' \<mapsto> ''true''], [])"
  proof -
    have "read_flag ''-redact-secrets'' = Flag ''redact-secrets'' None" by code_simp
    then show ?thesis by (simp add: export_kinds_def)
  qed
  have redact: "flag_bool [''redact-secrets'' \<mapsto> ''true''] ''redact-secrets''" by (simp add: flag_bool_def)
  have same: "redactConfigSecrets (locked_shop (CHR ''a'')) = redactConfigSecrets (locked_shop (CHR ''b''))"
    by code_simp
  note a = locked_db_holds [of "CHR ''a''", simplified] and b = locked_db_holds [of "CHR ''b''", simplified]
  obtain res1 fs1 db1 res2 fs2 db2 where
    runs: "runConfigExport calm_env [''-redact-secrets''] mirror_files (locked_db (CHR ''a'')) = (res1, fs1, db1)"
      "runConfigExport calm_env [''-redact-secrets''] mirror_files (locked_db (CHR ''b'')) = (res2, fs2, db2)"
    by (metis prod.exhaust)
  from redacted_export_hides_passwords [OF args redact conjunct1 [OF a] conjunct1 [OF b] conjunct2 [OF a]
      conjunct2 [OF b] same runs]
  have "res1 = res2" by (elim conjE)
  moreover have "locked_shop (CHR ''a'') \<noteq> locked_shop (CHR ''b'')" by code_simp
  ultimately show ?thesis unfolding runs fst_conv by blast
qed





end
