(* ===== verification/Spec2Isabelle.thy ===== *)
theory Spec2Isabelle
  imports Fbs_Server Shelly_Slot Gateway_Core Admin_Http Update_Auth Log_Queue Port_Clearing Config_Backup
begin

text \<open>
  The FBS interlock gateway lets a facility's booking system switch power outlets (Shelly relays)
  that interlock laboratory tools. This development models the Go sources under src/internal and
  proves what makes the gateway trustworthy: the booking system is never told that a tool is on
  unless its device said so, devices are driven by one request at a time, configurations are
  saved whole or not at all, status pages do not go back in time, administration is guarded, logs
  are bounded and in order, and updates are signed.

  Theories, in the order of their imports:

  \<^item> Gateway_Prelude: Go strings as lists of bytes (white space, case, splitting, decimal texts),
    errors as options, counted loops.
  \<^item> Config_Model (config/config.go): the configuration, defaults, validators and what they decide.
  \<^item> Status_Interface, Status_Store (status/store.go): the table of tool states shared by
    production and administration; the interface the tool servers use is a locale, the table its
    interpretation. A result counts by its revision: a tool server draws one once its
    device has answered, a fleet refresh draws one for all its results when it is requested.
  \<^item> Shelly_Errors (shelly/error.go), Shelly_Digest (shelly/digest.go): HTTP errors; SHA-256
    digest sessions, parsing of challenges rune by rune, headers with nonce counts and what a device
    reads in them.
  \<^item> Shelly_Slot: the per-device slot that production requests take from administration
    (acquireAdmin, acquireFBS, release) as a step relation over any number of requests.
  \<^item> Shelly_Recovery: the table of scheduled reboots.
  \<^item> Shelly_Requests, Shelly_Client, Shelly_Transport (shelly/client.go): a request with its
    phases, retries, authentication and recovery; status, set, reboot; the transport. What
    network, device, clock and random source do is an environment asked for each event; the
    history of events is the state the theorems speak of.
  \<^item> Fbs_Writer, Fbs_Server (fbs/server.go): HTTP answers and the interface a handler writes to
    (locale \<open>forwarding_writer\<close>, interpreted on the connection and on the recorder); the handlers and
    middleware of one tool server, over interfaces of client and status table.
  \<^item> Config_Store (configstore/store.go): the SQLite tables with their constraints, transactions
    that may fail at every call, saving with preserved identities, loading.
  \<^item> Gateway_Core (gateway/gateway.go): the running configuration, updates through the interface
    \<open>config_persistence\<close> (interpreted on the database), what Run starts.
  \<^item> Admin_Config, Admin_Status, Admin_Http (admin/server.go): the configuration form, the fleet
    refresh as a step relation over its worker pool, the HTTP handlers and their guards.
  \<^item> Log_Archive, Log_Bounds (applog/store.go): the rotating archive; that its two-pass cleanup is
    one walk from the oldest file on; the bounds on files and directory.
  \<^item> Log_Queue (applog/async.go): the queue before the archive; the archive is the interpretation
    of the locale \<open>log_sink\<close>. Closing ends with the worker done, which closes the archive, or at a
    deadline, which leaves it open.
  \<^item> Go_Flags: parsing of command lines, and paths, as the standard library does both.
  \<^item> Update_Auth (updateauth/verify.go): flags, key, signature and checksum line of an update.
  \<^item> Config_Files (config/config.go, configstore/store.go): reading and writing of configuration
    files and the generated mirror, call by call of the file system; opening the database.
  \<^item> Main_Cmd (cmd/fbs-interlock-gateway/main.go): paths, first start, export, import, what a start
    of the gateway puts together, exit codes. Config_Backup: what an export is worth.
  \<^item> Port_Clearing (process/kill.go): the external command that clears a port.
  \<^item> This theory: what spans components, from the booking system's request to the device's answer
    and from the admin form to the database.

  Conventions. A Go string is a list of characters read as bytes; case mapping is that of ASCII,
  where strings.ToLower and strings.EqualFold map other letters as well. The one loop over runes,
  the splitter of digest challenges, is modelled on the UTF-8 sequences it decodes. A request of
  the Shelly client is one call of http.Client.Do: the redirects and resends of the standard
  library happen inside it. An answer's body is what the handler wrote; to a HEAD net/http sends
  none of it.
  Unbounded loops do not occur: retries are counted loops with the bounds of the source (two
  status attempts, six authentication attempts, a thousand file names), the flags are consumed by
  structural recursion, and concurrent parts are step relations whose executions are bounded by a
  measure (a refresh, draining the log queue, 3075 steps of the worker being three per queued job
  and three for the one in hand). Integers are unbounded where the code stays in range; the nonce
  count, the nanoseconds of a timeout and the revisions are treated at their width or shown to
  stay in range. A panic is an outcome of the client's interface.

  Hypotheses. Code outside the repository is an argument: SHA-256 and Ed25519, JSON coding of
  the larger payloads, URL parsing, PEM and PKIX decoding, the file server, the operating system
  (each call's answers), SQLite through the constraints of the schema and a failure of any call.

  Files are a map from absolute paths to contents; a write records every state it passes through,
  so that a crash between two calls is one of them. The YAML coder is an argument; that it reads
  back what it wrote is a hypothesis of the one property that needs it, for the one configuration.

  Not modelled: listening and shutting down of servers, signals, the ServeMux's redirects, modes of
  files, what the commands that clear a port do, log texts on stderr. They are input and output
  around the operations above and change none of the state described here.
\<close>

section \<open>From the booking system to the device\<close>

text \<open>The tool servers call the Shelly client through its interface.\<close>

definition shelly_service :: "env \<Rightarrow> (client \<times> io list) shelly_client" where
  "shelly_service e = \<lparr>
     sc_GetStatus = (\<lambda>t (c, h). case GetStatus e c t h of (res, c1, h1) \<Rightarrow> (Returned res, (c1, h1))),
     sc_Set = (\<lambda>t on (c, h). case Set_output e c t on h of (err, c1, h1) \<Rightarrow> (Returned err, (c1, h1)))\<rparr>"

text \<open>The last thing the device did was to answer a request for \<open>url\<close> with a 2xx response.\<close>

definition device_answered :: "env \<Rightarrow> io list \<Rightarrow> string \<Rightarrow> response \<Rightarrow> bool" where
  "device_answered e h url resp \<longleftrightarrow>
     (\<exists>auth h0. h = SlotReleased # BodyClosed # BodyOpened # RequestSent url auth # h0
        \<and> env_send e h0 url auth = Responded resp \<and> 200 \<le> rs_code resp \<and> rs_code resp < 300)"

lemma service_says:
  assumes "fs_shelly srv = shelly_service e" and "classify r \<noteq> Refused code msg"
    and "device_says srv t (classify r) (c, h) = (Returned (Inr state), (c1, h1))"
    and "\<And>code msg. classify r \<noteq> Refused code msg"
  shows "(\<exists>url resp status err. classify r = Ask
        \<and> rpcURL t ''Switch.GetStatus'' (''id='' @ Itoa (tool_switch_id t)) = Inr url
        \<and> device_answered e h1 url resp
        \<and> env_json e (take 4096 (rs_body resp)) err = Inr status \<and> sw_Output status = state)
    \<or> (\<exists>url resp. classify r = Command state
        \<and> rpcURL t ''Switch.Set'' (''id='' @ Itoa (tool_switch_id t) @ ''&on='' @ FormatBool state) = Inr url
        \<and> device_answered e h1 url resp)"
proof (cases "classify r")
  case (Refused code msg)
  with assms(4) show ?thesis by blast
next
  case Ask
  with assms(1,3) obtain status where "getStatus e c t PriorityFBS h = (Inr status, c1, h1)"
    and state: "sw_Output status = state"
    by (auto simp: device_says_def shelly_service_def GetStatus_def
        split: prod.splits sum.splits outcome.splits)
  from getStatus_history [OF this(1)] Ask state show ?thesis
    unfolding device_answered_def by blast
next
  case (Command on)
  with assms(1,3) have "Set_output e c t on h = (None, c1, h1)" and "on = state"
    by (auto simp: device_says_def shelly_service_def split: prod.splits option.splits outcome.splits)
  from Set_output_history [OF this(1)] Command \<open>on = state\<close> show ?thesis
    unfolding device_answered_def by blast
qed

text \<open>
  C1. The booking system is never told a wrong ON: whenever a request on a new connection is
  answered that the tool is on, then the fail-safe state is on, or the last thing that happened
  on the network is that this tool's device answered this gateway's request with 2xx: it
  acknowledged the command to switch on, or reported in its status that it is on. This holds for
  every behaviour of network, device and clock, every client state and every status table.
\<close>

theorem on_means_on:
  assumes "fw_writer st = fresh_answer" and "fs_shelly srv = shelly_service e"
    and "ha_body (fw_writer (serve_tool srv t r st)) = fbsOn" and "\<not> fs_safeOutput srv"
  shows "(\<exists>url resp status err. classify r = Ask
        \<and> rpcURL t ''Switch.GetStatus'' (''id='' @ Itoa (tool_switch_id t)) = Inr url
        \<and> device_answered e (snd (fw_client (serve_tool srv t r st))) url resp
        \<and> env_json e (take 4096 (rs_body resp)) err = Inr status \<and> sw_Output status)
    \<or> (\<exists>url resp. classify r = Command True
        \<and> rpcURL t ''Switch.Set'' (''id='' @ Itoa (tool_switch_id t) @ ''&on=true'') = Inr url
        \<and> device_answered e (snd (fw_client (serve_tool srv t r st))) url resp)"
proof -
  obtain c h where ch: "fw_client st = (c, h)" by fastforce
  have asked: "classify r \<noteq> Refused code msg" for code msg
  proof
    assume q: "classify r = Refused code msg"
    from serve_tool_refused(3) [OF q, of srv t st] assms(1,3)
    have body: "msg @ [CHR 0x0A] = fbsOn" by (simp add: http_Error_fresh)
    have "last fbsOn = CHR 0x0A" by (simp add: body [symmetric])
    then show False by (simp add: fbsOn_def)
  qed
  obtain res c1 h1 where says: "device_says srv t (classify r) (fw_client st) = (res, (c1, h1))"
    by (metis prod.exhaust)
  note served = serve_tool_answer [OF refl asked says]
  have "answer_state srv res"
    using assms(1,3) fbs_length(5) by (auto simp: served(3) writeFBS_fresh split: if_splits)
  then have res: "res = Returned (Inr True)"
    using assms(4) by (auto simp: answer_state_def split: outcome.splits sum.splits)
  from service_says [OF assms(2) asked says [unfolded ch res] asked] show ?thesis
    by (auto simp: served(1) FormatBool_def)
qed

definition lab_server :: "(client \<times> io list, status_store) fbs_server" where
  "lab_server = NewServer ''0.0.0.0'' False (shelly_service (answering 200)) (Some store_recorder)"

definition lab_world :: "(client \<times> io list, status_store, http_answer) fbs_state" where
  "lab_world = \<lparr>fw_client = (new_client, []), fw_table = empty_store, fw_log = [], fw_writer = fresh_answer\<rparr>"

theorem on_means_on_witness:
  "\<exists>url resp. rpcURL lab_tool ''Switch.Set'' (''id='' @ Itoa (tool_switch_id lab_tool) @ ''&on=true'') = Inr url
     \<and> device_answered (answering 200)
        (snd (fw_client (serve_tool lab_server lab_tool (get_request ''/on'') lab_world))) url resp"
proof -
  have "fst (Set_output (answering 200) new_client lab_tool True []) = None" by code_simp
  then obtain c1 h1 where "Set_output (answering 200) new_client lab_tool True [] = (None, c1, h1)"
    by (metis prod.collapse)
  then have says: "device_says lab_server lab_tool (Command True) (fw_client lab_world)
      = (Returned (Inr True), (c1, h1))"
    by (simp add: device_says_def lab_server_def NewServer_def shelly_service_def lab_world_def)
  have told: "ha_body (fw_writer (serve_tool lab_server lab_tool (get_request ''/on'') lab_world)) = fbsOn"
    using serve_tool_answer(3) [OF classify_get(1) _ says]
    by (simp add: lab_world_def writeFBS_fresh answer_state_def)
  have fresh: "fw_writer lab_world = fresh_answer" and srv: "fs_shelly lab_server = shelly_service (answering 200)"
    and safe: "\<not> fs_safeOutput lab_server"
    by (simp_all add: lab_world_def lab_server_def NewServer_def)
  from on_means_on [OF fresh srv told safe] show ?thesis by (auto simp: classify_get)
qed

section \<open>From the admin form to the database\<close>

text \<open>The gateway on its database, as the store of the admin server; \<open>say\<close> prints an error.\<close>

definition gateway_UpdateConfig ::
  "(store_error gateway_error \<Rightarrow> string) \<Rightarrow> config \<Rightarrow> (store_error, database) gateway \<times> database
     \<Rightarrow> string option \<times> ((store_error, database) gateway \<times> database)" where
  "gateway_UpdateConfig say cfg g =
     (case UpdateConfig cfg (fst g) (snd g) of (err, g1, db1) \<Rightarrow> (map_option say err, (g1, db1)))"

lemma handlePutConfig_outcome:
  assumes "ad_UpdateConfig srv = gateway_UpdateConfig say"
    and "ad_ConfigSnapshot srv = (\<lambda>g. ConfigSnapshot (fst g))"
    and "gw_persistence (fst (ah_store st)) = Some (database_persistence faults mirrorPath now)"
    and "handlePutConfig srv W r st = st'"
  shows "(\<exists>form. decodeSingleJSON srv maxConfigRequestBytes (arq_body r) = Inr form
      \<and> ah_writer st' = writeJSON W 200 (Some savedJSON) (ah_writer st)
      \<and> ConfigSnapshot (fst (ah_store st'))
          = ApplyDefaults (buildUpdatedConfig (ConfigSnapshot (fst (ah_store st))) form)
      \<and> config_ok (ConfigSnapshot (fst (ah_store st')))
      \<and> Load (snd (ah_store st')) = Inr (stored_config (ConfigSnapshot (fst (ah_store st')))))
    \<or> (\<exists>msg. ah_writer st' = http_Error W msg 400 (ah_writer st) \<and> ah_store st' = ah_store st)"
proof (cases "decodeSingleJSON srv maxConfigRequestBytes (arq_body r)")
  case (Inl err)
  with assms(4) show ?thesis by (auto simp: handlePutConfig_def)
next
  case (Inr form)
  let ?new = "buildUpdatedConfig (ConfigSnapshot (fst (ah_store st))) form"
  obtain err g1 db1 where step: "UpdateConfig ?new (fst (ah_store st)) (snd (ah_store st)) = (err, g1, db1)"
    by (metis prod_cases3)
  have st': "st' = (case err of
      Some e \<Rightarrow> answer_with (http_Error W (say e) 400) (st\<lparr>ah_store := (g1, db1)\<rparr>)
    | None \<Rightarrow> answer_with (writeJSON W 200 (Some savedJSON)) (st\<lparr>ah_store := (g1, db1)\<rparr>))"
    using assms(4) Inr step
    by (auto simp: handlePutConfig_def assms(1,2) gateway_UpdateConfig_def Let_def split: option.split)
  note out = database.UpdateConfig_outcome [OF assms(3) step]
  show ?thesis
  proof (cases err)
    case None
    with out have "Load db1 = Inr (stored_config (ConfigSnapshot g1))"
      by (auto simp: database_fetch_def split: sum.splits)
    with out None Inr show ?thesis by (auto simp: st')
  next
    case (Some e)
    with out have "(g1, db1) = ah_store st" by (simp add: prod_eq_iff)
    with Some show ?thesis by (auto simp: st')
  qed
qed

lemma savedJSON_sent:
  assumes "ha_sent a = None" and "ha_body a = []" and "ha_length a = None"
    and "ha_header a ''Content-Length'' = None"
  shows "\<exists>h. ha_sent (writeJSON http_writer 200 (Some savedJSON) a) = Some (200, h)"
    and "ha_body (writeJSON http_writer 200 (Some savedJSON) a) = savedJSON"
  using assms by (simp_all add: writeJSON_def http_writer_def answer_WriteHeader_def
      answer_Write_def set_header_def Let_def)

lemma SafeOutput_stored:
  "TrimSpace (safe_state_on_error (cfg_defaults cfg)) = safe_state_on_error (cfg_defaults cfg) \<Longrightarrow>
   SafeOutput (stored_config cfg) = SafeOutput cfg"
  by (simp add: SafeOutput_def stored_config_def EqualFold_def)

text \<open>
  C7. A configuration the admin interface reports as saved is saved: a PUT that passes the guards
  is answered 200 with the saved flag, and then the running configuration is the submitted form
  with its defaults, valid, and a restart would load its stored form from the database; or it is
  answered 400, and then the gateway and its database are exactly as before. The stored form is
  the running configuration with the spaces around tool names, addresses and the fail-safe state
  cut off, protocols filled in and that state in lower case. Both mean the same fail-safe output
  unless the state was entered with spaces around it; then they can differ
  (padded_safe_state_flips_on_restart in Config_Store).
\<close>

theorem saved_means_saved:
  assumes "ad_UpdateConfig srv = gateway_UpdateConfig say"
    and "ad_ConfigSnapshot srv = (\<lambda>g. ConfigSnapshot (fst g))"
    and "gw_persistence (fst (ah_store st)) = Some (database_persistence faults mirrorPath now)"
    and "host_allowed r" and "same_site srv r"
    and "arq_method r = ''PUT''" and "arq_path r = ''/api/config''"
    and "ah_writer st = fresh_answer" and "serve_admin srv http_writer r st = st'"
  shows "(\<exists>form h. decodeSingleJSON srv maxConfigRequestBytes (arq_body r) = Inr form
      \<and> ha_sent (ah_writer st') = Some (200, h) \<and> ha_body (ah_writer st') = savedJSON
      \<and> ConfigSnapshot (fst (ah_store st'))
          = ApplyDefaults (buildUpdatedConfig (ConfigSnapshot (fst (ah_store st))) form)
      \<and> config_ok (ConfigSnapshot (fst (ah_store st')))
      \<and> Load (snd (ah_store st')) = Inr (stored_config (ConfigSnapshot (fst (ah_store st'))))
      \<and> (TrimSpace (safe_state_on_error (cfg_defaults (ConfigSnapshot (fst (ah_store st')))))
            = safe_state_on_error (cfg_defaults (ConfigSnapshot (fst (ah_store st')))) \<longrightarrow>
          SafeOutput (stored_config (ConfigSnapshot (fst (ah_store st'))))
            = SafeOutput (ConfigSnapshot (fst (ah_store st')))))
    \<or> (\<exists>h. ha_sent (ah_writer st') = Some (400, h) \<and> ah_store st' = ah_store st)"
proof -
  obtain st1 where run: "st' = handlePutConfig srv http_writer r st1"
    and same: "ah_store st1 = ah_store st"
    and fresh: "ha_sent (ah_writer st1) = None" "ha_body (ah_writer st1) = []" "ha_length (ah_writer st1) = None"
      "ha_header (ah_writer st1) ''Content-Length'' = None"
    using serve_admin_put [OF assms(4-9)] by blast
  note sent = savedJSON_sent [OF fresh]
  from handlePutConfig_outcome [OF assms(1,2) assms(3) [folded same] run [symmetric]] sent
    http_Error_sent [OF fresh(1)]
  show ?thesis unfolding same by (auto simp: SafeOutput_stored)
qed

definition admin_store_server :: "adminConfigRequest \<Rightarrow> ((store_error, database) gateway \<times> database, http_answer) admin_server" where
  "admin_store_server form = \<lparr>ad_ConfigSnapshot = (\<lambda>g. ConfigSnapshot (fst g)),
     ad_UpdateConfig = gateway_UpdateConfig (\<lambda>e. ''refused''), ad_logExporter = None,
     ad_decode = (\<lambda>b. Inr (form, b)), ad_trailing = (\<lambda>b. NothingMore), ad_encode = (\<lambda>p. None),
     ad_disposition = (\<lambda>s. s), ad_parseURL = (\<lambda>s. None), ad_files = (\<lambda>r w. w)\<rparr>"

definition own_put :: admin_request where
  "own_put = foreign_put\<lparr>arq_host := ''localhost:18090''\<rparr>"

definition shop_admin :: "((store_error, database) gateway \<times> database, http_answer) admin_state" where
  "shop_admin = \<lparr>ah_store = (shop_gateway, empty_db), ah_status = idle_admin blank_table,
     ah_timers = 0, ah_restart = 0, ah_writer = fresh_answer\<rparr>"

text \<open>The form of a shop with one tool, put into the empty shop, is saved.\<close>

definition one_tool_shop :: config where
  "one_tool_shop = shop_config [shop_tool ''A'' ''10.0.0.1'' 8081]"

definition shop_form :: adminConfigRequest where
  "shop_form = form_of (config_response one_tool_shop)"

lemma shop_form_saved:
  "map_option fst (ha_sent (ah_writer (serve_admin (admin_store_server shop_form) http_writer own_put shop_admin)))
     = Some 200"
  "ConfigSnapshot (fst (ah_store (serve_admin (admin_store_server shop_form) http_writer own_put shop_admin)))
     = one_tool_shop"
proof -
  let ?srv = "admin_store_server shop_form"
  let ?st = "serve_admin ?srv http_writer own_put shop_admin"
  have guards: "host_allowed own_put" "same_site ?srv own_put"
    by code_simp+
  have put: "arq_method own_put = ''PUT''" "arq_path own_put = ''/api/config''"
    "ah_writer shop_admin = fresh_answer"
    by (simp_all add: own_put_def foreign_put_def shop_admin_def)
  obtain st1 where run: "?st = handlePutConfig ?srv http_writer own_put st1"
    and same: "ah_store st1 = ah_store shop_admin"
    and fresh: "ha_sent (ah_writer st1) = None" "ha_body (ah_writer st1) = []" "ha_length (ah_writer st1) = None"
      "ha_header (ah_writer st1) ''Content-Length'' = None"
    using serve_admin_put [OF guards put refl] by blast
  have parsed: "decodeSingleJSON ?srv maxConfigRequestBytes (arq_body own_put) = Inr shop_form"
    by (simp add: decodeSingleJSON_def admin_store_server_def)
  have form: "buildUpdatedConfig (ConfigSnapshot shop_gateway) shop_form = one_tool_shop"
    by code_simp
  have "case UpdateConfig one_tool_shop shop_gateway empty_db of
      (err, g, db) \<Rightarrow> err = None \<and> ConfigSnapshot g = one_tool_shop"
    by code_simp
  then obtain g db where step: "UpdateConfig one_tool_shop shop_gateway empty_db = (None, g, db)"
    and snapshot: "ConfigSnapshot g = one_tool_shop"
    by (auto split: prod.splits)
  have store: "ah_store st1 = (shop_gateway, empty_db)" using same by (simp add: shop_admin_def)
  have st: "?st = answer_with (writeJSON http_writer 200 (Some savedJSON)) (st1\<lparr>ah_store := (g, db)\<rparr>)"
    unfolding run handlePutConfig_def parsed
    by (simp add: store admin_store_server_def gateway_UpdateConfig_def form step Let_def)
  show "map_option fst (ha_sent (ah_writer ?st)) = Some 200" "ConfigSnapshot (fst (ah_store ?st)) = one_tool_shop"
    unfolding st using savedJSON_sent(1) [OF fresh] snapshot by (auto simp: answer_with_def)
qed

theorem saved_means_saved_witness:
  "case ah_store (serve_admin (admin_store_server shop_form) http_writer own_put shop_admin) of
     (g, db) \<Rightarrow> ConfigSnapshot g = one_tool_shop \<and> Load db = Inr (stored_config one_tool_shop)
       \<and> SafeOutput (stored_config one_tool_shop) = SafeOutput one_tool_shop"
proof -
  let ?st = "serve_admin (admin_store_server shop_form) http_writer own_put shop_admin"
  have guards: "host_allowed own_put" "same_site (admin_store_server shop_form) own_put"
    by code_simp+
  have put: "arq_method own_put = ''PUT''" "arq_path own_put = ''/api/config''"
    by (simp_all add: own_put_def foreign_put_def)
  have db: "gw_persistence (fst (ah_store shop_admin)) = Some (database_persistence (\<lambda>c. None) [] ''t0'')"
    and fresh: "ah_writer shop_admin = fresh_answer"
    by (simp_all add: shop_admin_def shop_gateway_persistence)
  have server: "ad_UpdateConfig (admin_store_server shop_form) = gateway_UpdateConfig (\<lambda>e. ''refused'')"
    "ad_ConfigSnapshot (admin_store_server shop_form) = (\<lambda>g. ConfigSnapshot (fst g))"
    by (simp_all add: admin_store_server_def)
  have trimmed: "TrimSpace (safe_state_on_error (cfg_defaults one_tool_shop))
      = safe_state_on_error (cfg_defaults one_tool_shop)"
    by code_simp
  from saved_means_saved [OF server db guards put fresh refl] shop_form_saved trimmed
  show ?thesis by (auto simp: case_prod_beta)
qed

end
